(* ===== verification/Prelude.thy ===== *)
theory Prelude
  imports Complex_Main "HOL-Library.Multiset" "HOL-Library.List_Lexorder" "HOL-Library.Char_ord"
begin

text \<open>
  Shared vocabulary of the development: the JavaScript string and number operations the web
  application uses, and the generic facts about lists the component theories share.

  JavaScript numbers are modelled by exact rationals (\<open>rat\<close>): IEEE rounding, NaN and the
  infinities are not part of this theory (a component whose behaviour depends on NaN models it
  explicitly).  Strings are HOL strings; a glyph outside ASCII that the code emits is written as
  its UTF-8 bytes.
\<close>

named_theorems js_simps \<open>unfolding rules for the string and number operations\<close>

section \<open>Strings\<close>

definition digit :: "nat \<Rightarrow> char" where
  "digit n = ''0123456789'' ! n"

definition is_digit :: "char \<Rightarrow> bool" where
  "is_digit c \<longleftrightarrow> c \<in> set ''0123456789''"

definition digit_val :: "char \<Rightarrow> nat" where
  "digit_val c = of_char c - 48"

text \<open>\<open>String(n)\<close> for a non-negative integer: its decimal digits.\<close>

fun dec :: "nat \<Rightarrow> string" where
  "dec n = (if n < 10 then [digit n] else dec (n div 10) @ [digit (n mod 10)])"

declare dec.simps [simp del]

text \<open>The value of a run of digits, as \<open>parseInt\<close> reads it.\<close>

definition digits_val :: "string \<Rightarrow> nat" where
  "digits_val s = foldl (\<lambda>a c. 10 * a + digit_val c) 0 s"

definition all_digits :: "string \<Rightarrow> bool" where
  "all_digits s \<longleftrightarrow> s \<noteq> [] \<and> (\<forall>c\<in>set s. is_digit c)"

text \<open>The digits at the end of a string: the capture of the pattern \<open>(\d+)$\<close>.\<close>

definition trailing_digits :: "string \<Rightarrow> string" where
  "trailing_digits s = rev (takeWhile is_digit (rev s))"

text \<open>\<open>s || t\<close> on strings: the empty string is falsy.\<close>

definition or_str :: "string \<Rightarrow> string \<Rightarrow> string" where
  "or_str s t = (if s = [] then t else s)"

text \<open>\<open>s || t\<close> where \<open>s\<close> may be undefined.\<close>

definition or_opt :: "string option \<Rightarrow> string \<Rightarrow> string" where
  "or_opt s t = (case s of None \<Rightarrow> t | Some u \<Rightarrow> or_str u t)"

text \<open>\<open>v ?? d\<close>: the nullish default.\<close>

definition default_to :: "'a \<Rightarrow> 'a option \<Rightarrow> 'a" where
  "default_to d v = (case v of None \<Rightarrow> d | Some x \<Rightarrow> x)"

text \<open>\<open>xs.filter(Boolean).join(sep)\<close>.\<close>

fun join :: "string \<Rightarrow> string list \<Rightarrow> string" where
  "join sep [] = []"
| "join sep [s] = s"
| "join sep (s # t # ts) = s @ sep @ join sep (t # ts)"

definition truthy_strs :: "string list \<Rightarrow> string list" where
  "truthy_strs xs = filter (\<lambda>s. s \<noteq> []) xs"

text \<open>A text that is shown only when it is there and not empty: \<open>s && ...\<close>.\<close>

definition shownText :: "string option \<Rightarrow> string option" where
  "shownText s = (if s = Some [] then None else s)"

definition starts_with :: "string \<Rightarrow> string \<Rightarrow> bool" where
  "starts_with p s \<longleftrightarrow> take (length p) s = p"

text \<open>\<open>s.padStart(n, c)\<close> for a one-character pad.\<close>

definition pad_start :: "nat \<Rightarrow> char \<Rightarrow> string \<Rightarrow> string" where
  "pad_start n c s = replicate (n - length s) c @ s"

text \<open>White space as \<open>String.prototype.trim\<close> removes it, restricted to ASCII.\<close>

definition is_space :: "char \<Rightarrow> bool" where
  "is_space c \<longleftrightarrow> c \<in> {CHR '' '', CHR 0x09, CHR 0x0A, CHR 0x0B, CHR 0x0C, CHR 0x0D}"

definition trim :: "string \<Rightarrow> string" where
  "trim s = rev (dropWhile is_space (rev (dropWhile is_space s)))"

text \<open>\<open>s.split(c)\<close> for a one-character separator.\<close>

fun split_on :: "char \<Rightarrow> string \<Rightarrow> string list" where
  "split_on c [] = [[]]"
| "split_on c (x # xs) =
     (if x = c then [] # split_on c xs
      else (case split_on c xs of y # ys \<Rightarrow> (x # y) # ys | [] \<Rightarrow> [[x]]))"

text \<open>\<open>n.toString(16).toUpperCase()\<close>.\<close>

definition hex_digit :: "nat \<Rightarrow> char" where
  "hex_digit n = ''0123456789ABCDEF'' ! n"

fun hex_upper :: "nat \<Rightarrow> string" where
  "hex_upper n = (if n < 16 then [hex_digit n] else hex_upper (n div 16) @ [hex_digit (n mod 16)])"

declare hex_upper.simps [simp del]

text \<open>The glyphs the pages print: dash, middle dot, ellipsis, pound, euro.\<close>

definition em_dash :: string where "em_dash = [CHR 0xE2, CHR 0x80, CHR 0x94]"
definition en_dash :: string where "en_dash = [CHR 0xE2, CHR 0x80, CHR 0x93]"
definition middot :: string where "middot = [CHR 0xC2, CHR 0xB7]"
definition ellipsis :: string where "ellipsis = [CHR 0xE2, CHR 0x80, CHR 0xA6]"
definition pound :: string where "pound = [CHR 0xC2, CHR 0xA3]"
definition euro :: string where "euro = [CHR 0xE2, CHR 0x82, CHR 0xAC]"

section \<open>Numbers\<close>

text \<open>\<open>Math.round\<close> rounds half up, also for negative numbers.\<close>

definition math_round :: "rat \<Rightarrow> int" where
  "math_round x = \<lfloor>x + 1 / 2\<rfloor>"

text \<open>\<open>Number.prototype.toFixed\<close> below \<open>1e21\<close>: the sign is taken off first, the magnitude is
  rounded half up, and a negative number keeps its sign even when it rounds to zero.\<close>

definition toFixed :: "nat \<Rightarrow> rat \<Rightarrow> string" where
  "toFixed f x =
     (let m = dec (nat \<lfloor>\<bar>x\<bar> * 10 ^ f + 1 / 2\<rfloor>);
          p = pad_start (f + 1) CHR ''0'' m;
          k = length p - f
      in (if x < 0 then ''-'' else []) @
         (if f = 0 then m else take k p @ ''.'' @ drop k p))"

text \<open>\<open>String(i)\<close> for an integer.\<close>

definition int_str :: "int \<Rightarrow> string" where
  "int_str i = (if i < 0 then ''-'' else []) @ dec (nat \<bar>i\<bar>)"

text \<open>\<open>Math.max(a, ...xs)\<close> and \<open>Math.min(a, ...xs)\<close>.\<close>

definition math_max :: "rat \<Rightarrow> rat list \<Rightarrow> rat" where
  "math_max a xs = foldl max a xs"

definition math_min :: "rat \<Rightarrow> rat list \<Rightarrow> rat" where
  "math_min a xs = foldl min a xs"

section \<open>Facts about strings\<close>

lemma lt_10_cases: "(n::nat) < 10 \<Longrightarrow> n \<in> {0,1,2,3,4,5,6,7,8,9}"
  by auto

lemma digit_is_digit [simp]: "n < 10 \<Longrightarrow> is_digit (digit n)"
  by (drule lt_10_cases) (auto simp: is_digit_def digit_def)

lemma digit_val_digit [simp]: "n < 10 \<Longrightarrow> digit_val (digit n) = n"
  by (drule lt_10_cases) (auto simp: digit_val_def digit_def)

lemma dec_ne [simp]: "dec n \<noteq> []"
  by (subst dec.simps) simp

lemma dec_digits: "c \<in> set (dec n) \<Longrightarrow> is_digit c"
proof (induction n rule: dec.induct)
  case (1 n)
  then show ?case
    by (subst (asm) (2) dec.simps) (auto split: if_splits)
qed

lemma all_digits_dec [simp]: "all_digits (dec n)"
  by (auto simp: all_digits_def dest: dec_digits)

lemma digits_val_snoc: "digits_val (s @ [c]) = 10 * digits_val s + digit_val c"
  by (simp add: digits_val_def)

text \<open>\<open>parseInt\<close> reads back what \<open>String\<close> printed.\<close>

lemma digits_val_dec [simp]: "digits_val (dec n) = n"
proof (induction n rule: dec.induct)
  case (1 n)
  show ?case
  proof (cases "n < 10")
    case True
    then show ?thesis by (subst dec.simps) (simp add: digits_val_def)
  next
    case False
    then show ?thesis
      using "1.IH" by (subst dec.simps) (simp add: digits_val_snoc)
  qed
qed

lemma dec_inject [simp]: "dec m = dec n \<longleftrightarrow> m = n"
  by (metis digits_val_dec)

lemma trailing_digits_append:
  assumes "all_digits t" and "s \<noteq> [] \<Longrightarrow> \<not> is_digit (last s)"
  shows "trailing_digits (s @ t) = t"
proof -
  have "takeWhile is_digit (rev t @ rev s) = rev t @ takeWhile is_digit (rev s)"
    using assms(1) by (intro takeWhile_append2) (auto simp: all_digits_def)
  moreover have "takeWhile is_digit (rev s) = []"
    using assms(2) by (cases s rule: rev_cases) auto
  ultimately show ?thesis by (simp add: trailing_digits_def)
qed

lemma split_on_ne [simp]: "split_on c xs \<noteq> []"
  by (induction xs) (auto split: list.split)

lemma split_on_no_sep: "c \<notin> set xs \<Longrightarrow> split_on c xs = [xs]"
  by (induction xs) auto

lemma split_on_append: "c \<notin> set xs \<Longrightarrow> split_on c (xs @ c # ys) = xs # split_on c ys"
  by (induction xs) (auto split: list.split)

lemma starts_with_append [simp]: "starts_with p (p @ s)"
  by (simp add: starts_with_def)

lemma or_opt_simps [simp]:
  "or_opt None t = t" "or_opt (Some []) t = t" "u \<noteq> [] \<Longrightarrow> or_opt (Some u) t = u"
  by (simp_all add: or_opt_def or_str_def)

lemma default_to_simps [simp]: "default_to d None = d" "default_to d (Some x) = x"
  by (simp_all add: default_to_def)

section \<open>Facts about numbers\<close>

lemma math_max_ge_base: "a \<le> math_max a xs"
  unfolding math_max_def by (induction xs arbitrary: a) (auto intro: order_trans max.cobounded1)

lemma math_max_ge_mem: "x \<in> set xs \<Longrightarrow> x \<le> math_max a xs"
proof (induction xs arbitrary: a)
  case (Cons y ys)
  then show ?case
    using math_max_ge_base [of "max a y" ys] by (auto simp: math_max_def)
qed simp

lemma math_max_in: "math_max a xs \<in> insert a (set xs)"
proof (induction xs arbitrary: a)
  case (Cons y ys)
  then show ?case
    using Cons.IH [of "max a y"] by (auto simp: math_max_def max_def split: if_splits)
qed (simp add: math_max_def)

lemma math_min_le_base: "math_min a xs \<le> a"
  unfolding math_min_def by (induction xs arbitrary: a) (auto intro: order_trans min.cobounded1)

lemma math_min_le_mem: "x \<in> set xs \<Longrightarrow> math_min a xs \<le> x"
proof (induction xs arbitrary: a)
  case (Cons y ys)
  then show ?case
    using math_min_le_base [of "min a y" ys] by (auto simp: math_min_def)
qed simp

section \<open>Facts about lists\<close>

text \<open>A key-preserving rewrite of a list leaves the list of keys as it was.\<close>

lemma map_key_update:
  "(\<And>x. x \<in> set xs \<Longrightarrow> k (f x) = k x) \<Longrightarrow> map k (map f xs) = map k xs"
  by (induction xs) auto

lemma sum_list_filter_split:
  "sum_list (map f xs) =
     (sum_list (map f (filter P xs)) + sum_list (map f (filter (\<lambda>x. \<not> P x) xs)) :: 'a :: comm_monoid_add)"
  by (induction xs) (auto simp: ac_simps)

lemma filter_eq_singleD: "filter P xs = [x] \<Longrightarrow> P x \<and> x \<in> set xs"
proof -
  assume "filter P xs = [x]"
  then have "x \<in> set (filter P xs)" by simp
  then show "P x \<and> x \<in> set xs" by simp
qed

lemma sum_list_cong:
  "(\<And>x. x \<in> set xs \<Longrightarrow> f x = g x) \<Longrightarrow> sum_list (map f xs) = sum_list (map g xs)"
  by (intro arg_cong [where f = sum_list] map_cong) auto

lemma foldl_plus_sum_list: "foldl (\<lambda>a x. a + f x) (a::'a::monoid_add) xs = a + sum_list (map f xs)"
  by (induction xs arbitrary: a) (auto simp: add.assoc)

lemma distinct_map_filter_key: "distinct (map k xs) \<Longrightarrow> distinct (map k (filter P xs))"
  by (induction xs) auto

text \<open>Looking up the last entry with a key, and maps filled by a loop.\<close>

lemma find_SomeD: "find P xs = Some x \<Longrightarrow> P x \<and> x \<in> set xs"
  by (induction xs) (auto split: if_splits)

lemma find_rev_NoneD: "find P (rev xs) = None \<Longrightarrow> x \<in> set xs \<Longrightarrow> \<not> P x"
  by (simp add: find_None_iff)

lemma distinct_keyD: "distinct (map k xs) \<Longrightarrow> x \<in> set xs \<Longrightarrow> y \<in> set xs \<Longrightarrow> k x = k y \<Longrightarrow> x = y"
  by (auto simp: distinct_map inj_on_def)

lemma foldl_put:
  "foldl (\<lambda>m n. if P n then m(k n \<mapsto> f n) else m) m0 xs x =
     (case find (\<lambda>n. P n \<and> k n = x) (rev xs) of Some n \<Rightarrow> Some (f n) | None \<Rightarrow> m0 x)"
  by (induction xs rule: rev_induct) auto

lemma find_rev_distinct:
  assumes "distinct (map k xs)"
  shows "find (\<lambda>n. P n \<and> k n = x) (rev xs) = Some n \<longleftrightarrow> n \<in> set xs \<and> P n \<and> k n = x"
proof
  assume r: "n \<in> set xs \<and> P n \<and> k n = x"
  then obtain m where m: "find (\<lambda>n. P n \<and> k n = x) (rev xs) = Some m"
    using find_rev_NoneD [of "\<lambda>n. P n \<and> k n = x" xs n] by (cases "find (\<lambda>n. P n \<and> k n = x) (rev xs)") auto
  have "m \<in> set xs" "k m = k n" using find_SomeD [OF m] r by auto
  then have "m = n" using assms r by (auto simp: distinct_map dest: inj_onD)
  with m show "find (\<lambda>n. P n \<and> k n = x) (rev xs) = Some n" by simp
next
  assume "find (\<lambda>n. P n \<and> k n = x) (rev xs) = Some n"
  from find_SomeD [OF this] show "n \<in> set xs \<and> P n \<and> k n = x" by auto
qed

lemmas js_string_defs = or_str_def or_opt_def default_to_def starts_with_def pad_start_def

end
