(* ===== verification/Ids.thy ===== *)
theory Ids
  imports Prelude
begin

text \<open>
  Identifiers built from numbers.  The application prints numbers into graph ids
  (\<open>node_12\<close>, \<open>appliance_3\<close>), into select-box keys (\<open>20001-1\<close>) and into measurement keys
  (\<open>20001:1\<close>), and reads them back with regular expressions and \<open>split\<close>.  What all of this needs
  of the number format is stated once, as the interface \<open>numeral_codec\<close>, and discharged by the
  decimal format of the prelude.
\<close>

section \<open>The interface: a number format without separators\<close>

locale numeral_codec =
  fixes enc :: "nat \<Rightarrow> string"
    and val :: "string \<Rightarrow> nat"
  assumes val_enc: "val (enc n) = n"
    and enc_digits: "c \<in> set (enc n) \<Longrightarrow> is_digit c"
    and enc_nonempty: "enc n \<noteq> []"
begin

lemma enc_inj: "enc m = enc n \<Longrightarrow> m = n"
  using val_enc by metis

text \<open>A pair printed with a separator that is not a digit determines both numbers.\<close>

lemma pair_inj:
  assumes "\<not> is_digit sep" and "enc a @ sep # enc b = enc c @ sep # enc d"
  shows "a = c \<and> b = d"
proof -
  have "takeWhile is_digit (enc x @ sep # enc y) = enc x" for x y
    using assms(1) enc_digits by simp
  then have "enc a = enc c"
    using assms(2) by metis
  with assms(2) have "enc b = enc d" by simp
  with \<open>enc a = enc c\<close> show ?thesis by (blast intro: enc_inj)
qed

text \<open>Splitting at the separator recovers them.\<close>

lemma pair_split:
  assumes "\<not> is_digit sep"
  shows "val (takeWhile (\<lambda>c. c \<noteq> sep) (enc a @ sep # enc b)) = a"
    and "val (tl (dropWhile (\<lambda>c. c \<noteq> sep) (enc a @ sep # enc b))) = b"
proof -
  have ne: "c \<noteq> sep" if "c \<in> set (enc a)" for c
    using enc_digits [OF that] assms by auto
  show "val (takeWhile (\<lambda>c. c \<noteq> sep) (enc a @ sep # enc b)) = a"
    using ne by (simp add: val_enc)
  show "val (tl (dropWhile (\<lambda>c. c \<noteq> sep) (enc a @ sep # enc b))) = b"
    using ne by (simp add: val_enc)
qed

lemma prefixed_inj: "p @ enc m = p @ enc n \<Longrightarrow> m = n"
  using enc_inj by simp

text \<open>A counter above every printed number yields an id not yet used.\<close>

lemma prefixed_fresh:
  assumes "\<And>k. p @ enc k \<in> ids \<Longrightarrow> k \<le> bound" and "bound < n"
  shows "p @ enc n \<notin> ids"
  using assms leD by blast

end

interpretation decimal: numeral_codec dec digits_val
  by unfold_locales (auto dest: dec_digits)

section \<open>Keys the application builds\<close>

text \<open>\<open>sensorKey\<close> of the endpoint pickers.\<close>

definition sensorKey :: "nat \<Rightarrow> nat \<Rightarrow> string" where
  "sensorKey nodeId endpointId = dec nodeId @ CHR ''-'' # dec endpointId"

text \<open>A template-literal hole filled with a possibly undefined number.\<close>

definition opt_dec :: "nat option \<Rightarrow> string" where
  "opt_dec v = (case v of None \<Rightarrow> ''undefined'' | Some n \<Rightarrow> dec n)"

text \<open>The key under which a measured endpoint's report and a canvas node meet.\<close>

definition measure_key :: "nat option \<Rightarrow> nat option \<Rightarrow> string" where
  "measure_key n e = opt_dec n @ CHR '':'' # opt_dec e"

lemma sep_not_digit [simp]: "\<not> is_digit CHR ''-''" "\<not> is_digit CHR '':''" "\<not> is_digit CHR ''_''"
  by (simp_all add: is_digit_def)

lemma sensorKey_inject [simp]: "sensorKey a b = sensorKey c d \<longleftrightarrow> a = c \<and> b = d"
  unfolding sensorKey_def using decimal.pair_inj by (metis sep_not_digit(1))

lemma sensorKey_ne [simp]: "sensorKey a b \<noteq> []" "[] \<noteq> sensorKey a b"
  by (simp_all add: sensorKey_def)

lemma dec_not_u [simp]: "CHR ''u'' # s \<noteq> dec n"
proof
  assume "CHR ''u'' # s = dec n"
  then have "is_digit CHR ''u''" by (metis dec_digits list.set_intros(1))
  then show False by (simp add: is_digit_def)
qed

lemma measure_key_eq_iff:
  "measure_key n e = measure_key (Some m) (Some f) \<longleftrightarrow> n = Some m \<and> e = Some f"
proof
  assume eq: "measure_key n e = measure_key (Some m) (Some f)"
  show "n = Some m \<and> e = Some f"
  proof (cases n)
    case None
    obtain c r where cr: "dec m = c # r"
      using dec_ne [of m] by (cases "dec m") auto
    with eq None have "c = CHR ''u''"
      by (simp add: measure_key_def opt_dec_def)
    then show ?thesis using cr dec_not_u [of r m] by simp
  next
    case (Some a)
    have tw: "takeWhile is_digit (dec x @ CHR '':'' # s) = dec x" for x s
      using dec_digits by simp
    from eq Some have "dec a @ CHR '':'' # opt_dec e = dec m @ CHR '':'' # dec f"
      by (simp add: measure_key_def opt_dec_def)
    then have "dec a = dec m" and "opt_dec e = dec f"
      by (metis tw, metis tw append_same_eq same_append_eq list.inject)
    moreover from this(2) obtain b where "e = Some b"
      by (cases e) (auto simp: opt_dec_def)
    ultimately show ?thesis using Some by (simp add: opt_dec_def)
  qed
qed simp

text \<open>The number of a generated id \<open>p @ dec k\<close>: the match of the pattern \<open>^p(\d+)$\<close>.\<close>

definition id_number :: "string \<Rightarrow> string \<Rightarrow> nat option" where
  "id_number p i =
     (if starts_with p i \<and> all_digits (drop (length p) i)
      then Some (digits_val (drop (length p) i)) else None)"

lemma id_number_dec [simp]: "id_number p (p @ dec k) = Some k"
  by (simp add: id_number_def)

end
