(* ===== verification/Graph.thy ===== *)
theory Graph
  imports Ids
begin

text \<open>
  The topology graph as it is saved and exchanged with the firmware: node settings, saved nodes
  and edges, cached attribute values, and the requests by which the pages change the graph.

  The source declares node settings as an untyped record and casts its fields where it reads them;
  here every field the pages read has its own component with the type of that cast (absent fields
  are \<open>None\<close>), and all other fields are kept in \<open>s_rest\<close>.
\<close>

datatype jval = JNum rat | JStr string | JBool bool | JNull

record settings =
  s_label :: "string option"
  s_name :: "string option"
  s_type :: "string option"
  s_nodeId :: "nat option"
  s_endpointId :: "nat option"
  s_circuits :: "nat option"
  s_outputs :: "nat option"
  s_deletable :: "bool option"
  s_excludeFromScheduling :: "bool option"
  s_rest :: "(string \<times> jval) list"

definition no_settings :: settings where
  "no_settings = \<lparr>s_label = None, s_name = None, s_type = None, s_nodeId = None,
     s_endpointId = None, s_circuits = None, s_outputs = None, s_deletable = None,
     s_excludeFromScheduling = None, s_rest = []\<rparr>"

text \<open>A cached attribute value: \<open>ValueEntry\<close>.\<close>

record value_entry =
  v_cluster :: nat
  v_attribute :: nat
  v_value :: rat

text \<open>\<open>SavedNodeConfig\<close> and \<open>SavedEdgeConfig\<close>.\<close>

record saved_node =
  n_id :: string
  n_x :: rat
  n_y :: rat
  n_settings :: "settings option"
  n_values :: "value_entry list option"

record saved_edge =
  se_id :: string
  se_source :: string
  se_target :: string
  se_sourceHandle :: "string option"
  se_targetHandle :: "string option"

text \<open>
  The requests that change the graph.  \<open>PutNode\<close> is \<open>PUT /api/nodes/:id\<close>, \<open>PutSettings\<close>
  is \<open>PUT /api/nodes/:id/settings\<close>, \<open>PutRole\<close> is \<open>PUT /api/topology/<role>\<close>; the others are
  the DELETE and POST requests on nodes and edges.
\<close>

datatype request =
    PutNode string rat rat "settings option"
  | PutSettings string settings
  | DeleteNode string
  | PostEdge saved_edge
  | DeleteEdge string
  | PutRole string nat nat string

text \<open>
  The answer to a request: it failed to arrive (with the message of the exception), or it came
  with a status and a body.
\<close>

datatype 'a answer = NoAnswer string | Answer nat 'a

definition is_ok :: "'a answer \<Rightarrow> bool" where
  "is_ok r = (case r of NoAnswer _ \<Rightarrow> False | Answer st _ \<Rightarrow> 200 \<le> st \<and> st \<le> 299)"

definition http_error :: "nat \<Rightarrow> string" where
  "http_error status = ''HTTP '' @ dec status"

text \<open>\<open>r.ok ? r.json() : error\<close>: the message of the failure or the body.\<close>

definition checked :: "'a answer \<Rightarrow> string + 'a" where
  "checked r =
     (case r of
        NoAnswer msg \<Rightarrow> Inl msg
      | Answer st x \<Rightarrow> if is_ok (Answer st x) then Inr x else Inl (http_error st))"

text \<open>
  \<open>r.ok ? r.json() : r.text().then(reject)\<close>: the body is its text and what \<open>json()\<close> gives, which is
  \<open>Inl\<close> the message of the exception when the text is not JSON.
\<close>

definition textChecked :: "(string \<times> (string + 'a)) answer \<Rightarrow> string + 'a" where
  "textChecked r =
     (case r of
        NoAnswer msg \<Rightarrow> Inl msg
      | Answer st b \<Rightarrow> if is_ok (Answer st b) then snd b else Inl (fst b))"

text \<open>\<open>Promise.all\<close> of two: both values, or the error of the one that failed first.\<close>

definition promiseAll :: "bool \<Rightarrow> string + 'a \<Rightarrow> string + 'b \<Rightarrow> string + 'a \<times> 'b" where
  "promiseAll secondFirst a b =
     (case (a, b) of
        (Inr x, Inr y) \<Rightarrow> Inr (x, y)
      | (Inl e, Inl f) \<Rightarrow> Inl (if secondFirst then f else e)
      | (Inl e, Inr _) \<Rightarrow> Inl e
      | (Inr _, Inl f) \<Rightarrow> Inl f)"

lemma promiseAll_Inr [simp]: "promiseAll o' a b = Inr (x, y) \<longleftrightarrow> a = Inr x \<and> b = Inr y"
  by (auto simp: promiseAll_def split: sum.splits)

lemma checked_Inr: "checked r = Inr x \<longleftrightarrow> (\<exists>st. r = Answer st x \<and> 200 \<le> st \<and> st \<le> 299)"
  by (auto simp: checked_def is_ok_def split: answer.splits)

section \<open>Attribute lookups on settings that may be missing\<close>

definition opt_field :: "('a \<Rightarrow> 'b option) \<Rightarrow> 'a option \<Rightarrow> 'b option" where
  "opt_field f s = (case s of None \<Rightarrow> None | Some x \<Rightarrow> f x)"

lemma opt_field_simps [simp]: "opt_field f None = None" "opt_field f (Some x) = f x"
  by (simp_all add: opt_field_def)

text \<open>The label both the canvas and the tables show: name, then label, then id.\<close>

definition shown_label :: "string \<Rightarrow> settings option \<Rightarrow> string" where
  "shown_label i s = or_opt (opt_field s_name s) (or_opt (opt_field s_label s) i)"

end
