(* ===== verification/DevicesPage.thy ===== *)
theory DevicesPage
  imports Graph
begin

text \<open>
  The Devices page (\<open>Devices.tsx\<close>), the names of Matter device types (\<open>deviceTypeName.ts\<close>) and the
  commissioning-window page (\<open>CommissioningWindow.tsx\<close>).
\<close>

section \<open>Devices and their endpoints\<close>

record device_endpoint =
  de_endpointId :: nat
  de_label :: string
  de_included :: bool
  de_hasDem :: bool
  de_deviceTypes :: "nat list"
  de_parts :: "nat list"

record device =
  dv_nodeId :: nat
  dv_name :: "string option"
  dv_vendorName :: string
  dv_productName :: string
  dv_endpoints :: "device_endpoint list"
  dv_hasSubscription :: bool

definition DEVICE_TYPE_NAMES :: "(nat \<times> string) list" where
  "DEVICE_TYPE_NAMES =
     [(0x000e, ''Aggregator''), (0x0011, ''Power Source''), (0x0012, ''OTA Requestor''),
      (0x0013, ''Bridged Node''), (0x0016, ''Root Node''), (0x0017, ''Solar Power''),
      (0x0100, ''On/Off Light''), (0x0101, ''Dimmable Light''), (0x010a, ''On/Off Plug''),
      (0x0301, ''Thermostat''), (0x0302, ''Temperature Sensor''), (0x0306, ''Flow Sensor''),
      (0x0309, ''Heat Pump''), (0x050f, ''Water Heater''), (0x0510, ''Electrical Sensor''),
      (0x0512, ''Meter Reference Point''), (0x0514, ''Electrical Meter'')]"

definition deviceTypeName :: "nat \<Rightarrow> string" where
  "deviceTypeName i = default_to (''0x'' @ hex_upper i) (map_of DEVICE_TYPE_NAMES i)"

definition epLabel :: "device_endpoint \<Rightarrow> string" where
  "epLabel ep =
     (if de_label ep \<noteq> [] then de_label ep
      else (case de_deviceTypes ep of t # _ \<Rightarrow> deviceTypeName t | [] \<Rightarrow> ''EP'' @ dec (de_endpointId ep)))"

text \<open>The box of an endpoint: header, its colour, the type badges, the DEM badge.\<close>

record endpoint_box =
  bx_header :: string
  bx_color :: string
  bx_typeList :: bool
  bx_types :: "string list"
  bx_dem :: bool

definition epColor :: "nat \<Rightarrow> string" where
  "epColor i = (if i = 0 then ''#b5651d'' else ''#1a6ec8'')"

definition EndpointBox :: "device_endpoint \<Rightarrow> endpoint_box" where
  "EndpointBox ep =
     \<lparr>bx_header = ''EP'' @ dec (de_endpointId ep) @ '': '' @ epLabel ep, bx_color = epColor (de_endpointId ep),
      bx_typeList = (de_deviceTypes ep \<noteq> []), bx_types = map deviceTypeName (de_deviceTypes ep),
      bx_dem = de_hasDem ep\<rparr>"

section \<open>The endpoint tree\<close>

text \<open>\<open>epMap\<close>: the last endpoint with an id wins.\<close>

definition epMap :: "device_endpoint list \<Rightarrow> nat \<Rightarrow> device_endpoint option" where
  "epMap eps = map_of (rev (map (\<lambda>e. (de_endpointId e, e)) eps))"

definition allChildren :: "(nat \<Rightarrow> device_endpoint option) \<Rightarrow> device_endpoint \<Rightarrow> device_endpoint list" where
  "allChildren M ep = List.map_filter M (de_parts ep)"

definition rowChildren :: "(nat \<Rightarrow> device_endpoint option) \<Rightarrow> device_endpoint \<Rightarrow> device_endpoint list" where
  "rowChildren M ep =
     (let cs = allChildren M ep; claimed = concat (map de_parts cs)
      in filter (\<lambda>c. de_endpointId c \<notin> set claimed) cs)"

datatype row = Row endpoint_box nat bool nat "row list"

text \<open>
  \<open>EndpointRow\<close>.  Nothing in the source bounds the recursion: \<open>None\<close> is running out of the given
  number of nested calls, as a cycle of parts would do.
\<close>

fun endpointRow :: "nat \<Rightarrow> (nat \<Rightarrow> device_endpoint option) \<Rightarrow> bool \<Rightarrow> nat \<Rightarrow> device_endpoint \<Rightarrow> row option"
  and endpointRows :: "nat \<Rightarrow> (nat \<Rightarrow> device_endpoint option) \<Rightarrow> nat \<Rightarrow> device_endpoint list \<Rightarrow> row list option"
where
  "endpointRow 0 M isLast depth ep = None"
| "endpointRow (Suc fuel) M isLast depth ep =
     (case endpointRows fuel M (Suc depth) (rowChildren M ep) of
        None \<Rightarrow> None
      | Some rs \<Rightarrow> Some (Row (EndpointBox ep) (de_endpointId ep) isLast depth rs))"
| "endpointRows fuel M depth [] = Some []"
| "endpointRows fuel M depth (c # cs) =
     (case endpointRow fuel M (cs = []) depth c of
        None \<Rightarrow> None
      | Some r \<Rightarrow> (case endpointRows fuel M depth cs of None \<Rightarrow> None | Some rs \<Rightarrow> Some (r # rs)))"

definition rootEndpoints :: "device_endpoint list \<Rightarrow> device_endpoint list" where
  "rootEndpoints eps =
     (let childIds = concat (map de_parts eps) in filter (\<lambda>e. de_endpointId e \<notin> set childIds) eps)"

definition deviceRows :: "nat \<Rightarrow> device \<Rightarrow> row list option" where
  "deviceRows fuel d = endpointRows fuel (epMap (dv_endpoints d)) 0 (rootEndpoints (dv_endpoints d))"

fun rowIds :: "row \<Rightarrow> nat list" where
  "rowIds (Row b i l d rs) = i # concat (map rowIds rs)"

section \<open>The page\<close>

record devices_page =
  dp_devices :: "device list"
  dp_loading :: bool
  dp_error :: "string option"
  dp_editingNodeId :: "nat option"
  dp_draftName :: string
  dp_openingWindowFor :: "nat option"

definition devices_open :: devices_page where
  "devices_open = \<lparr>dp_devices = [], dp_loading = True, dp_error = None, dp_editingNodeId = None,
     dp_draftName = [], dp_openingWindowFor = None\<rparr>"

datatype device_request =
    Rename nat string
  | RemoveDevice nat
  | Interrogate nat
  | OpenWindow nat

definition devices_loaded :: "device list answer \<Rightarrow> devices_page \<Rightarrow> devices_page" where
  "devices_loaded r p =
     (case checked r of
        Inl msg \<Rightarrow> p\<lparr>dp_error := Some msg, dp_loading := False\<rparr>
      | Inr ds \<Rightarrow> p\<lparr>dp_devices := ds, dp_loading := False\<rparr>)"

definition handleReinterrogate :: "nat \<Rightarrow> device_request list" where
  "handleReinterrogate nodeId = [Interrogate nodeId]"

definition startEdit :: "device \<Rightarrow> devices_page \<Rightarrow> devices_page" where
  "startEdit d p = p\<lparr>dp_editingNodeId := Some (dv_nodeId d), dp_draftName := default_to [] (dv_name d)\<rparr>"

definition cancelEdit :: "devices_page \<Rightarrow> devices_page" where
  "cancelEdit p = p\<lparr>dp_editingNodeId := None, dp_draftName := []\<rparr>"

definition typeDraft :: "string \<Rightarrow> devices_page \<Rightarrow> devices_page" where
  "typeDraft s p = p\<lparr>dp_draftName := s\<rparr>"

definition handleSaveName :: "nat \<Rightarrow> devices_page \<Rightarrow> device_request list" where
  "handleSaveName nodeId p =
     (let name = trim (dp_draftName p) in if name = [] then [] else [Rename nodeId name])"

text \<open>The keys of the name field.\<close>

definition nameKey :: "string \<Rightarrow> nat \<Rightarrow> devices_page \<Rightarrow> devices_page \<times> device_request list" where
  "nameKey key nodeId p =
     (if key = ''Escape'' then cancelEdit p else p, if key = ''Enter'' then handleSaveName nodeId p else [])"

definition nameSaved :: "nat \<Rightarrow> string \<Rightarrow> unit answer \<Rightarrow> devices_page \<Rightarrow> devices_page" where
  "nameSaved nodeId name r p =
     (case checked r of
        Inl msg \<Rightarrow> p\<lparr>dp_error := Some msg\<rparr>
      | Inr _ \<Rightarrow> cancelEdit (p\<lparr>dp_devices := map (\<lambda>d. if dv_nodeId d = nodeId then d\<lparr>dv_name := Some name\<rparr> else d) (dp_devices p)\<rparr>))"

definition handleDelete :: "bool \<Rightarrow> nat \<Rightarrow> device_request list" where
  "handleDelete confirmed nodeId = (if \<not> confirmed then [] else [RemoveDevice nodeId])"

definition deviceDeleted :: "nat \<Rightarrow> unit answer \<Rightarrow> devices_page \<Rightarrow> devices_page" where
  "deviceDeleted nodeId r p =
     (case checked r of
        Inl msg \<Rightarrow> p\<lparr>dp_error := Some msg\<rparr>
      | Inr _ \<Rightarrow> p\<lparr>dp_devices := filter (\<lambda>d. dv_nodeId d \<noteq> nodeId) (dp_devices p)\<rparr>)"

text \<open>The window's codes as they travel to the next page.\<close>

record window_state =
  ws_manualCode :: string
  ws_qrCode :: string
  ws_timeout :: nat
  ws_openedAt :: nat

definition handleOpenCommissioningWindow :: "nat \<Rightarrow> devices_page \<Rightarrow> devices_page \<times> device_request list" where
  "handleOpenCommissioningWindow nodeId p =
     (p\<lparr>dp_openingWindowFor := Some nodeId, dp_error := None\<rparr>, [OpenWindow nodeId])"

text \<open>
  The answer.  The body is its text and what \<open>json()\<close> gives: the manual code, the QR code and the
  timeout, or \<open>Inl\<close> the exception.  The second component is the page the browser goes to, if any;
  \<open>now\<close> is \<open>Date.now()\<close>.
\<close>

definition windowOpened :: "nat \<Rightarrow> nat \<Rightarrow> (string \<times> (string + string \<times> string \<times> nat)) answer \<Rightarrow> devices_page
    \<Rightarrow> devices_page \<times> (string \<times> window_state) option" where
  "windowOpened now nodeId r p =
     (let p' = p\<lparr>dp_openingWindowFor := None\<rparr>;
          failed = (\<lambda>e. (p'\<lparr>dp_error := Some (''Request failed: '' @ e)\<rparr>, None))
      in case r of
           NoAnswer e \<Rightarrow> failed e
         | Answer st (txt, json) \<Rightarrow>
             if \<not> is_ok r
             then (p'\<lparr>dp_error := Some (or_str txt (''Request failed ('' @ dec st @ '')''))\<rparr>, None)
             else (case json of
                 Inl e \<Rightarrow> failed e
               | Inr (manual, qr, timeout) \<Rightarrow>
                   (p', Some (''/devices/'' @ dec nodeId @ ''/commissioning'',
                     \<lparr>ws_manualCode = manual, ws_qrCode = qr, ws_timeout = timeout, ws_openedAt = now\<rparr>))))"

text \<open>The card of a device.\<close>

record device_card =
  dc_title :: string
  dc_subtitle :: string
  dc_editing :: bool
  dc_placeholder :: string
  dc_saveEnabled :: bool
  dc_subscribed :: bool
  dc_openText :: string
  dc_openEnabled :: bool

definition deviceCard :: "devices_page \<Rightarrow> device \<Rightarrow> device_card" where
  "deviceCard p d =
     (let productName = join '' '' (truthy_strs [dv_vendorName d, dv_productName d]);
          nodeHex = ''Node 0x'' @ hex_upper (dv_nodeId d);
          named = default_to [] (dv_name d) \<noteq> []
      in \<lparr>dc_title = or_opt (dv_name d) (or_str productName nodeHex),
          dc_subtitle = join ('' '' @ middot @ '' '') (truthy_strs [if named then productName else [], nodeHex]),
          dc_editing = (dp_editingNodeId p = Some (dv_nodeId d)),
          dc_placeholder = or_str productName nodeHex,
          dc_saveEnabled = (trim (dp_draftName p) \<noteq> []),
          dc_subscribed = dv_hasSubscription d,
          dc_openText = (if dp_openingWindowFor p = Some (dv_nodeId d) then ''Opening'' @ ellipsis
                         else ''Open commissioning window''),
          dc_openEnabled = (dp_openingWindowFor p = None)\<rparr>)"

text \<open>
  What the page shows: the error, the notice of the empty list, and per device its card and the rows
  of its endpoints (\<open>fuel\<close> bounds their nesting).
\<close>

datatype devices_view =
    DevicesLoading string
  | DevicesShown "string option" "string option" "(device_card \<times> row list option) list"

definition devices_view :: "nat \<Rightarrow> devices_page \<Rightarrow> devices_view" where
  "devices_view fuel p =
     (if dp_loading p then DevicesLoading (''Loading'' @ ellipsis)
      else DevicesShown (shownText (dp_error p))
        (if dp_devices p = [] then Some ''No devices have been paired. Please add a device using the companion app.'' else None)
        (map (\<lambda>d. (deviceCard p d, deviceRows fuel d)) (dp_devices p)))"

section \<open>The commissioning window\<close>

definition formatManualCode :: "string \<Rightarrow> string" where
  "formatManualCode code =
     (if length code = 11
      then take 4 code @ ''-'' @ take 3 (drop 4 code) @ ''-'' @ drop 7 code
      else code)"

definition formatRemaining :: "nat \<Rightarrow> string" where
  "formatRemaining seconds = dec (seconds div 60) @ CHR '':'' # pad_start 2 CHR ''0'' (dec (seconds mod 60))"

definition remainingSeconds :: "window_state \<Rightarrow> nat \<Rightarrow> nat" where
  "remainingSeconds w now =
     nat (max 0 (math_round ((of_nat (ws_openedAt w) + of_nat (ws_timeout w) * 1000 - of_nat now) / 1000)))"

text \<open>What the page shows; \<open>None\<close> is the page without a window.\<close>

record window_view =
  wv_expired :: bool
  wv_remaining :: string
  wv_code :: string
  wv_qr :: string

definition commissioningWindow :: "window_state option \<Rightarrow> nat \<Rightarrow> window_view option" where
  "commissioningWindow st now =
     (case st of
        None \<Rightarrow> None
      | Some w \<Rightarrow>
          if ws_manualCode w = [] then None
          else Some \<lparr>wv_expired = (remainingSeconds w now = 0),
                 wv_remaining = formatRemaining (remainingSeconds w now),
                 wv_code = formatManualCode (ws_manualCode w), wv_qr = ws_qrCode w\<rparr>)"

end
