(* ===== verification/Metering.thy ===== *)
theory Metering
  imports Graph
begin

text \<open>
  Meter readings on the canvas (\<open>Topology.tsx\<close>): which attribute reports carry power, the
  running state derived from a reading and the learned standby, the battery's state of charge, and
  the direction a reading gives to the edge it is drawn on.
\<close>

section \<open>Attribute reports\<close>

definition EPM_CLUSTER :: nat where "EPM_CLUSTER = 144"
definition EPM_VOLTAGE :: nat where "EPM_VOLTAGE = 0x04"
definition EPM_CURRENT :: nat where "EPM_CURRENT = 0x05"
definition EPM_POWER :: nat where "EPM_POWER = 0x08"
definition POWER_SOURCE_CLUSTER :: nat where "POWER_SOURCE_CLUSTER = 0x2f"
definition BAT_PERCENT_REMAINING :: nat where "BAT_PERCENT_REMAINING = 0x0c"

lemmas attribute_consts =
  EPM_CLUSTER_def EPM_VOLTAGE_def EPM_CURRENT_def EPM_POWER_def
  POWER_SOURCE_CLUSTER_def BAT_PERCENT_REMAINING_def

record power_measurement =
  pm_voltage :: "rat option"
  pm_current :: "rat option"
  pm_power :: "rat option"

definition no_power :: power_measurement where
  "no_power = \<lparr>pm_voltage = None, pm_current = None, pm_power = None\<rparr>"

definition powerFromAttribute :: "nat \<Rightarrow> nat \<Rightarrow> rat \<Rightarrow> power_measurement" where
  "powerFromAttribute clusterId attributeId val =
     (if clusterId = EPM_CLUSTER then
        if attributeId = EPM_VOLTAGE then no_power\<lparr>pm_voltage := Some val\<rparr>
        else if attributeId = EPM_CURRENT then no_power\<lparr>pm_current := Some val\<rparr>
        else if attributeId = EPM_POWER then no_power\<lparr>pm_power := Some val\<rparr>
        else no_power
      else no_power)"

text \<open>\<open>{ ...a, ...b }\<close> on measurements: the fields set in \<open>b\<close> win.\<close>

definition or_else :: "'a option \<Rightarrow> 'a option \<Rightarrow> 'a option" where
  "or_else b a = (case b of None \<Rightarrow> a | Some x \<Rightarrow> Some x)"

definition pm_merge :: "power_measurement \<Rightarrow> power_measurement \<Rightarrow> power_measurement" where
  "pm_merge a b = \<lparr>pm_voltage = or_else (pm_voltage b) (pm_voltage a),
                   pm_current = or_else (pm_current b) (pm_current a),
                   pm_power = or_else (pm_power b) (pm_power a)\<rparr>"

text \<open>\<open>Object.keys(pm).length > 0\<close>.\<close>

definition has_keys :: "power_measurement \<Rightarrow> bool" where
  "has_keys pm \<longleftrightarrow> pm_voltage pm \<noteq> None \<or> pm_current pm \<noteq> None \<or> pm_power pm \<noteq> None"

definition batteryPercentFromAttribute :: "nat \<Rightarrow> nat \<Rightarrow> rat \<Rightarrow> rat option" where
  "batteryPercentFromAttribute clusterId attributeId val =
     (if clusterId = POWER_SOURCE_CLUSTER \<and> attributeId = BAT_PERCENT_REMAINING
      then Some (max 0 (min 100 (val / 2))) else None)"

lemma or_else_simps [simp]:
  "or_else None a = a" "or_else (Some x) a = Some x" "or_else b None = b"
  by (simp_all add: or_else_def split: option.split)

lemma or_else_assoc: "or_else c (or_else b a) = or_else (or_else c b) a"
  by (simp add: or_else_def split: option.split)

lemma pm_merge_assoc: "pm_merge (pm_merge a b) c = pm_merge a (pm_merge b c)"
  by (simp add: pm_merge_def or_else_assoc)

lemma pm_merge_no_power [simp]: "pm_merge a no_power = a" "pm_merge no_power a = a"
  by (simp_all add: pm_merge_def no_power_def)

lemma has_keys_iff: "has_keys pm \<longleftrightarrow> pm \<noteq> no_power"
  by (cases pm) (auto simp: has_keys_def no_power_def)

lemma has_keys_merge: "has_keys (pm_merge a b) \<longleftrightarrow> has_keys a \<or> has_keys b"
  by (auto simp: has_keys_def pm_merge_def or_else_def split: option.splits)

lemma batteryPercent_bounds:
  "batteryPercentFromAttribute c a v = Some p \<Longrightarrow> 0 \<le> p \<and> p \<le> 100"
  by (auto simp: batteryPercentFromAttribute_def split: if_splits)

section \<open>Running state\<close>

datatype load_status = Off | Standby | Running

definition STANDBY_BAND_HALF_W :: rat where "STANDBY_BAND_HALF_W = 5 / 2"
definition OFF_FLOOR_W :: rat where "OFF_FLOOR_W = 1"

definition loadStatus :: "rat option \<Rightarrow> rat \<Rightarrow> load_status option" where
  "loadStatus powerMw standbyW =
     (case powerMw of
        None \<Rightarrow> None
      | Some p \<Rightarrow>
          let w = p / 1000 in
          if standbyW \<le> 0 then
            Some (if w \<le> STANDBY_BAND_HALF_W * 2 then Off else Running)
          else if w < OFF_FLOOR_W then Some Off
          else Some (if w \<le> standbyW + STANDBY_BAND_HALF_W then Standby else Running))"

text \<open>The states are ordered by how much the appliance draws.\<close>

instantiation load_status :: linorder
begin

fun status_rank :: "load_status \<Rightarrow> nat" where
  "status_rank Off = 0"
| "status_rank Standby = 1"
| "status_rank Running = 2"

definition less_eq_load_status :: "load_status \<Rightarrow> load_status \<Rightarrow> bool" where
  "less_eq_load_status a b \<longleftrightarrow> status_rank a \<le> status_rank b"

definition less_load_status :: "load_status \<Rightarrow> load_status \<Rightarrow> bool" where
  "less_load_status a b \<longleftrightarrow> status_rank a < status_rank b"

instance
proof
  fix a b :: load_status
  show "a \<le> b \<Longrightarrow> b \<le> a \<Longrightarrow> a = b"
    by (cases a; cases b) (simp_all add: less_eq_load_status_def)
qed (auto simp: less_eq_load_status_def less_load_status_def)

end

lemmas status_order = less_eq_load_status_def less_load_status_def

lemma loadStatus_Some: "loadStatus (Some p) s = Some (the (loadStatus (Some p) s))"
  by (simp add: loadStatus_def Let_def)

lemma loadStatus_mono_aux:
  assumes "p \<le> q"
  shows "the (loadStatus (Some p) s) \<le> the (loadStatus (Some q) s)"
proof -
  have "p / 1000 \<le> q / 1000" using assms by simp
  then show ?thesis
    by (auto simp: loadStatus_def Let_def status_order STANDBY_BAND_HALF_W_def OFF_FLOOR_W_def)
qed

section \<open>Flow along an edge\<close>

text \<open>The wiring of an edge, shared by saved edges and canvas edges.\<close>

record wire =
  w_source :: string
  w_target :: string
  w_sourceHandle :: "string option"
  w_targetHandle :: "string option"

definition edgePowerNodeId :: "wire \<Rightarrow> string" where
  "edgePowerNodeId e = (if w_sourceHandle e = Some ''power-out'' then w_source e else w_target e)"

text \<open>\<open>powerMw\<close> is the reading in milliwatts; the flow is in kilowatts.\<close>

definition edgeKw :: "wire \<Rightarrow> string \<Rightarrow> rat \<Rightarrow> rat" where
  "edgeKw e meteredId powerMw =
     (let kw = powerMw / 1000000;
          atTarget = (if w_targetHandle e = Some ''grid'' then True
                      else if w_sourceHandle e = Some ''grid'' then False
                      else meteredId = w_target e)
      in if atTarget then - kw else kw)"

definition isTariffEdge :: "string option \<Rightarrow> string option \<Rightarrow> bool" where
  "isTariffEdge sourceHandle targetHandle \<longleftrightarrow>
     targetHandle = Some ''tariff'' \<or> sourceHandle = Some ''tariff''"

text \<open>Flow into a node along an edge that carries \<open>kw\<close> (negative from source to target).\<close>

definition inflow :: "string \<Rightarrow> wire \<Rightarrow> rat \<Rightarrow> rat" where
  "inflow n e kw = (if w_target e = n then - kw else if w_source e = n then kw else 0)"

lemma edgeKw_grid_inflow:
  assumes "w_targetHandle e = Some ''grid'' \<and> w_target e = cu
           \<or> w_sourceHandle e = Some ''grid'' \<and> w_source e = cu \<and> w_target e \<noteq> cu
             \<and> w_targetHandle e \<noteq> Some ''grid''"
  shows "inflow cu e (edgeKw e m p) = p / 1000000"
  using assms by (auto simp: inflow_def edgeKw_def Let_def)

lemma edgeKw_metered_inflow:
  assumes "w_targetHandle e \<noteq> Some ''grid''" "w_sourceHandle e \<noteq> Some ''grid''"
    and "w_source e \<noteq> w_target e"
  shows "inflow (edgePowerNodeId e) e (edgeKw e (edgePowerNodeId e) p) = p / 1000000"
  using assms by (auto simp: inflow_def edgeKw_def edgePowerNodeId_def Let_def)

end
