(* ===== verification/Flows.thy ===== *)
theory Flows
  imports Metering
begin

text \<open>
  Derived power flows on the canvas (\<open>withSubCuFeeds\<close>, \<open>withUnallocated\<close> and
  \<open>withDerivedFlows\<close> of \<open>Topology.tsx\<close>): the feed of an unmetered sub consumer unit is the sum of
  its circuits, a sibling on a shared metered handle carries the remainder, and the Unallocated
  edge carries what the main consumer unit takes in and hands to no metered circuit.

  The memo table \<open>totals\<close> and the set \<open>visiting\<close> of the source are threaded explicitly.
\<close>

section \<open>Canvas edges\<close>

record edge_data =
  d_kw :: "rat option"
  d_meteredKw :: "rat option"
  d_idle :: "bool option"
  d_rawKw :: "rat option"

definition no_data :: edge_data where
  "no_data = \<lparr>d_kw = None, d_meteredKw = None, d_idle = None, d_rawKw = None\<rparr>"

text \<open>\<open>type: 'powerFlow'\<close>, or the plain dashed style of tariff edges.\<close>

datatype edge_look = PowerFlow | TariffLine

record edge =
  e_id :: string
  e_wire :: wire
  e_look :: edge_look
  e_deletable :: bool
  e_selectable :: bool
  e_data :: "edge_data option"

abbreviation e_source :: "edge \<Rightarrow> string" where "e_source e \<equiv> w_source (e_wire e)"
abbreviation e_target :: "edge \<Rightarrow> string" where "e_target e \<equiv> w_target (e_wire e)"
abbreviation e_sourceHandle :: "edge \<Rightarrow> string option" where
  "e_sourceHandle e \<equiv> w_sourceHandle (e_wire e)"
abbreviation e_targetHandle :: "edge \<Rightarrow> string option" where
  "e_targetHandle e \<equiv> w_targetHandle (e_wire e)"

text \<open>\<open>e.data?.kw\<close>, \<open>e.data?.idle === true\<close> and the spread update of the data object.\<close>

definition kw_of :: "edge \<Rightarrow> rat option" where
  "kw_of e = (case e_data e of None \<Rightarrow> None | Some d \<Rightarrow> d_kw d)"

definition idle_of :: "edge \<Rightarrow> bool option" where
  "idle_of e = (case e_data e of None \<Rightarrow> None | Some d \<Rightarrow> d_idle d)"

definition metered_of :: "edge \<Rightarrow> rat option" where
  "metered_of e = (case e_data e of None \<Rightarrow> None | Some d \<Rightarrow> d_meteredKw d)"

definition raw_of :: "edge \<Rightarrow> rat option" where
  "raw_of e = (case e_data e of None \<Rightarrow> None | Some d \<Rightarrow> d_rawKw d)"

definition data_of :: "edge \<Rightarrow> edge_data" where
  "data_of e = default_to no_data (e_data e)"

lemmas edge_accessors = kw_of_def idle_of_def metered_of_def raw_of_def data_of_def no_data_def

text \<open>The number drawn on an edge, 0 when it has none.\<close>

abbreviation kw0 :: "edge \<Rightarrow> rat" where "kw0 e \<equiv> default_to 0 (kw_of e)"

section \<open>Sub consumer units\<close>

type_synonym flow = "rat \<times> bool"
type_synonym totals = "string \<Rightarrow> flow option"

definition addFlow :: "flow \<Rightarrow> flow \<Rightarrow> flow" where
  "addFlow acc f = (fst acc + fst f, if \<not> snd f \<and> fst f \<noteq> 0 then False else snd acc)"

definition edgeFlow :: "edge \<Rightarrow> flow" where
  "edgeFlow e = (kw0 e, idle_of e = Some True)"

text \<open>
  \<open>totalFor\<close>, with the loop over the edges as \<open>sumCircuits\<close>.  \<open>E\<close> are the edges, \<open>S\<close> the
  ids of the sub consumer units, \<open>V\<close> the boards being visited, \<open>T\<close> the memo table.
\<close>

function totalFor :: "edge list \<Rightarrow> string list \<Rightarrow> string list \<Rightarrow> totals \<Rightarrow> string \<Rightarrow> flow \<times> totals"
  and sumCircuits :: "edge list \<Rightarrow> string list \<Rightarrow> string list \<Rightarrow> totals \<Rightarrow> string \<Rightarrow> edge list \<Rightarrow> flow
      \<Rightarrow> flow \<times> totals"
where
  "totalFor E S V T c =
     (case T c of
        Some t \<Rightarrow> (t, T)
      | None \<Rightarrow>
          if c \<in> set V then ((0, True), T)
          else (case sumCircuits E S (c # V) T c E (0, True) of (t, T') \<Rightarrow> (t, T'(c \<mapsto> t))))"
| "sumCircuits E S V T c [] acc = (acc, T)"
| "sumCircuits E S V T c (e # es) acc =
     (if e_source e \<noteq> c then sumCircuits E S V T c es acc
      else if e_target e \<in> set S then
        (case totalFor E S V T (e_target e) of (f, T') \<Rightarrow>
           sumCircuits E S V T' c es (addFlow acc f))
      else sumCircuits E S V T c es (addFlow acc (edgeFlow e)))"
  by pat_completeness auto

text \<open>
  Every wiring terminates, loops included: a nested call visits one more board, and \<open>visiting\<close>
  never leaves the boards of the graph.
\<close>

termination
proof (relation "inv_image (less_than <*lex*> less_than <*lex*> less_than)
    (\<lambda>x. case x of
       Inl (E, S, V, T, c) \<Rightarrow> (card (set S - set V), if c \<in> set S then 1 else 3, 0)
     | Inr (E, S, V, T, c, es, acc) \<Rightarrow> (card (set S - set V), 2, length es))", goal_cases)
  case 1
  then show ?case by (intro wf_inv_image wf_lex_prod wf_less_than)
next
  case (2 E S V T c)
  show ?case
  proof (cases "c \<in> set S")
    case True
    with 2 have "set S - insert c (set V) \<subset> set S - set V" by auto
    then have "card (set S - insert c (set V)) < card (set S - set V)"
      by (intro psubset_card_mono) auto
    then show ?thesis by simp
  next
    case False
    then have "set S - insert c (set V) = set S - set V" by auto
    with False show ?thesis by simp
  qed
qed auto

declare totalFor.simps [simp del] sumCircuits.simps [simp del]

definition handleKey :: "string \<Rightarrow> string option \<Rightarrow> string" where
  "handleKey nodeId handle = nodeId @ ''|'' @ default_to [] handle"

definition endKey :: "edge \<Rightarrow> bool \<Rightarrow> string" where
  "endKey e atSource =
     (if atSource then handleKey (e_source e) (e_sourceHandle e)
      else handleKey (e_target e) (e_targetHandle e))"

text \<open>The map \<open>toSubCus\<close>: flow leaving each upstream handle towards sub consumer units.\<close>

fun toSubCus :: "edge list \<Rightarrow> string list \<Rightarrow> totals \<Rightarrow> (string \<Rightarrow> rat option) \<Rightarrow> edge list
    \<Rightarrow> (string \<Rightarrow> rat option) \<times> totals" where
  "toSubCus E S T M [] = (M, T)"
| "toSubCus E S T M (e # es) =
     (if e_target e \<notin> set S then toSubCus E S T M es
      else (case totalFor E S [] T (e_target e) of (t, T') \<Rightarrow>
        toSubCus E S T'
          (M(endKey e True \<mapsto> default_to 0 (M (endKey e True)) - fst t)) es))"

text \<open>The map \<open>siblings\<close>, in insertion order.\<close>

fun push :: "'k \<Rightarrow> 'v \<Rightarrow> ('k \<times> 'v list) list \<Rightarrow> ('k \<times> 'v list) list" where
  "push k v [] = [(k, [v])]"
| "push k v ((k', vs) # m) = (if k' = k then (k, vs @ [v]) # m else (k', vs) # push k v m)"

definition addSibling :: "(string \<Rightarrow> rat option) \<Rightarrow> edge \<Rightarrow> bool
    \<Rightarrow> (string \<times> (edge \<times> bool) list) list \<Rightarrow> (string \<times> (edge \<times> bool) list) list" where
  "addSibling M e atSource m =
     (if M (endKey e atSource) = None then m else push (endKey e atSource) (e, atSource) m)"

definition siblingsOf :: "string list \<Rightarrow> (string \<Rightarrow> rat option) \<Rightarrow> edge list
    \<Rightarrow> (string \<times> (edge \<times> bool) list) list" where
  "siblingsOf S M E =
     foldl (\<lambda>m e. if e_target e \<in> set S then m
                  else addSibling M e False (addSibling M e True m)) [] E"

definition remainderStep :: "(string \<Rightarrow> rat option) \<Rightarrow> (string \<Rightarrow> rat option)
    \<Rightarrow> string \<times> (edge \<times> bool) list \<Rightarrow> (string \<Rightarrow> rat option)" where
  "remainderStep M R entry =
     (case entry of
        (key, [(e, atSource)]) \<Rightarrow>
          (case metered_of e of
             None \<Rightarrow> R
           | Some m \<Rightarrow>
               let away = (if atSource then - m else m) - default_to 0 (M key)
               in R(e_id e \<mapsto> (if atSource then - away else away)))
      | _ \<Rightarrow> R)"

definition remainderKw :: "string list \<Rightarrow> (string \<Rightarrow> rat option) \<Rightarrow> edge list \<Rightarrow> (string \<Rightarrow> rat option)" where
  "remainderKw S M E = foldl (remainderStep M) Map.empty (siblingsOf S M E)"

text \<open>The final pass over the edges.\<close>

definition setFeed :: "edge \<Rightarrow> flow \<Rightarrow> edge" where
  "setFeed e t =
     (if kw_of e = Some (fst t) \<and> idle_of e = Some (snd t) then e
      else e\<lparr>e_data := Some ((data_of e)\<lparr>d_kw := Some (fst t), d_idle := Some (snd t)\<rparr>)\<rparr>)"

definition setRemainder :: "edge \<Rightarrow> rat option \<Rightarrow> edge" where
  "setRemainder e r =
     (case r of
        None \<Rightarrow> e
      | Some kw \<Rightarrow> if kw_of e = Some kw then e
                  else e\<lparr>e_data := Some ((data_of e)\<lparr>d_kw := Some kw\<rparr>)\<rparr>)"

fun applyFeeds :: "edge list \<Rightarrow> string list \<Rightarrow> (string \<Rightarrow> rat option) \<Rightarrow> totals \<Rightarrow> edge list
    \<Rightarrow> edge list" where
  "applyFeeds E S R T [] = []"
| "applyFeeds E S R T (e # es) =
     (if e_target e \<in> set S then
        (case totalFor E S [] T (e_target e) of (t, T') \<Rightarrow> setFeed e t # applyFeeds E S R T' es)
      else setRemainder e (R (e_id e)) # applyFeeds E S R T es)"

definition withSubCuFeeds :: "edge list \<Rightarrow> string list \<Rightarrow> edge list" where
  "withSubCuFeeds E S =
     (if S = [] then E
      else (case toSubCus E S Map.empty Map.empty E of (M, T) \<Rightarrow>
              applyFeeds E S (remainderKw S M E) T E))"

section \<open>The unallocated remainder\<close>

definition UNALLOCATED_ID :: string where "UNALLOCATED_ID = ''unallocated''"
definition UNALLOCATED_EDGE_ID :: string where
  "UNALLOCATED_EDGE_ID = ''consumer_unit-unallocated-unallocated-power-in''"
definition CU_ID :: string where "CU_ID = ''consumer_unit''"

definition countsForCu :: "edge \<Rightarrow> bool" where
  "countsForCu e \<longleftrightarrow>
     \<not> (e_id e = UNALLOCATED_EDGE_ID \<or> isTariffEdge (e_sourceHandle e) (e_targetHandle e))"

definition rawStep :: "rat \<Rightarrow> edge \<Rightarrow> rat" where
  "rawStep rawKw e =
     (if \<not> countsForCu e then rawKw
      else if e_target e = CU_ID then rawKw - kw0 e
      else if e_source e = CU_ID then rawKw + kw0 e
      else rawKw)"

definition unallocatedRaw :: "edge list \<Rightarrow> rat" where
  "unallocatedRaw E = foldl rawStep 0 E"

definition setUnallocated :: "rat \<Rightarrow> rat \<Rightarrow> edge \<Rightarrow> edge" where
  "setUnallocated kw rawKw e =
     (if e_id e \<noteq> UNALLOCATED_EDGE_ID then e
      else if kw_of e = Some kw \<and> raw_of e = Some rawKw then e
      else e\<lparr>e_data := Some ((data_of e)\<lparr>d_kw := Some kw, d_rawKw := Some rawKw\<rparr>)\<rparr>)"

definition withUnallocated :: "edge list \<Rightarrow> edge list" where
  "withUnallocated E =
     (let rawKw = unallocatedRaw E; kw = - max 0 rawKw
      in map (setUnallocated kw rawKw) E)"

definition withDerivedFlows :: "edge list \<Rightarrow> string list \<Rightarrow> edge list" where
  "withDerivedFlows E S = withUnallocated (withSubCuFeeds E S)"

end
