(* ===== verification/Canvas.thy ===== *)
theory Canvas
  imports Flows "HOL-Library.AList"
begin

text \<open>
  The topology canvas (the \<open>Topology\<close> component of \<open>Topology.tsx\<close>): its state and one
  definition per handler.  A handler returns the new state and the effects it starts, in the order
  of the source: requests to the firmware and the timer that dismisses a toast.

  React's functional updates are applied at once.  \<open>screenToFlowPosition\<close>, \<open>addEdge\<close> and the base
  edge-change handler belong to the React Flow library: positions arrive already converted, the
  other two are arguments.
\<close>

section \<open>State\<close>

record node_data =
  nd_label :: string
  nd_nodeId :: "nat option"
  nd_endpointId :: "nat option"
  nd_power :: "power_measurement option"
  nd_battery :: "rat option"
  nd_standbyW :: "rat option"
  nd_status :: "load_status option"
  nd_outputs :: "nat option"
  nd_circuits :: "nat option"
  nd_settings :: "settings option"

record node =
  c_id :: string
  c_type :: "string option"
  c_x :: rat
  c_y :: rat
  c_draggable :: bool
  c_deletable :: "bool option"
  c_selected :: bool
  c_data :: node_data

definition plain_data :: "string \<Rightarrow> settings \<Rightarrow> node_data" where
  "plain_data label s =
     \<lparr>nd_label = label, nd_nodeId = s_nodeId s, nd_endpointId = s_endpointId s, nd_power = None,
      nd_battery = None, nd_standbyW = None, nd_status = None, nd_outputs = None,
      nd_circuits = s_circuits s, nd_settings = Some s\<rparr>"

definition new_node :: "string \<Rightarrow> string \<Rightarrow> rat \<times> rat \<Rightarrow> node_data \<Rightarrow> node" where
  "new_node i ty pos d =
     \<lparr>c_id = i, c_type = Some ty, c_x = fst pos, c_y = snd pos, c_draggable = True,
      c_deletable = None, c_selected = False, c_data = d\<rparr>"

record canvas =
  cv_nodes :: "node list"
  cv_edges :: "edge list"
  cv_gridModalOpen :: bool
  cv_editNode :: "node option"
  cv_nodeMenu :: "(node \<times> rat \<times> rat) option"
  cv_paneMenu :: "(rat \<times> rat) option"
  cv_pendingLoadPos :: "(rat \<times> rat) option"
  cv_toasts :: "(nat \<times> string) list"
  cv_nodeIdCounter :: nat
  cv_toastIdCounter :: nat
  cv_standby :: "string \<Rightarrow> rat option"

definition initial_canvas :: canvas where
  "initial_canvas =
     \<lparr>cv_nodes = [], cv_edges = [], cv_gridModalOpen = False, cv_editNode = None,
      cv_nodeMenu = None, cv_paneMenu = None, cv_pendingLoadPos = None, cv_toasts = [],
      cv_nodeIdCounter = 10, cv_toastIdCounter = 0, cv_standby = Map.empty\<rparr>"

datatype effect = Fetch request | DismissAfter nat nat

section \<open>Toasts\<close>

definition dismissToast :: "nat \<Rightarrow> canvas \<Rightarrow> canvas" where
  "dismissToast i cv = cv\<lparr>cv_toasts := filter (\<lambda>t. fst t \<noteq> i) (cv_toasts cv)\<rparr>"

definition addToast :: "string \<Rightarrow> canvas \<Rightarrow> canvas \<times> effect list" where
  "addToast message cv =
     (let i = Suc (cv_toastIdCounter cv) in
      (cv\<lparr>cv_toastIdCounter := i, cv_toasts := cv_toasts cv @ [(i, message)]\<rparr>, [DismissAfter 5000 i]))"

section \<open>Websocket messages\<close>

record attr_entry =
  a_nodeId :: nat
  a_endpointId :: nat
  a_cluster :: nat
  a_attribute :: nat
  a_value :: rat

text \<open>
  The payloads the handler distinguishes.  \<open>NoPayload\<close> stands for data the handler cannot read
  (\<open>null\<close>, or not a list where a batch is expected): the property access throws, and the hook
  that delivers the message catches it.
\<close>

datatype ws_data =
    Commissioned "string option" "string option"
  | Batch "attr_entry list"
  | Single attr_entry
  | NoPayload

record ws_message =
  ws_type :: string
  ws_payload :: ws_data

text \<open>Accumulating a batch per measured endpoint: \<open>powerByKey\<close> and \<open>batteryByKey\<close>.\<close>

definition entry_key :: "attr_entry \<Rightarrow> string" where
  "entry_key d = measure_key (Some (a_nodeId d)) (Some (a_endpointId d))"

definition accPower :: "(string \<times> power_measurement) list \<Rightarrow> attr_entry \<Rightarrow> (string \<times> power_measurement) list" where
  "accPower P d =
     (let pm = powerFromAttribute (a_cluster d) (a_attribute d) (a_value d) in
      if has_keys pm
      then AList.update (entry_key d) (pm_merge (default_to no_power (map_of P (entry_key d))) pm) P
      else P)"

definition accBattery :: "(string \<times> rat) list \<Rightarrow> attr_entry \<Rightarrow> (string \<times> rat) list" where
  "accBattery B d =
     (case batteryPercentFromAttribute (a_cluster d) (a_attribute d) (a_value d) of
        None \<Rightarrow> B
      | Some bp \<Rightarrow> AList.update (entry_key d) bp B)"

definition powerByKey :: "attr_entry list \<Rightarrow> (string \<times> power_measurement) list" where
  "powerByKey entries = foldl accPower [] entries"

definition batteryByKey :: "attr_entry list \<Rightarrow> (string \<times> rat) list" where
  "batteryByKey entries = foldl accBattery [] entries"

definition node_key :: "node \<Rightarrow> string" where
  "node_key n = measure_key (nd_nodeId (c_data n)) (nd_endpointId (c_data n))"

text \<open>The update of one node by a batch.\<close>

definition updateNode :: "(string \<Rightarrow> power_measurement option) \<Rightarrow> (string \<Rightarrow> rat option)
    \<Rightarrow> (string \<Rightarrow> rat option) \<Rightarrow> node \<Rightarrow> node" where
  "updateNode P B SB n =
     (let pw = P (node_key n);
          battery = B (node_key n)
      in if pw = None \<and> battery = None then n
         else
           let standbyW = SB (c_id n);
               status = (case pw of
                   None \<Rightarrow> None
                 | Some pm \<Rightarrow>
                     (case pm_power pm of
                        None \<Rightarrow> None
                      | Some p \<Rightarrow> (case standbyW of None \<Rightarrow> None | Some s \<Rightarrow> loadStatus (Some p) s)));
               d = c_data n
           in n\<lparr>c_data := d\<lparr>
                nd_power := (case pw of None \<Rightarrow> nd_power d
                             | Some pm \<Rightarrow> Some (pm_merge (default_to no_power (nd_power d)) pm)),
                nd_battery := or_else battery (nd_battery d),
                nd_status := or_else status (nd_status d)\<rparr>\<rparr>)"

definition SUB_CU_TYPES :: "string list" where
  "SUB_CU_TYPES = [''subConsumerUnit'', ''henley'']"

definition subCuIdsOf :: "node list \<Rightarrow> string list" where
  "subCuIdsOf ns = map c_id (filter (\<lambda>n. default_to [] (c_type n) \<in> set SUB_CU_TYPES) ns)"

text \<open>\<open>powerByRfId\<close>: the nodes whose power the batch carried.\<close>

definition powerByRfId :: "(string \<Rightarrow> power_measurement option) \<Rightarrow> node list \<Rightarrow> (string \<times> rat) list" where
  "powerByRfId P ns =
     foldl (\<lambda>R n. case P (node_key n) of
                    None \<Rightarrow> R
                  | Some pm \<Rightarrow> (case pm_power pm of None \<Rightarrow> R | Some p \<Rightarrow> AList.update (c_id n) p R))
       [] ns"

definition stampEdge :: "string list \<Rightarrow> (string \<Rightarrow> rat option) \<Rightarrow> (string \<Rightarrow> rat option) \<Rightarrow> edge \<Rightarrow> edge" where
  "stampEdge S R SB e =
     (if e_target e \<in> set S then e
      else
        let meteredId = edgePowerNodeId (e_wire e) in
        (case R meteredId of
           None \<Rightarrow> e
         | Some p \<Rightarrow>
             let idle = (case SB meteredId of
                     None \<Rightarrow> False
                   | Some s \<Rightarrow> loadStatus (Some p) s \<noteq> Some Running);
                 kw = edgeKw (e_wire e) meteredId p
             in e\<lparr>e_data := Some ((data_of e)\<lparr>d_kw := Some kw, d_meteredKw := Some kw, d_idle := Some idle\<rparr>)\<rparr>))"

definition applyEntries :: "attr_entry list \<Rightarrow> canvas \<Rightarrow> canvas" where
  "applyEntries entries cv =
     (let P = powerByKey entries; B = batteryByKey entries in
      if P = [] \<and> B = [] then cv
      else
        let cv' = cv\<lparr>cv_nodes := map (updateNode (map_of P) (map_of B) (cv_standby cv)) (cv_nodes cv)\<rparr>;
            R = powerByRfId (map_of P) (cv_nodes cv)
        in if P = [] \<or> R = [] then cv'
           else
             let S = subCuIdsOf (cv_nodes cv) in
             cv'\<lparr>cv_edges := withDerivedFlows (map (stampEdge S (map_of R) (cv_standby cv)) (cv_edges cv)) S\<rparr>)"

definition commissioned_name :: "ws_data \<Rightarrow> string" where
  "commissioned_name d =
     (case d of
        Commissioned vendor product \<Rightarrow>
          join '' '' (truthy_strs [default_to [] vendor, default_to [] product])
      | _ \<Rightarrow> [])"

definition handleWsMessage :: "ws_message \<Rightarrow> canvas \<Rightarrow> canvas \<times> effect list" where
  "handleWsMessage msg cv =
     (if ws_type msg = ''device_commissioned'' then
        (if ws_payload msg = NoPayload then (cv, [])
         else addToast (''New device commissioned: '' @ or_str (commissioned_name (ws_payload msg)) ''Unknown device'') cv)
      else if ws_type msg = ''attribute_batch'' then
        (case ws_payload msg of Batch es \<Rightarrow> (applyEntries es cv, []) | _ \<Rightarrow> (cv, []))
      else
        (case ws_payload msg of Single e \<Rightarrow> (applyEntries [e] cv, []) | _ \<Rightarrow> (cv, [])))"

section \<open>Deleting\<close>

text \<open>\<open>Set\<close> insertion of a list of ids, keeping the order of first insertion.\<close>

definition add_ids :: "string list \<Rightarrow> string list \<Rightarrow> string list" where
  "add_ids xs ys = foldl (\<lambda>acc y. if y \<in> set acc then acc else acc @ [y]) xs ys"

definition touches :: "string list \<Rightarrow> edge \<Rightarrow> bool" where
  "touches ids e \<longleftrightarrow> e_source e \<in> set ids \<or> e_target e \<in> set ids"

definition removeAll_ids :: "string list \<Rightarrow> canvas \<Rightarrow> canvas \<times> effect list" where
  "removeAll_ids ids cv =
     (cv\<lparr>cv_edges := filter (\<lambda>e. \<not> touches ids e) (cv_edges cv),
         cv_nodes := filter (\<lambda>n. c_id n \<notin> set ids) (cv_nodes cv)\<rparr>,
      map (\<lambda>e. Fetch (DeleteEdge (e_id e))) (filter (touches ids) (cv_edges cv))
      @ map (\<lambda>i. Fetch (DeleteNode i)) ids)"

definition cascade_children :: "string list \<Rightarrow> edge list \<Rightarrow> string list" where
  "cascade_children ids E =
     map (\<lambda>e. if e_target e \<in> set ids then e_source e else e_target e)
       (filter (\<lambda>e. e_target e \<in> set ids \<and> e_targetHandle e = Some ''dc_in''
                  \<or> e_source e \<in> set ids \<and> e_sourceHandle e = Some ''battery'') E)"

definition handleKeyDown :: "string \<Rightarrow> canvas \<Rightarrow> canvas \<times> effect list" where
  "handleKeyDown key cv =
     (if key \<noteq> ''Delete'' \<and> key \<noteq> ''Backspace'' then (cv, [])
      else
        let deletedIds = add_ids [] (map c_id (filter (\<lambda>n. c_selected n \<and> c_deletable n \<noteq> Some False) (cv_nodes cv)))
        in if deletedIds = [] then (cv, [])
           else removeAll_ids (add_ids deletedIds (cascade_children deletedIds (cv_edges cv))) cv)"

definition deleteSubConsumerUnit :: "string \<Rightarrow> canvas \<Rightarrow> canvas \<times> effect list" where
  "deleteSubConsumerUnit subCuId cv =
     (let ids = add_ids [subCuId]
            (map e_target (filter (\<lambda>e. e_source e = subCuId \<and> e_target e \<noteq> CU_ID) (cv_edges cv)));
          (cv', effs) = removeAll_ids ids cv
      in (cv'\<lparr>cv_nodeMenu := None\<rparr>, effs))"

definition deleteLoad :: "string \<Rightarrow> canvas \<Rightarrow> canvas \<times> effect list" where
  "deleteLoad loadId cv =
     (let (cv', effs) = removeAll_ids [loadId] cv in (cv'\<lparr>cv_nodeMenu := None\<rparr>, effs))"

section \<open>Adding\<close>

definition node_name :: "nat \<Rightarrow> string" where
  "node_name k = ''node_'' @ dec k"

text \<open>\<open>DeviceSpec\<close> of a drag, and the load picked in the add-load modal.\<close>

record device_spec =
  ds_nodeId :: nat
  ds_endpointId :: nat
  ds_label :: string

record added_load =
  al_nodeId :: nat
  al_endpointId :: nat
  al_label :: string
  al_name :: string

definition insertNode :: "string \<Rightarrow> rat \<times> rat \<Rightarrow> string \<Rightarrow> settings \<Rightarrow> canvas \<Rightarrow> canvas \<times> effect list" where
  "insertNode ty pos label s cv =
     (let k = Suc (cv_nodeIdCounter cv) in
      (cv\<lparr>cv_nodeIdCounter := k,
          cv_nodes := cv_nodes cv @ [new_node (node_name k) ty pos (plain_data label s)]\<rparr>,
       [Fetch (PutNode (node_name k) (fst pos) (snd pos) (Some s))]))"

text \<open>\<open>raw\<close> is the parsed drag payload; nothing happens before the flow instance exists.\<close>

definition onDrop :: "bool \<Rightarrow> device_spec option \<Rightarrow> rat \<times> rat \<Rightarrow> canvas \<Rightarrow> canvas \<times> effect list" where
  "onDrop instance_ready raw pos cv =
     (case raw of
        None \<Rightarrow> (cv, [])
      | Some dev \<Rightarrow>
          if \<not> instance_ready then (cv, [])
          else insertNode ''device'' pos (ds_label dev)
                 (no_settings\<lparr>s_label := Some (ds_label dev), s_type := Some ''device'',
                    s_nodeId := Some (ds_nodeId dev), s_endpointId := Some (ds_endpointId dev)\<rparr>) cv)"

definition addSubConsumerUnit :: "rat \<times> rat \<Rightarrow> canvas \<Rightarrow> canvas \<times> effect list" where
  "addSubConsumerUnit pos cv =
     (let label = ''Sub Consumer Unit'';
          s = no_settings\<lparr>s_label := Some label, s_type := Some ''subConsumerUnit'', s_circuits := Some 4\<rparr>;
          (cv', effs) = insertNode ''subConsumerUnit'' pos label s cv
      in (cv'\<lparr>cv_paneMenu := None\<rparr>, effs))"

text \<open>\<open>toFlow\<close> is the library's \<open>screenToFlowPosition\<close>, applied to the remembered click.\<close>

definition handleAddLoad :: "(rat \<times> rat \<Rightarrow> rat \<times> rat) \<Rightarrow> added_load \<Rightarrow> canvas \<Rightarrow> canvas \<times> effect list" where
  "handleAddLoad toFlow dev cv =
     (let cv0 = cv\<lparr>cv_pendingLoadPos := None\<rparr> in
      (case cv_pendingLoadPos cv of
         None \<Rightarrow> (cv0, [])
       | Some pos \<Rightarrow>
           insertNode ''device'' (toFlow pos) (or_str (al_name dev) (al_label dev))
             (no_settings\<lparr>s_label := Some (al_label dev), s_name := Some (al_name dev),
                s_type := Some ''device'', s_nodeId := Some (al_nodeId dev),
                s_endpointId := Some (al_endpointId dev)\<rparr>) cv0))"

section \<open>Editing\<close>

definition EDITABLE_TYPES :: "string list" where
  "EDITABLE_TYPES = [''subConsumerUnit'', ''henley'', ''device'', ''appliance'']"

definition editable :: "node \<Rightarrow> bool" where
  "editable n \<longleftrightarrow> default_to [] (c_type n) \<in> set EDITABLE_TYPES"

definition editSettings :: "node \<Rightarrow> settings" where
  "editSettings n =
     (let s = (case nd_settings (c_data n) of
           None \<Rightarrow> no_settings\<lparr>s_type := c_type n\<rparr>
         | Some st \<Rightarrow> st\<lparr>s_type := or_else (s_type st) (c_type n)\<rparr>)
      in (case nd_circuits (c_data n) of None \<Rightarrow> s | Some k \<Rightarrow> s\<lparr>s_circuits := Some k\<rparr>))"

definition onNodeDoubleClick :: "node \<Rightarrow> canvas \<Rightarrow> canvas" where
  "onNodeDoubleClick n cv =
     (if c_id n = ''meter'' then cv\<lparr>cv_gridModalOpen := True\<rparr>
      else if editable n then cv\<lparr>cv_editNode := Some n\<rparr>
      else cv)"

definition editedNode :: "settings \<Rightarrow> node \<Rightarrow> node" where
  "editedNode s n =
     (let d = c_data n;
          deviceChanged = (nd_nodeId d \<noteq> s_nodeId s \<or> nd_endpointId d \<noteq> s_endpointId s);
          d' = (if deviceChanged then d\<lparr>nd_power := None, nd_battery := None, nd_status := None\<rparr> else d)
      in n\<lparr>c_data := d'\<lparr>nd_label := shown_label (c_id n) (Some s), nd_nodeId := s_nodeId s,
             nd_endpointId := s_endpointId s, nd_settings := Some s\<rparr>\<rparr>)"

definition handleNodeEdited :: "string \<Rightarrow> settings \<Rightarrow> canvas \<Rightarrow> canvas" where
  "handleNodeEdited i s cv =
     cv\<lparr>cv_editNode := None,
        cv_nodes := map (\<lambda>n. if c_id n \<noteq> i then n else editedNode s n) (cv_nodes cv)\<rparr>"

text \<open>The \<open>+\<close> and \<open>-\<close> buttons of a sub consumer unit (\<open>setCircuits\<close> of its node view).\<close>

definition setCircuits :: "node \<Rightarrow> int \<Rightarrow> canvas \<Rightarrow> canvas \<times> effect list" where
  "setCircuits n k cv =
     (let circuits = int (default_to 2 (nd_circuits (c_data n)));
          next = max 1 (min 8 k)
      in if next = circuits then (cv, [])
         else (cv\<lparr>cv_nodes := map (\<lambda>m. if c_id m \<noteq> c_id n then m
                     else m\<lparr>c_data := (c_data m)\<lparr>nd_circuits := Some (nat next)\<rparr>\<rparr>) (cv_nodes cv)\<rparr>,
               [Fetch (PutSettings (c_id n) (no_settings\<lparr>s_label := Some (nd_label (c_data n)),
                   s_type := Some ''subConsumerUnit'', s_circuits := Some (nat next)\<rparr>))]))"

section \<open>Moving, wiring, menus\<close>

definition onNodeDragStop :: "node \<Rightarrow> effect list" where
  "onNodeDragStop n = [Fetch (PutNode (c_id n) (c_x n) (c_y n) None)]"

datatype edge_change = RemoveEdge string | OtherEdgeChange string

definition onEdgesChange :: "(edge_change list \<Rightarrow> edge list \<Rightarrow> edge list) \<Rightarrow> edge_change list
    \<Rightarrow> canvas \<Rightarrow> canvas \<times> effect list" where
  "onEdgesChange base changes cv =
     (cv\<lparr>cv_edges := base changes (cv_edges cv)\<rparr>,
      List.map_filter (\<lambda>c. case c of RemoveEdge i \<Rightarrow> Some (Fetch (DeleteEdge i)) | _ \<Rightarrow> None) changes)"

definition connect_id :: "wire \<Rightarrow> string" where
  "connect_id w =
     join ''-'' (truthy_strs [w_source w, default_to [] (w_sourceHandle w),
                              w_target w, default_to [] (w_targetHandle w)])"

definition connect_edge :: "wire \<Rightarrow> edge" where
  "connect_edge w =
     (if isTariffEdge (w_sourceHandle w) (w_targetHandle w)
      then \<lparr>e_id = connect_id w, e_wire = w, e_look = TariffLine, e_deletable = True,
            e_selectable = True, e_data = None\<rparr>
      else \<lparr>e_id = connect_id w, e_wire = w, e_look = PowerFlow, e_deletable = True,
            e_selectable = True, e_data = Some (no_data\<lparr>d_kw := Some 0\<rparr>)\<rparr>)"

definition onConnect :: "(edge \<Rightarrow> edge list \<Rightarrow> edge list) \<Rightarrow> wire \<Rightarrow> canvas \<Rightarrow> canvas \<times> effect list" where
  "onConnect addEdge w cv =
     (cv\<lparr>cv_edges := addEdge (connect_edge w) (cv_edges cv)\<rparr>,
      [Fetch (PostEdge \<lparr>se_id = connect_id w, se_source = w_source w, se_target = w_target w,
          se_sourceHandle = w_sourceHandle w, se_targetHandle = w_targetHandle w\<rparr>)])"

definition onPaneContextMenu :: "rat \<times> rat \<Rightarrow> canvas \<Rightarrow> canvas" where
  "onPaneContextMenu pos cv = cv\<lparr>cv_paneMenu := Some pos\<rparr>"

definition onNodeContextMenu :: "node \<Rightarrow> rat \<Rightarrow> rat \<Rightarrow> canvas \<Rightarrow> canvas" where
  "onNodeContextMenu n x y cv =
     (if \<not> editable n then cv
      else if c_deletable n = Some False then cv
      else cv\<lparr>cv_nodeMenu := Some (n, x, y)\<rparr>)"

section \<open>The menus of the canvas\<close>

datatype menu_item = EditItem | DeleteBoardItem | DeleteLoadItem

definition nodeMenuItems :: "node \<Rightarrow> menu_item list" where
  "nodeMenuItems n =
     [EditItem, if c_type n = Some ''subConsumerUnit'' \<or> c_type n = Some ''henley'' then DeleteBoardItem else DeleteLoadItem]"

definition editMenuItem :: "canvas \<Rightarrow> canvas" where
  "editMenuItem cv = (case cv_nodeMenu cv of None \<Rightarrow> cv | Some (n, _, _) \<Rightarrow> cv\<lparr>cv_editNode := Some n, cv_nodeMenu := None\<rparr>)"

definition nodeMenuClick :: "menu_item \<Rightarrow> canvas \<Rightarrow> canvas \<times> effect list" where
  "nodeMenuClick item cv =
     (case cv_nodeMenu cv of
        None \<Rightarrow> (cv, [])
      | Some (n, _, _) \<Rightarrow>
          (case item of
             EditItem \<Rightarrow> (editMenuItem cv, [])
           | DeleteBoardItem \<Rightarrow> deleteSubConsumerUnit (c_id n) cv
           | DeleteLoadItem \<Rightarrow> deleteLoad (c_id n) cv))"

definition closeNodeMenu :: "canvas \<Rightarrow> canvas" where
  "closeNodeMenu cv = cv\<lparr>cv_nodeMenu := None\<rparr>"

definition paneMenuAddLoad :: "canvas \<Rightarrow> canvas" where
  "paneMenuAddLoad cv = (case cv_paneMenu cv of None \<Rightarrow> cv | Some p \<Rightarrow> cv\<lparr>cv_pendingLoadPos := Some p, cv_paneMenu := None\<rparr>)"

definition paneMenuAddBoard :: "canvas \<Rightarrow> canvas \<times> effect list" where
  "paneMenuAddBoard cv = (case cv_paneMenu cv of None \<Rightarrow> (cv, []) | Some p \<Rightarrow> addSubConsumerUnit p cv)"

definition hasDevice_of :: "node \<Rightarrow> bool" where
  "hasDevice_of n \<longleftrightarrow> c_type n = Some ''device'' \<or> c_type n = Some ''appliance''"

section \<open>Closing dialogs and menus\<close>

definition closeGridModal :: "canvas \<Rightarrow> canvas" where
  "closeGridModal cv = cv\<lparr>cv_gridModalOpen := False\<rparr>"

definition cancelEditNode :: "canvas \<Rightarrow> canvas" where
  "cancelEditNode cv = cv\<lparr>cv_editNode := None\<rparr>"

definition closePaneMenu :: "canvas \<Rightarrow> canvas" where
  "closePaneMenu cv = cv\<lparr>cv_paneMenu := None\<rparr>"

definition cancelAddLoad :: "canvas \<Rightarrow> canvas" where
  "cancelAddLoad cv = cv\<lparr>cv_pendingLoadPos := None\<rparr>"

text \<open>The clicks that only open or close something.\<close>

definition overlay_updates :: "(canvas \<Rightarrow> canvas) list" where
  "overlay_updates = [closeNodeMenu, editMenuItem, paneMenuAddLoad, closePaneMenu, closeGridModal, cancelEditNode, cancelAddLoad]"

lemma overlay_frame:
  "f \<in> set overlay_updates \<Longrightarrow> cv_nodes (f cv) = cv_nodes cv \<and> cv_edges (f cv) = cv_edges cv
     \<and> cv_nodeIdCounter (f cv) = cv_nodeIdCounter cv \<and> cv_standby (f cv) = cv_standby cv"
  by (auto simp: overlay_updates_def closeNodeMenu_def editMenuItem_def paneMenuAddLoad_def closePaneMenu_def
      closeGridModal_def cancelEditNode_def cancelAddLoad_def split: option.split)

end
