(* ===== verification/Home.thy ===== *)
theory Home
  imports Graph
begin

text \<open>
  The Home page (\<open>Home.tsx\<close>): the layout of the graph's loads over the appliance slots, the roles
  shown under Inputs, the circuit a new appliance is wired to, and the requests of the handlers.
\<close>

section \<open>Data\<close>

record simple_device =
  sd_nodeId :: nat
  sd_endpointId :: nat
  sd_label :: string
  sd_name :: "string option"
  sd_hasElectricalSensor :: bool
  sd_hasSolarPower :: bool
  sd_excludeFromScheduling :: "bool option"

text \<open>The page's \<open>SavedNode\<close>: a node whose position may be missing.\<close>

record home_node =
  hn_id :: string
  hn_x :: "rat option"
  hn_y :: "rat option"
  hn_settings :: "settings option"

record appliance_slot =
  as_graphId :: string
  as_type :: string
  as_x :: "rat option"
  as_y :: "rat option"
  as_device :: simple_device

definition APPLIANCE_SLOTS :: nat where "APPLIANCE_SLOTS = 10"
definition SLOTS_PER_ROW :: nat where "SLOTS_PER_ROW = 5"

definition slotLabel :: "nat \<Rightarrow> string" where "slotLabel slot = ''Appliance '' @ dec (slot + 1)"
definition applianceNodeId :: "nat \<Rightarrow> string" where "applianceNodeId slot = ''appliance_'' @ dec (slot + 1)"
definition applianceCircuitHandle :: "nat \<Rightarrow> string" where
  "applianceCircuitHandle slot = ''circuit_'' @ dec (slot + 1)"

definition HOME_CU :: string where "HOME_CU = ''consumer_unit''"
definition LOAD_TYPES :: "string list" where "LOAD_TYPES = [''device'', ''appliance'']"

definition isSupplyHandle :: "string option \<Rightarrow> bool" where
  "isSupplyHandle handle =
     (case handle of None \<Rightarrow> False
      | Some h \<Rightarrow> starts_with ''grid'' h \<or> starts_with ''solar'' h \<or> starts_with ''battery'' h)"

section \<open>The slots\<close>

definition supplyIds :: "saved_edge list \<Rightarrow> string list" where
  "supplyIds E =
     foldl (\<lambda>ids e.
         (let ids' = (if se_target e = HOME_CU \<and> isSupplyHandle (se_targetHandle e) then se_source e # ids else ids)
          in if se_source e = HOME_CU \<and> isSupplyHandle (se_sourceHandle e) then se_target e # ids' else ids'))
       [''grid_meter''] E"

text \<open>The slot of a node, \<open>None\<close> where the loop continues with the next node.\<close>

definition slotOf :: "string list \<Rightarrow> home_node \<Rightarrow> appliance_slot option" where
  "slotOf supply n =
     (case hn_settings n of
        None \<Rightarrow> None
      | Some s \<Rightarrow>
          if default_to [] (s_type s) \<notin> set LOAD_TYPES \<or> hn_id n \<in> set supply then None
          else (case (s_nodeId s, s_endpointId s, s_label s) of
              (Some nid, Some eid, Some label) \<Rightarrow>
                if label = [] then None
                else Some \<lparr>as_graphId = hn_id n, as_type = default_to [] (s_type s),
                       as_x = hn_x n, as_y = hn_y n,
                       as_device = \<lparr>sd_nodeId = nid, sd_endpointId = eid, sd_label = label, sd_name = s_name s,
                         sd_hasElectricalSensor = True, sd_hasSolarPower = False,
                         sd_excludeFromScheduling = Some (s_excludeFromScheduling s = Some True)\<rparr>\<rparr>
            | _ \<Rightarrow> None))"

text \<open>The slot an id \<open>appliance_N\<close> keeps.\<close>

definition ownIndex :: "string \<Rightarrow> nat \<Rightarrow> nat option" where
  "ownIndex i len =
     (case id_number ''appliance_'' i of
        None \<Rightarrow> None
      | Some k \<Rightarrow> if 1 \<le> k \<and> k - 1 < len then Some (k - 1) else None)"

definition placeStep :: "string list \<Rightarrow> appliance_slot option list \<times> appliance_slot list \<Rightarrow> home_node
    \<Rightarrow> appliance_slot option list \<times> appliance_slot list" where
  "placeStep supply st n =
     (case slotOf supply n of
        None \<Rightarrow> st
      | Some slot \<Rightarrow>
          (case ownIndex (hn_id n) (length (fst st)) of
             Some i \<Rightarrow> ((fst st)[i := Some slot], snd st)
           | None \<Rightarrow> (fst st, snd st @ [slot])))"

definition order :: "string \<Rightarrow> nat" where
  "order i = digits_val (trailing_digits i)"

text \<open>\<open>slots.indexOf(null)\<close>.\<close>

fun indexOfNull :: "'a option list \<Rightarrow> nat option" where
  "indexOfNull [] = None"
| "indexOfNull (None # xs) = Some 0"
| "indexOfNull (Some x # xs) = (case indexOfNull xs of None \<Rightarrow> None | Some k \<Rightarrow> Some (Suc k))"

definition fillStep :: "'a option list \<Rightarrow> 'a \<Rightarrow> 'a option list" where
  "fillStep slots x =
     (case indexOfNull slots of
        None \<Rightarrow> slots @ [Some x]
      | Some free \<Rightarrow> if free < APPLIANCE_SLOTS then slots[free := Some x] else slots @ [Some x])"

definition applianceSlots :: "home_node list \<Rightarrow> saved_edge list \<Rightarrow> appliance_slot option list" where
  "applianceSlots nodes E =
     (case foldl (placeStep (supplyIds E)) (replicate APPLIANCE_SLOTS None, []) nodes of
        (slots, others) \<Rightarrow> foldl fillStep slots (sort_key (\<lambda>o'. order (as_graphId o')) others))"

section \<open>The page\<close>

record home =
  hm_gridModalOpen :: bool
  hm_gridSensor :: "simple_device option"
  hm_solarModalOpen :: bool
  hm_solarInverter :: "simple_device option"
  hm_tariffModalOpen :: bool
  hm_tariff :: "simple_device option"
  hm_appliances :: "appliance_slot option list"
  hm_edges :: "saved_edge list"
  hm_applianceModalSlot :: "nat option"
  hm_cuPos :: "rat \<times> rat"

definition initial_home :: home where
  "initial_home = \<lparr>hm_gridModalOpen = False, hm_gridSensor = None, hm_solarModalOpen = False,
     hm_solarInverter = None, hm_tariffModalOpen = False, hm_tariff = None,
     hm_appliances = replicate APPLIANCE_SLOTS None, hm_edges = [], hm_applianceModalSlot = None,
     hm_cuPos = (0, 0)\<rparr>"

text \<open>The device of a role node that is fully configured; else the previous one stays.\<close>

definition roleDevice :: "string \<Rightarrow> bool \<Rightarrow> bool \<Rightarrow> home_node list \<Rightarrow> simple_device option \<Rightarrow> simple_device option" where
  "roleDevice i sensor solar nodes old =
     (case find (\<lambda>n. hn_id n = i) nodes of
        None \<Rightarrow> old
      | Some n \<Rightarrow>
          (case (opt_field s_nodeId (hn_settings n), opt_field s_endpointId (hn_settings n),
                 opt_field s_label (hn_settings n)) of
             (Some nid, Some eid, Some label) \<Rightarrow>
               if label = [] then old
               else Some \<lparr>sd_nodeId = nid, sd_endpointId = eid, sd_label = label, sd_name = None,
                     sd_hasElectricalSensor = sensor, sd_hasSolarPower = solar,
                     sd_excludeFromScheduling = None\<rparr>
           | _ \<Rightarrow> old))"

text \<open>\<open>loadTopology\<close>; \<open>None\<close> is a failed request.\<close>

definition loadTopology :: "(home_node list \<times> saved_edge list option) option \<Rightarrow> home \<Rightarrow> home" where
  "loadTopology data h =
     (case data of
        None \<Rightarrow> h
      | Some (nodes, es) \<Rightarrow>
          h\<lparr>hm_gridSensor := roleDevice ''grid_meter'' True False nodes (hm_gridSensor h),
            hm_solarInverter := roleDevice ''solar_inverter'' False True nodes (hm_solarInverter h),
            hm_tariff := roleDevice ''tariff'' False False nodes (hm_tariff h),
            hm_cuPos := (case find (\<lambda>n. hn_id n = HOME_CU) nodes of
                None \<Rightarrow> hm_cuPos h
              | Some cu \<Rightarrow> (case (hn_x cu, hn_y cu) of (Some x, Some y) \<Rightarrow> (x, y) | _ \<Rightarrow> hm_cuPos h)),
            hm_edges := default_to [] es,
            hm_appliances := applianceSlots nodes (default_to [] es)\<rparr>)"

definition handleGridSave :: "simple_device \<Rightarrow> home \<Rightarrow> home" where
  "handleGridSave d h = h\<lparr>hm_gridSensor := Some d, hm_gridModalOpen := False\<rparr>"
definition handleSolarSave :: "simple_device \<Rightarrow> home \<Rightarrow> home" where
  "handleSolarSave d h = h\<lparr>hm_solarInverter := Some d, hm_solarModalOpen := False\<rparr>"
definition handleTariffSave :: "simple_device \<Rightarrow> home \<Rightarrow> home" where
  "handleTariffSave d h = h\<lparr>hm_tariff := Some d, hm_tariffModalOpen := False\<rparr>"

text \<open>
  The deleting handlers chain requests: the next one is sent when the previous one is answered,
  and a network failure ends the chain.  A plan is the list of requests in that order (the
  requests of one \<open>Promise.all\<close> as one stage) and the update applied after the last.
\<close>

record plan =
  pl_stages :: "request list list"
  pl_done :: "home \<Rightarrow> home"

text \<open>Run a plan against the set of requests that fail: what is sent, and the page afterwards.\<close>

fun sent :: "(request \<Rightarrow> bool) \<Rightarrow> request list list \<Rightarrow> request list" where
  "sent fails [] = []"
| "sent fails (rs # rest) = rs @ (if \<exists>r\<in>set rs. fails r then [] else sent fails rest)"

definition run_plan :: "(request \<Rightarrow> bool) \<Rightarrow> plan \<Rightarrow> home \<Rightarrow> home \<times> request list" where
  "run_plan fails p h =
     (if \<exists>rs\<in>set (pl_stages p). \<exists>r\<in>set rs. fails r then h else pl_done p h, sent fails (pl_stages p))"

text \<open>\<open>reload\<close> is the page update of the re-read that follows a deleted appliance.\<close>

definition handleApplianceDelete :: "(home \<Rightarrow> home) \<Rightarrow> nat \<Rightarrow> home \<Rightarrow> plan" where
  "handleApplianceDelete reload slot h =
     (case (if slot < length (hm_appliances h) then hm_appliances h ! slot else None) of
        None \<Rightarrow> \<lparr>pl_stages = [], pl_done = id\<rparr>
      | Some a \<Rightarrow>
          if as_graphId a = [] then \<lparr>pl_stages = [], pl_done = id\<rparr>
          else
            let touching = filter (\<lambda>e. se_source e = as_graphId a \<or> se_target e = as_graphId a) (hm_edges h)
            in \<lparr>pl_stages = [map (\<lambda>e. DeleteEdge (se_id e)) touching, [DeleteNode (as_graphId a)]],
                pl_done = reload\<rparr>)"

definition handleGridDelete :: plan where
  "handleGridDelete = \<lparr>pl_stages = [[DeleteEdge ''grid_meter-power-out-consumer_unit-grid''], [DeleteNode ''grid_meter'']],
     pl_done = (\<lambda>h. h\<lparr>hm_gridSensor := None\<rparr>)\<rparr>"
definition handleTariffDelete :: plan where
  "handleTariffDelete = \<lparr>pl_stages = [[DeleteEdge ''tariff-tariff-out-consumer_unit-tariff''], [DeleteNode ''tariff'']],
     pl_done = (\<lambda>h. h\<lparr>hm_tariff := None\<rparr>)\<rparr>"
definition handleSolarDelete :: plan where
  "handleSolarDelete = \<lparr>pl_stages = [[DeleteEdge ''solar_inverter-power-out-consumer_unit-solar_input''], [DeleteNode ''solar_inverter'']],
     pl_done = (\<lambda>h. h\<lparr>hm_solarInverter := None\<rparr>)\<rparr>"

definition handleApplianceSave :: "(home \<Rightarrow> home) \<Rightarrow> home \<Rightarrow> home" where
  "handleApplianceSave reload h = reload (h\<lparr>hm_applianceModalSlot := None\<rparr>)"

section \<open>Editing a slot\<close>

definition freeCircuitHandle :: "saved_edge list \<Rightarrow> nat \<Rightarrow> string" where
  "freeCircuitHandle E slot =
     (let used = map se_sourceHandle (filter (\<lambda>e. se_source e = HOME_CU) E);
          own = applianceCircuitHandle slot
      in if Some own \<notin> set used then own
         else default_to own (find (\<lambda>h. Some h \<notin> set used) (map applianceCircuitHandle [0..<APPLIANCE_SLOTS])))"

text \<open>The props the page passes to the appliance editor.\<close>

record edit_props =
  ep_slotLabel :: string
  ep_topologyNodeId :: string
  ep_nodeType :: string
  ep_position :: "rat \<times> rat"
  ep_wire :: bool
  ep_sourceHandle :: string
  ep_edgeId :: string
  ep_initialSelected :: "simple_device option"

definition editProps :: "nat \<Rightarrow> home \<Rightarrow> edit_props" where
  "editProps slot h =
     (let existing = (if slot < length (hm_appliances h) then hm_appliances h ! slot else None);
          graphId = (case existing of None \<Rightarrow> applianceNodeId slot | Some a \<Rightarrow> as_graphId a);
          handle = freeCircuitHandle (hm_edges h) slot;
          fresh = (fst (hm_cuPos h) + (of_nat (slot mod SLOTS_PER_ROW) - 2) * 170,
                   snd (hm_cuPos h) + 200 + of_nat (slot div SLOTS_PER_ROW) * 150)
      in \<lparr>ep_slotLabel = slotLabel slot, ep_topologyNodeId = graphId,
          ep_nodeType = (case existing of None \<Rightarrow> ''appliance'' | Some a \<Rightarrow> as_type a),
          ep_position = (case existing of None \<Rightarrow> fresh
             | Some a \<Rightarrow> (case (as_x a, as_y a) of (Some x, Some y) \<Rightarrow> (x, y) | _ \<Rightarrow> fresh)),
          ep_wire = (existing = None), ep_sourceHandle = handle,
          ep_edgeId = ''consumer_unit-'' @ handle @ ''-'' @ graphId @ ''-power-in'',
          ep_initialSelected = (case existing of None \<Rightarrow> None | Some a \<Rightarrow> Some (as_device a))\<rparr>)"

end
