(* ===== verification/Pickers.thy ===== *)
theory Pickers
  imports Canvas Home
begin

text \<open>
  The endpoint pickers: the modals that assign a commissioned endpoint to a role (\<open>Home.tsx\<close>), to
  an appliance slot (\<open>Home.tsx\<close>), to a new or existing load on the canvas (\<open>AddLoadModal.tsx\<close>,
  \<open>EditNodeModal.tsx\<close>) and to the grid (\<open>GridModal.tsx\<close>).  Each has its state, one definition per
  event, and what it renders, styles left out.
\<close>

section \<open>Endpoints\<close>

text \<open>\<open>EndpointOption\<close> / \<open>EndpointEntry\<close> and \<open>SensorOption\<close>.\<close>

record endpoint =
  en_nodeId :: nat
  en_endpointId :: nat
  en_label :: string
  en_deviceName :: string

record sensor_option =
  so_nodeId :: nat
  so_endpointId :: nat
  so_label :: string

definition displayLabel :: "endpoint \<Rightarrow> string" where
  "displayLabel ep = or_str (en_label ep) (or_str (en_deviceName ep) (''EP'' @ dec (en_endpointId ep)))"

definition toSensor :: "endpoint \<Rightarrow> sensor_option" where
  "toSensor ep = \<lparr>so_nodeId = en_nodeId ep, so_endpointId = en_endpointId ep, so_label = displayLabel ep\<rparr>"

definition so_key :: "sensor_option \<Rightarrow> string" where
  "so_key s = sensorKey (so_nodeId s) (so_endpointId s)"

definition en_key :: "endpoint \<Rightarrow> string" where
  "en_key e = sensorKey (en_nodeId e) (en_endpointId e)"

subsection \<open>The interface of a picker: options identified by a printed key\<close>

locale keyed_options =
  fixes key :: "'a \<Rightarrow> string" and ident :: "'a \<Rightarrow> nat \<times> nat"
  assumes key_ident: "key x = key y \<longleftrightarrow> ident x = ident y"
begin

lemma find_key:
  assumes "x \<in> set xs"
  shows "\<exists>y. find (\<lambda>z. key z = key x) xs = Some y \<and> y \<in> set xs \<and> ident y = ident x"
proof (cases "find (\<lambda>z. key z = key x) xs")
  case None
  then show ?thesis using assms by (auto simp: find_None_iff)
next
  case (Some y)
  then have "key y = key x \<and> y \<in> set xs" by (auto simp: find_Some_iff)
  with Some show ?thesis using key_ident by blast
qed

lemma find_key_unique:
  assumes "x \<in> set xs" and "distinct (map ident xs)"
  shows "find (\<lambda>z. key z = key x) xs = Some x"
proof -
  from find_key [OF assms(1)] obtain y where y: "find (\<lambda>z. key z = key x) xs = Some y" "y \<in> set xs" "ident y = ident x"
    by blast
  with assms have "y = x" unfolding distinct_map by (metis inj_onD)
  with y show ?thesis by simp
qed

lemma find_key_only: "find (\<lambda>z. key z = k) xs = Some y \<Longrightarrow> y \<in> set xs \<and> key y = k"
  by (auto simp: find_Some_iff)

end

interpretation sensors: keyed_options so_key "\<lambda>s. (so_nodeId s, so_endpointId s)"
  by unfold_locales (simp add: so_key_def)

interpretation endpoints: keyed_options en_key "\<lambda>e. (en_nodeId e, en_endpointId e)"
  by unfold_locales (simp add: en_key_def)

section \<open>Adding a load (AddLoadModal)\<close>

record add_modal =
  am_sensors :: "sensor_option list"
  am_selectedKey :: string
  am_name :: string
  am_nameTouched :: bool
  am_loading :: bool

definition addModal_open :: add_modal where
  "addModal_open = \<lparr>am_sensors = [], am_selectedKey = [], am_name = [], am_nameTouched = False, am_loading = True\<rparr>"

text \<open>\<open>None\<close> is a failed request: the list stays as it is.\<close>

definition addModal_loaded :: "endpoint list option \<Rightarrow> add_modal \<Rightarrow> add_modal" where
  "addModal_loaded eps m =
     (case eps of None \<Rightarrow> m | Some es \<Rightarrow> m\<lparr>am_sensors := map toSensor es\<rparr>)\<lparr>am_loading := False\<rparr>"

definition addModal_selected :: "add_modal \<Rightarrow> sensor_option option" where
  "addModal_selected m = find (\<lambda>s. so_key s = am_selectedKey m) (am_sensors m)"

definition addModal_select :: "string \<Rightarrow> add_modal \<Rightarrow> add_modal" where
  "addModal_select k m =
     (let m' = m\<lparr>am_selectedKey := k\<rparr> in
      (case find (\<lambda>x. so_key x = k) (am_sensors m) of
         None \<Rightarrow> m'
       | Some s \<Rightarrow> if am_nameTouched m then m' else m'\<lparr>am_name := so_label s\<rparr>))"

definition addModal_type :: "string \<Rightarrow> add_modal \<Rightarrow> add_modal" where
  "addModal_type s m = m\<lparr>am_name := s, am_nameTouched := True\<rparr>"

definition addModal_save :: "add_modal \<Rightarrow> added_load option" where
  "addModal_save m =
     (case addModal_selected m of
        None \<Rightarrow> None
      | Some s \<Rightarrow> Some \<lparr>al_nodeId = so_nodeId s, al_endpointId = so_endpointId s, al_label = so_label s,
                        al_name = or_str (trim (am_name m)) (so_label s)\<rparr>)"

text \<open>What a picker shows: the option list (value and text) and the state of its button.\<close>

record picker_view =
  vw_title :: string
  vw_message :: "string option"
  vw_options :: "(string \<times> string) list"
  vw_value :: string
  vw_error :: "string option"
  vw_button :: string
  vw_enabled :: bool

definition sensorText :: "sensor_option \<Rightarrow> string" where
  "sensorText s = dec (so_nodeId s) @ '': '' @ so_label s @ '' - '' @ dec (so_endpointId s)"

definition addModal_view :: "add_modal \<Rightarrow> picker_view" where
  "addModal_view m =
     \<lparr>vw_title = ''Add Load'',
      vw_message = (if am_loading m then Some ''Loading devices...''
         else if am_sensors m = [] then Some ''No unassigned Electrical Meter endpoints found. Commission a device first.''
         else None),
      vw_options = (if am_loading m then []
         else ([], em_dash @ '' Select a device '' @ em_dash) # map (\<lambda>s. (so_key s, sensorText s)) (am_sensors m)),
      vw_value = am_selectedKey m, vw_error = None, vw_button = ''Add'',
      vw_enabled = (\<not> (am_loading m \<or> addModal_selected m = None))\<rparr>"

section \<open>The grid sensor (GridModal)\<close>

record grid_modal =
  gm_sensors :: "sensor_option list"
  gm_selectedKey :: string
  gm_loading :: bool
  gm_saving :: bool

definition gridModal_open :: grid_modal where
  "gridModal_open = \<lparr>gm_sensors = [], gm_selectedKey = [], gm_loading = True, gm_saving = False\<rparr>"

definition gridModal_loaded :: "endpoint list option \<Rightarrow> grid_modal \<Rightarrow> grid_modal" where
  "gridModal_loaded eps m =
     (case eps of None \<Rightarrow> m | Some es \<Rightarrow> m\<lparr>gm_sensors := map toSensor es\<rparr>)\<lparr>gm_loading := False\<rparr>"

definition gridModal_select :: "string \<Rightarrow> grid_modal \<Rightarrow> grid_modal" where
  "gridModal_select k m = m\<lparr>gm_selectedKey := k\<rparr>"

text \<open>\<open>Number\<close> of a piece of the key; what is not a number is serialised as \<open>null\<close>.\<close>

definition numberField :: "string \<Rightarrow> jval" where
  "numberField s = (if all_digits s then JNum (of_nat (digits_val s)) else if s = [] then JNum 0 else JNull)"

definition gridModal_fields :: "string \<Rightarrow> (string \<times> jval) list" where
  "gridModal_fields k =
     (if k = [] then [(''gridSensorNodeId'', JNum 0), (''gridSensorEndpointId'', JNum 0)]
      else (case split_on CHR ''-'' k of
              n # e # _ \<Rightarrow> [(''gridSensorNodeId'', numberField n), (''gridSensorEndpointId'', numberField e)]
            | [n] \<Rightarrow> [(''gridSensorNodeId'', numberField n)]
            | [] \<Rightarrow> []))"

definition gridModal_save :: "grid_modal \<Rightarrow> grid_modal \<times> request" where
  "gridModal_save m =
     (m\<lparr>gm_saving := True\<rparr>, PutSettings ''grid'' (no_settings\<lparr>s_rest := gridModal_fields (gm_selectedKey m)\<rparr>))"

text \<open>The modal closes (\<open>None\<close>) on any answer.\<close>

definition gridModal_saved :: "unit answer \<Rightarrow> grid_modal \<Rightarrow> grid_modal option" where
  "gridModal_saved r m = (case r of NoAnswer _ \<Rightarrow> Some (m\<lparr>gm_saving := False\<rparr>) | Answer _ _ \<Rightarrow> None)"

definition gridModal_view :: "grid_modal \<Rightarrow> picker_view" where
  "gridModal_view m =
     \<lparr>vw_title = ''Grid Connection'',
      vw_message = (if gm_loading m then Some ''Loading devices...''
         else if gm_sensors m = [] then Some ''No Electrical Meter endpoints found. Commission a device first.''
         else None),
      vw_options = (if gm_loading m then []
         else ([], em_dash @ '' None '' @ em_dash) # map (\<lambda>s. (so_key s, so_label s)) (gm_sensors m)),
      vw_value = gm_selectedKey m, vw_error = None,
      vw_button = (if gm_saving m then ''Saving'' @ ellipsis else ''Save''),
      vw_enabled = (\<not> (gm_saving m \<or> gm_loading m))\<rparr>"

section \<open>Editing a node (EditNodeModal)\<close>

record edit_modal =
  em_sensors :: "sensor_option list"
  em_selectedKey :: string
  em_name :: string
  em_loading :: bool
  em_saving :: bool
  em_error :: bool

definition currentSensor :: "settings \<Rightarrow> bool \<Rightarrow> sensor_option option" where
  "currentSensor s hasDevice =
     (case (s_nodeId s, s_endpointId s) of
        (Some n, Some e) \<Rightarrow>
          if hasDevice
          then Some \<lparr>so_nodeId = n, so_endpointId = e,
                 so_label = or_str (default_to [] (s_label s)) (''EP'' @ dec e)\<rparr>
          else None
      | _ \<Rightarrow> None)"

definition list_of_opt :: "'a option \<Rightarrow> 'a list" where
  "list_of_opt x = (case x of None \<Rightarrow> [] | Some y \<Rightarrow> [y])"

definition editModal_open :: "settings \<Rightarrow> bool \<Rightarrow> edit_modal" where
  "editModal_open s hasDevice =
     (let current = currentSensor s hasDevice in
      \<lparr>em_sensors = list_of_opt current,
       em_selectedKey = (case current of None \<Rightarrow> [] | Some c \<Rightarrow> so_key c),
       em_name = or_opt (s_name s) (default_to [] (s_label s)),
       em_loading = hasDevice, em_saving = False, em_error = False\<rparr>)"

definition editModal_loaded :: "settings \<Rightarrow> bool \<Rightarrow> endpoint list option \<Rightarrow> edit_modal \<Rightarrow> edit_modal" where
  "editModal_loaded s hasDevice eps m =
     (if \<not> hasDevice then m
      else
        let current = currentSensor s hasDevice in
        (case eps of
           None \<Rightarrow> m
         | Some es \<Rightarrow>
             m\<lparr>em_sensors := list_of_opt current @
                 map toSensor (filter (\<lambda>ep. case current of None \<Rightarrow> True
                   | Some c \<Rightarrow> en_nodeId ep \<noteq> so_nodeId c \<or> en_endpointId ep \<noteq> so_endpointId c) es)\<rparr>)
        \<lparr>em_loading := False\<rparr>)"

definition editModal_selected :: "edit_modal \<Rightarrow> sensor_option option" where
  "editModal_selected m = find (\<lambda>s. so_key s = em_selectedKey m) (em_sensors m)"

definition canSave :: "bool \<Rightarrow> edit_modal \<Rightarrow> bool" where
  "canSave hasDevice m \<longleftrightarrow>
     \<not> em_loading m \<and> \<not> em_saving m
     \<and> (if hasDevice then editModal_selected m \<noteq> None else trim (em_name m) \<noteq> [])"

definition nextSettings :: "settings \<Rightarrow> bool \<Rightarrow> edit_modal \<Rightarrow> settings" where
  "nextSettings s hasDevice m =
     (case (hasDevice, editModal_selected m) of
        (True, Some sel) \<Rightarrow>
          s\<lparr>s_name := Some (or_str (trim (em_name m)) (so_label sel)), s_label := Some (so_label sel),
            s_nodeId := Some (so_nodeId sel), s_endpointId := Some (so_endpointId sel)\<rparr>
      | _ \<Rightarrow> s\<lparr>s_label := Some (trim (em_name m))\<rparr>)"

text \<open>\<open>None\<close>: nothing is sent.\<close>

definition editModal_save :: "string \<Rightarrow> settings \<Rightarrow> bool \<Rightarrow> edit_modal \<Rightarrow> edit_modal \<times> request option" where
  "editModal_save nodeId s hasDevice m =
     (if \<not> canSave hasDevice m then (m, None)
      else (m\<lparr>em_saving := True, em_error := False\<rparr>, Some (PutSettings nodeId (nextSettings s hasDevice m))))"

text \<open>\<open>Inl\<close> keeps the modal open, \<open>Inr\<close> is the call of \<open>onSave\<close>.\<close>

definition editModal_saved :: "settings \<Rightarrow> unit answer \<Rightarrow> edit_modal \<Rightarrow> edit_modal + settings" where
  "editModal_saved next r m =
     (if is_ok r then Inr next else Inl (m\<lparr>em_saving := False, em_error := True\<rparr>))"

definition editModal_view :: "settings \<Rightarrow> bool \<Rightarrow> edit_modal \<Rightarrow> picker_view" where
  "editModal_view s hasDevice m =
     \<lparr>vw_title = (if hasDevice then ''Edit Load'' else ''Edit Sub Consumer Unit''),
      vw_message = (if hasDevice \<and> em_loading m then Some ''Loading devices...'' else None),
      vw_options = (if hasDevice \<and> \<not> em_loading m
         then (if currentSensor s hasDevice = None then [([], em_dash @ '' Select a device '' @ em_dash)] else [])
              @ map (\<lambda>x. (so_key x, sensorText x)) (em_sensors m)
         else []),
      vw_value = em_selectedKey m,
      vw_error = (if em_error m then Some ''Couldn't save the change. Try again.'' else None),
      vw_button = (if em_saving m then ''Saving'' @ ellipsis else ''Save''),
      vw_enabled = canSave hasDevice m\<rparr>"

section \<open>Assigning an endpoint to a role (Home)\<close>

record role_picker =
  rp_devices :: "endpoint list"
  rp_selected :: "simple_device option"
  rp_loading :: bool
  rp_saving :: bool
  rp_error :: "string option"

definition rolePicker_open :: "simple_device option \<Rightarrow> role_picker" where
  "rolePicker_open initial =
     \<lparr>rp_devices = [], rp_selected = initial, rp_loading = True, rp_saving = False, rp_error = None\<rparr>"

text \<open>The list with the configured endpoint put back in front when the service left it out.\<close>

definition withConfigured :: "simple_device option \<Rightarrow> endpoint list \<Rightarrow> endpoint list" where
  "withConfigured initial entries =
     (case initial of
        None \<Rightarrow> entries
      | Some d \<Rightarrow>
          if \<exists>e\<in>set entries. en_nodeId e = sd_nodeId d \<and> en_endpointId e = sd_endpointId d then entries
          else \<lparr>en_nodeId = sd_nodeId d, en_endpointId = sd_endpointId d, en_label = sd_label d,
                en_deviceName = []\<rparr> # entries)"

text \<open>\<open>Inl\<close> is the message of a failed request.\<close>

definition rolePicker_loaded :: "simple_device option \<Rightarrow> string + endpoint list \<Rightarrow> role_picker \<Rightarrow> role_picker" where
  "rolePicker_loaded initial r p =
     (case r of
        Inl msg \<Rightarrow> p\<lparr>rp_error := Some msg, rp_loading := False\<rparr>
      | Inr es \<Rightarrow> p\<lparr>rp_devices := withConfigured initial es, rp_loading := False\<rparr>)"

text \<open>\<open>sensor\<close> and \<open>solar\<close> are the flags of the role.\<close>

definition rolePicker_select :: "bool \<Rightarrow> bool \<Rightarrow> string \<Rightarrow> role_picker \<Rightarrow> role_picker" where
  "rolePicker_select sensor solar k p =
     p\<lparr>rp_selected :=
        (case find (\<lambda>x. en_key x = k) (rp_devices p) of
           None \<Rightarrow> None
         | Some d \<Rightarrow> Some \<lparr>sd_nodeId = en_nodeId d, sd_endpointId = en_endpointId d, sd_label = displayLabel d,
                          sd_name = None, sd_hasElectricalSensor = sensor, sd_hasSolarPower = solar,
                          sd_excludeFromScheduling = None\<rparr>)\<rparr>"

definition rolePicker_save :: "string \<Rightarrow> role_picker \<Rightarrow> role_picker \<times> request option" where
  "rolePicker_save role p =
     (case rp_selected p of
        None \<Rightarrow> (p, None)
      | Some d \<Rightarrow> (p\<lparr>rp_saving := True\<rparr>, Some (PutRole role (sd_nodeId d) (sd_endpointId d) (sd_label d))))"

text \<open>\<open>d\<close> is the device selected when the request was sent; \<open>Inr\<close> is the call of \<open>onSave\<close>.\<close>

definition rolePicker_saved :: "simple_device \<Rightarrow> unit answer \<Rightarrow> role_picker \<Rightarrow> role_picker + simple_device" where
  "rolePicker_saved d r p =
     (case checked r of
        Inl msg \<Rightarrow> Inl (p\<lparr>rp_error := Some msg, rp_saving := False\<rparr>)
      | Inr _ \<Rightarrow> Inr d)"

definition endpointText :: "endpoint \<Rightarrow> string" where
  "endpointText d = displayLabel d @ '' '' @ em_dash @ '' Node 0x'' @ hex_upper (en_nodeId d) @ '' '' @ middot
     @ '' EP '' @ dec (en_endpointId d)"

definition rolePicker_view :: "string \<Rightarrow> string \<Rightarrow> role_picker \<Rightarrow> picker_view" where
  "rolePicker_view title emptyText p =
     \<lparr>vw_title = title,
      vw_message = (if rp_loading p then Some (''Loading devices'' @ ellipsis)
         else if rp_devices p = [] then Some emptyText else None),
      vw_options = (if \<not> rp_loading p \<and> rp_devices p \<noteq> []
         then ([], ''Select a device'' @ ellipsis) # map (\<lambda>d. (en_key d, endpointText d)) (rp_devices p) else []),
      vw_value = (case rp_selected p of None \<Rightarrow> [] | Some d \<Rightarrow> sensorKey (sd_nodeId d) (sd_endpointId d)),
      vw_error = shownText (rp_error p),
      vw_button = (if rp_saving p then ''Saving'' @ ellipsis else ''Save''),
      vw_enabled = (\<not> (rp_selected p = None \<or> rp_saving p))\<rparr>"

text \<open>The three roles: title, text of the empty list, flags and the route's last segment.\<close>

record role_spec =
  rl_title :: string
  rl_empty :: string
  rl_sensor :: bool
  rl_solar :: bool
  rl_role :: string
  rl_deviceType :: nat

definition GridSensorModal :: role_spec where
  "GridSensorModal = \<lparr>rl_title = ''Select Grid Sensor'', rl_empty = ''No devices with power measurement found.'',
     rl_sensor = True, rl_solar = False, rl_role = ''grid'', rl_deviceType = 0x0510\<rparr>"
definition TariffModal :: role_spec where
  "TariffModal = \<lparr>rl_title = ''Select Tariff'', rl_empty = ''No Electrical Energy Tariff devices found.'',
     rl_sensor = True, rl_solar = False, rl_role = ''tariff'', rl_deviceType = 0x0513\<rparr>"
definition SolarInverterModal :: role_spec where
  "SolarInverterModal = \<lparr>rl_title = ''Select Solar Inverter'', rl_empty = ''No solar power devices found.'',
     rl_sensor = False, rl_solar = True, rl_role = ''solar'', rl_deviceType = 0x0017\<rparr>"

section \<open>Editing an appliance slot (Home)\<close>

record appliance_modal =
  ap_devices :: "endpoint list"
  ap_selected :: "simple_device option"
  ap_name :: string
  ap_nameTouched :: bool
  ap_exclude :: bool
  ap_loading :: bool
  ap_saving :: bool
  ap_error :: "string option"

definition applianceModal_open :: "edit_props \<Rightarrow> appliance_modal" where
  "applianceModal_open p =
     (let i = ep_initialSelected p in
      \<lparr>ap_devices = [], ap_selected = i,
       ap_name = (case i of None \<Rightarrow> [] | Some d \<Rightarrow> default_to (sd_label d) (sd_name d)),
       ap_nameTouched = (case i of None \<Rightarrow> False | Some d \<Rightarrow> default_to [] (sd_name d) \<noteq> []),
       ap_exclude = (case i of None \<Rightarrow> False | Some d \<Rightarrow> default_to False (sd_excludeFromScheduling d)),
       ap_loading = True, ap_saving = False, ap_error = None\<rparr>)"

definition applianceModal_loaded :: "edit_props \<Rightarrow> string + endpoint list \<Rightarrow> appliance_modal \<Rightarrow> appliance_modal" where
  "applianceModal_loaded p r m =
     (case r of
        Inl msg \<Rightarrow> m\<lparr>ap_error := Some msg, ap_loading := False\<rparr>
      | Inr es \<Rightarrow> m\<lparr>ap_devices := withConfigured (ep_initialSelected p) es, ap_loading := False\<rparr>)"

definition applianceModal_type :: "string \<Rightarrow> appliance_modal \<Rightarrow> appliance_modal" where
  "applianceModal_type s m = m\<lparr>ap_name := s, ap_nameTouched := True\<rparr>"

definition applianceModal_exclude :: "bool \<Rightarrow> appliance_modal \<Rightarrow> appliance_modal" where
  "applianceModal_exclude b m = m\<lparr>ap_exclude := b\<rparr>"

definition applianceModal_pick :: "endpoint \<Rightarrow> appliance_modal \<Rightarrow> appliance_modal" where
  "applianceModal_pick d m =
     (let m' = m\<lparr>ap_selected := Some \<lparr>sd_nodeId = en_nodeId d, sd_endpointId = en_endpointId d,
              sd_label = displayLabel d, sd_name = None, sd_hasElectricalSensor = True,
              sd_hasSolarPower = False, sd_excludeFromScheduling = None\<rparr>\<rparr>
      in if ap_nameTouched m then m' else m'\<lparr>ap_name := displayLabel d\<rparr>)"

definition applianceSettings :: "edit_props \<Rightarrow> simple_device \<Rightarrow> appliance_modal \<Rightarrow> settings" where
  "applianceSettings p d m =
     no_settings\<lparr>s_label := Some (sd_label d), s_name := Some (or_str (trim (ap_name m)) (sd_label d)),
       s_type := Some (ep_nodeType p), s_nodeId := Some (sd_nodeId d), s_endpointId := Some (sd_endpointId d),
       s_excludeFromScheduling := Some (ap_exclude m)\<rparr>"

definition applianceEdge :: "edit_props \<Rightarrow> saved_edge" where
  "applianceEdge p = \<lparr>se_id = ep_edgeId p, se_source = ''consumer_unit'', se_target = ep_topologyNodeId p,
     se_sourceHandle = Some (ep_sourceHandle p), se_targetHandle = Some ''power-in''\<rparr>"

text \<open>The requests, one after the other, each sent when the one before was answered with a 2xx.\<close>

definition applianceModal_requests :: "edit_props \<Rightarrow> appliance_modal \<Rightarrow> request list" where
  "applianceModal_requests p m =
     (case ap_selected m of
        None \<Rightarrow> []
      | Some d \<Rightarrow>
          PutNode (ep_topologyNodeId p) (fst (ep_position p)) (snd (ep_position p)) (Some (applianceSettings p d m))
          # (if ep_wire p then [PostEdge (applianceEdge p)] else []))"

text \<open>\<open>Inr\<close> is the call of \<open>onSave\<close>; \<open>fails\<close> gives the error message of a request that fails.\<close>

fun run_requests :: "(request \<Rightarrow> string option) \<Rightarrow> request list \<Rightarrow> string option \<times> request list" where
  "run_requests fails [] = (None, [])"
| "run_requests fails (r # rs) =
     (case fails r of
        Some msg \<Rightarrow> (Some msg, [r])
      | None \<Rightarrow> (case run_requests fails rs of (e, out) \<Rightarrow> (e, r # out)))"

definition applianceModal_save :: "(request \<Rightarrow> string option) \<Rightarrow> edit_props \<Rightarrow> appliance_modal
    \<Rightarrow> (appliance_modal + simple_device) \<times> request list" where
  "applianceModal_save fails p m =
     (case ap_selected m of
        None \<Rightarrow> (Inl m, [])
      | Some d \<Rightarrow>
          (case run_requests fails (applianceModal_requests p m) of
             (Some msg, out) \<Rightarrow> (Inl (m\<lparr>ap_error := Some msg, ap_saving := False\<rparr>), out)
           | (None, out) \<Rightarrow>
               (Inr (d\<lparr>sd_name := Some (or_str (trim (ap_name m)) (sd_label d)),
                      sd_excludeFromScheduling := Some (ap_exclude m)\<rparr>), out)))"

definition applianceModal_view :: "edit_props \<Rightarrow> appliance_modal \<Rightarrow> picker_view" where
  "applianceModal_view p m =
     \<lparr>vw_title = ''Edit '' @ ep_slotLabel p,
      vw_message = (if ap_loading m then Some (''Loading devices'' @ ellipsis)
         else if ap_devices m = [] then Some ''No devices with power measurement found.'' else None),
      vw_options = (if \<not> ap_loading m
         then map (\<lambda>d. (en_key d, displayLabel d @ ''Node 0x'' @ hex_upper (en_nodeId d) @ '' '' @ middot
                 @ '' EP '' @ dec (en_endpointId d))) (ap_devices m) else []),
      vw_value = (case ap_selected m of None \<Rightarrow> [] | Some d \<Rightarrow> sensorKey (sd_nodeId d) (sd_endpointId d)),
      vw_error = shownText (ap_error m),
      vw_button = (if ap_saving m then ''Saving'' @ ellipsis else ''Save''),
      vw_enabled = (\<not> (ap_selected m = None \<or> ap_saving m))\<rparr>"

end
