(* ===== verification/MockServer.thy ===== *)
theory MockServer
  imports DevicesPage Pickers
begin

text \<open>
  The development server (\<open>mocks/handlers.ts\<close>): the graph store behind \<open>/api/nodes\<close>, \<open>/api/edges\<close>
  and \<open>/api/topology\<close>, the list of assignable endpoints, the device records, and the fixed data of
  the tariff and energy routes that does not depend on the clock or on random numbers.
\<close>

section \<open>State\<close>

record server =
  sv_name :: string
  sv_nodes :: "saved_node list"
  sv_edges :: "saved_edge list"
  sv_devices :: "device list"

definition config :: "string \<Rightarrow> rat \<Rightarrow> rat \<Rightarrow> settings \<Rightarrow> saved_node" where
  "config i x y s = \<lparr>n_id = i, n_x = x, n_y = y, n_settings = Some s, n_values = None\<rparr>"

definition device_settings :: "string \<Rightarrow> string \<Rightarrow> nat \<Rightarrow> nat \<Rightarrow> settings" where
  "device_settings label ty nid eid =
     no_settings\<lparr>s_label := Some label, s_type := Some ty, s_nodeId := Some nid, s_endpointId := Some eid\<rparr>"

definition edge_config :: "string \<Rightarrow> string \<Rightarrow> string \<Rightarrow> string \<Rightarrow> string \<Rightarrow> saved_edge" where
  "edge_config i src sh tgt th =
     \<lparr>se_id = i, se_source = src, se_target = tgt, se_sourceHandle = Some sh, se_targetHandle = Some th\<rparr>"

definition seed_nodes :: "saved_node list" where
  "seed_nodes =
     [config ''consumer_unit'' 0 0 (no_settings\<lparr>s_label := Some ''Consumer Unit'', s_type := Some ''consumerUnit'', s_deletable := Some False\<rparr>),
      config ''grid_meter'' (- 220) 0 (device_settings ''Grid Meter'' ''device'' 30001 1),
      config ''node_11'' 260 (- 40) ((device_settings ''Oven'' ''appliance'' 20001 1)\<lparr>s_name := Some ''Oven'', s_excludeFromScheduling := Some True\<rparr>),
      config ''node_12'' 260 80 ((device_settings ''Dishwasher'' ''appliance'' 20002 1)\<lparr>s_name := Some ''Dishwasher''\<rparr>),
      config ''node_13'' 260 200 ((device_settings ''Kettle'' ''appliance'' 20003 1)\<lparr>s_name := Some ''Kettle''\<rparr>),
      config ''tariff'' (- 220) 120 (device_settings ''Energy Tariff'' ''tariff'' 40001 1)]"

definition seed_edges :: "saved_edge list" where
  "seed_edges =
     [edge_config ''grid_meter-power-out-consumer_unit-grid'' ''grid_meter'' ''power-out'' ''consumer_unit'' ''grid'',
      edge_config ''consumer_unit-circuit_1-node_11-power-in'' ''consumer_unit'' ''circuit_1'' ''node_11'' ''power-in'',
      edge_config ''consumer_unit-circuit_2-node_12-power-in'' ''consumer_unit'' ''circuit_2'' ''node_12'' ''power-in'',
      edge_config ''consumer_unit-circuit_3-node_13-power-in'' ''consumer_unit'' ''circuit_3'' ''node_13'' ''power-in'',
      edge_config ''tariff-tariff-out-consumer_unit-tariff'' ''tariff'' ''tariff-out'' ''consumer_unit'' ''tariff'']"

definition ep_config :: "nat \<Rightarrow> string \<Rightarrow> bool \<Rightarrow> nat list \<Rightarrow> nat list \<Rightarrow> device_endpoint" where
  "ep_config i label included types parts = \<lparr>de_endpointId = i, de_label = label, de_included = included,
     de_hasDem = False, de_deviceTypes = types, de_parts = parts\<rparr>"

definition seed_devices :: "device list" where
  "seed_devices =
     [\<lparr>dv_nodeId = 10000, dv_name = None, dv_vendorName = ''Solax'', dv_productName = ''Hybrid Inverter'',
       dv_endpoints = [ep_config 0 ''Root Node'' False [0x0016] [13481, 13482, 13483, 13484],
         ep_config 13481 ''Solax Inverter'' False [0x0017, 0x0011, 0x0510] [13482, 13483, 13484],
         ep_config 13482 ''PV String 1'' False [0x0510] [], ep_config 13483 ''PV String 2'' False [0x0510] [],
         ep_config 13484 ''Battery'' False [0x0510, 0x0011] []], dv_hasSubscription = True\<rparr>,
      \<lparr>dv_nodeId = 20001, dv_name = Some ''Garage Meter'', dv_vendorName = ''Shelly'', dv_productName = ''Pro 3EM'',
       dv_endpoints = [ep_config 0 ''Root Node'' False [0x0016] [1],
         (ep_config 1 ''Grid Meter'' True [0x0512] [2])\<lparr>de_hasDem := True\<rparr>,
         ep_config 2 ''Grid Sensor'' False [0x0510] []], dv_hasSubscription = True\<rparr>,
      \<lparr>dv_nodeId = 40001, dv_name = None, dv_vendorName = ''Matter Energy'', dv_productName = ''Energy Gateway'',
       dv_endpoints = [ep_config 0 ''Root Node'' False [0x0016] [1], ep_config 1 ''Energy Tariff'' True [0x0513] []],
       dv_hasSubscription = True\<rparr>,
      \<lparr>dv_nodeId = 30001, dv_name = None, dv_vendorName = ''Cold Bear'', dv_productName = ''Smart Meter'',
       dv_endpoints = [ep_config 0 ''Root Node'' False [0x0016] [1, 2],
         ep_config 1 ''Meter Reference Point'' True [0x0512] [2], ep_config 2 ''Electrical Sensor'' False [0x0514] []],
       dv_hasSubscription = True\<rparr>]"

definition seed :: server where
  "seed = \<lparr>sv_name = ''Home Energy Manager'', sv_nodes = seed_nodes, sv_edges = seed_edges, sv_devices = seed_devices\<rparr>"

section \<open>The graph store\<close>

text \<open>Assigning to the fields of the element \<open>find\<close> returned.\<close>

fun update_first :: "('a \<Rightarrow> bool) \<Rightarrow> ('a \<Rightarrow> 'a) \<Rightarrow> 'a list \<Rightarrow> 'a list" where
  "update_first P f [] = []"
| "update_first P f (x # xs) = (if P x then f x # xs else x # update_first P f xs)"

definition has_node :: "string \<Rightarrow> saved_node list \<Rightarrow> bool" where
  "has_node i ns \<longleftrightarrow> (\<exists>n\<in>set ns. n_id n = i)"

definition upsertNode :: "string \<Rightarrow> rat \<Rightarrow> rat \<Rightarrow> settings \<Rightarrow> saved_node list \<Rightarrow> saved_node list" where
  "upsertNode i x y s ns =
     (if has_node i ns
      then update_first (\<lambda>n. n_id n = i) (\<lambda>n. n\<lparr>n_x := x, n_y := y, n_settings := Some s\<rparr>) ns
      else ns @ [config i x y s])"

definition upsertEdge :: "saved_edge \<Rightarrow> saved_edge list \<Rightarrow> saved_edge list" where
  "upsertEdge e es = (if \<exists>x\<in>set es. se_id x = se_id e then es else es @ [e])"

text \<open>\<open>PUT /api/nodes/:nodeId\<close>: absent settings leave the stored ones.\<close>

definition putNode :: "string \<Rightarrow> rat \<Rightarrow> rat \<Rightarrow> settings option \<Rightarrow> saved_node list \<Rightarrow> saved_node list" where
  "putNode i x y s ns =
     (if has_node i ns
      then update_first (\<lambda>n. n_id n = i)
             (\<lambda>n. (case s of None \<Rightarrow> n | Some st \<Rightarrow> n\<lparr>n_settings := Some st\<rparr>)\<lparr>n_x := x, n_y := y\<rparr>) ns
      else ns @ [config i x y (default_to no_settings s)])"

text \<open>\<open>{ ...existing.settings, ...body }\<close>.\<close>

definition settings_merge :: "settings \<Rightarrow> settings \<Rightarrow> settings" where
  "settings_merge a b =
     \<lparr>s_label = or_else (s_label b) (s_label a), s_name = or_else (s_name b) (s_name a),
      s_type = or_else (s_type b) (s_type a), s_nodeId = or_else (s_nodeId b) (s_nodeId a),
      s_endpointId = or_else (s_endpointId b) (s_endpointId a),
      s_circuits = or_else (s_circuits b) (s_circuits a), s_outputs = or_else (s_outputs b) (s_outputs a),
      s_deletable = or_else (s_deletable b) (s_deletable a),
      s_excludeFromScheduling = or_else (s_excludeFromScheduling b) (s_excludeFromScheduling a),
      s_rest = foldl (\<lambda>m kv. AList.update (fst kv) (snd kv) m) (s_rest a) (s_rest b)\<rparr>"

definition putSettings :: "string \<Rightarrow> settings \<Rightarrow> saved_node list \<Rightarrow> saved_node list" where
  "putSettings i s ns =
     (if has_node i ns
      then update_first (\<lambda>n. n_id n = i)
             (\<lambda>n. n\<lparr>n_settings := Some (settings_merge (default_to no_settings (n_settings n)) s)\<rparr>) ns
      else ns @ [config i 0 0 s])"

definition deleteNode :: "string \<Rightarrow> server \<Rightarrow> server" where
  "deleteNode i sv =
     sv\<lparr>sv_nodes := filter (\<lambda>n. n_id n \<noteq> i) (sv_nodes sv),
        sv_edges := filter (\<lambda>e. se_source e \<noteq> i \<and> se_target e \<noteq> i) (sv_edges sv)\<rparr>"

definition deleteEdge :: "string \<Rightarrow> server \<Rightarrow> server" where
  "deleteEdge i sv = sv\<lparr>sv_edges := filter (\<lambda>e. se_id e \<noteq> i) (sv_edges sv)\<rparr>"

definition cuAt :: "saved_node list \<Rightarrow> rat \<times> rat" where
  "cuAt ns = (case find (\<lambda>n. n_id n = ''consumer_unit'') ns of None \<Rightarrow> (0, 0) | Some n \<Rightarrow> (n_x n, n_y n))"

definition putTariff :: "nat \<Rightarrow> nat \<Rightarrow> string \<Rightarrow> server \<Rightarrow> server" where
  "putTariff nid eid label sv =
     (let (x, y) = cuAt (sv_nodes sv);
          e = edge_config ''tariff-tariff-out-consumer_unit-tariff'' ''tariff'' ''tariff-out'' ''consumer_unit'' ''tariff''
      in sv\<lparr>sv_nodes := filter (\<lambda>n. n_id n \<noteq> ''tariff'') (sv_nodes sv)
               @ [config ''tariff'' (x - 220) (y + 120) (device_settings label ''tariff'' nid eid)],
            sv_edges := filter (\<lambda>x. se_id x \<noteq> se_id e) (sv_edges sv) @ [e]\<rparr>)"

text \<open>The grid route answers with an edge but stores only the node.\<close>

definition gridEdge :: saved_edge where
  "gridEdge = edge_config ''grid_meter-power-out-consumer_unit-grid'' ''grid_meter'' ''power-out'' ''consumer_unit'' ''grid''"

definition putGrid :: "nat \<Rightarrow> nat \<Rightarrow> string \<Rightarrow> server \<Rightarrow> server \<times> saved_edge" where
  "putGrid nid eid label sv =
     (let (x, y) = cuAt (sv_nodes sv) in
      (sv\<lparr>sv_nodes := upsertNode ''grid_meter'' (x - 220) y (device_settings label ''device'' nid eid) (sv_nodes sv)\<rparr>,
       gridEdge))"

definition POWER_SOURCE_DT :: nat where "POWER_SOURCE_DT = 0x0011"
definition ELECTRICAL_SENSOR_DT :: nat where "ELECTRICAL_SENSOR_DT = 0x0510"
definition SOLAR_POWER_DT :: nat where "SOLAR_POWER_DT = 0x0017"

text \<open>The PV strings and the battery of an inverter; \<open>k\<close> is \<open>pvIndex\<close>.\<close>

fun solarChildren :: "nat \<Rightarrow> rat \<times> rat \<Rightarrow> device_endpoint list \<Rightarrow> nat list \<Rightarrow> nat \<Rightarrow> server \<Rightarrow> server" where
  "solarChildren nid pos eps [] k sv = sv"
| "solarChildren nid pos eps (cid # rest) k sv =
     (case find (\<lambda>e. de_endpointId e = cid) eps of
        None \<Rightarrow> solarChildren nid pos eps rest k sv
      | Some child \<Rightarrow>
          if POWER_SOURCE_DT \<in> set (de_deviceTypes child) then
            let i = ''battery_'' @ dec cid in
            solarChildren nid pos eps rest k
              (sv\<lparr>sv_nodes := upsertNode i (fst pos) (snd pos + 160) (device_settings ''Battery'' ''battery'' nid cid) (sv_nodes sv),
                  sv_edges := upsertEdge (edge_config (''solar_inverter-battery-'' @ i @ ''-power-in'') ''solar_inverter'' ''battery'' i ''power-in'') (sv_edges sv)\<rparr>)
          else if ELECTRICAL_SENSOR_DT \<in> set (de_deviceTypes child) then
            let i = ''pv_string_'' @ dec cid in
            solarChildren nid pos eps rest (Suc k)
              (sv\<lparr>sv_nodes := upsertNode i (fst pos + 220) (snd pos - 60 + of_nat k * 90)
                     (device_settings (''PV String '' @ dec (k + 1)) ''pvString'' nid cid) (sv_nodes sv),
                  sv_edges := upsertEdge (edge_config (i @ ''-power-out-solar_inverter-dc_in'') i ''power-out'' ''solar_inverter'' ''dc_in'') (sv_edges sv)\<rparr>)
          else solarChildren nid pos eps rest k sv)"

definition solarParts :: "nat \<Rightarrow> nat \<Rightarrow> device list \<Rightarrow> device_endpoint list \<times> nat list" where
  "solarParts nid eid ds =
     (case find (\<lambda>d. dv_nodeId d = nid) ds of
        None \<Rightarrow> ([], [])
      | Some d \<Rightarrow> (dv_endpoints d,
          (case find (\<lambda>e. de_endpointId e = eid) (dv_endpoints d) of None \<Rightarrow> [] | Some e \<Rightarrow> de_parts e)))"

definition putSolar :: "nat \<Rightarrow> nat \<Rightarrow> string \<Rightarrow> server \<Rightarrow> server" where
  "putSolar nid eid label sv =
     (let (cx, y) = cuAt (sv_nodes sv); x = cx + 220;
          (eps, parts) = solarParts nid eid (sv_devices sv)
      in solarChildren nid (x, y) eps parts 0
           (sv\<lparr>sv_nodes := upsertNode ''solar_inverter'' x y (device_settings label ''solarInverter'' nid eid) (sv_nodes sv),
               sv_edges := upsertEdge (edge_config ''solar_inverter-power-out-consumer_unit-solar_input''
                  ''solar_inverter'' ''power-out'' ''consumer_unit'' ''solar_input'') (sv_edges sv)\<rparr>))"

definition serve :: "request \<Rightarrow> server \<Rightarrow> server" where
  "serve r sv =
     (case r of
        PutNode i x y s \<Rightarrow> sv\<lparr>sv_nodes := putNode i x y s (sv_nodes sv)\<rparr>
      | PutSettings i s \<Rightarrow> sv\<lparr>sv_nodes := putSettings i s (sv_nodes sv)\<rparr>
      | DeleteNode i \<Rightarrow> deleteNode i sv
      | PostEdge e \<Rightarrow> sv\<lparr>sv_edges := upsertEdge e (sv_edges sv)\<rparr>
      | DeleteEdge i \<Rightarrow> deleteEdge i sv
      | PutRole role nid eid label \<Rightarrow>
          if role = ''tariff'' then putTariff nid eid label sv
          else if role = ''grid'' then fst (putGrid nid eid label sv)
          else if role = ''solar'' then putSolar nid eid label sv
          else sv)"

text \<open>\<open>GET /api/nodes\<close>: nodes wired to an endpoint carry cached values.\<close>

definition mockPowerMw :: "string \<Rightarrow> rat option" where
  "mockPowerMw i = (if i = ''node_12'' then Some 6000 else if i = ''node_13'' then Some 0 else None)"

definition served_values :: "saved_node \<Rightarrow> value_entry list option" where
  "served_values n =
     (case (opt_field s_nodeId (n_settings n), opt_field s_endpointId (n_settings n)) of
        (Some _, Some _) \<Rightarrow>
          let ty = default_to [] (opt_field s_type (n_settings n));
              activePower = (if ty = ''pvString'' then 1800000 else if ty = ''battery'' then - 2500000
                 else if ty = ''solarInverter'' then - 3000000 else default_to 1000000 (mockPowerMw (n_id n)))
          in Some ([\<lparr>v_cluster = 144, v_attribute = 0x04, v_value = 230000\<rparr>,
                    \<lparr>v_cluster = 144, v_attribute = 0x05, v_value = 4350\<rparr>,
                    \<lparr>v_cluster = 144, v_attribute = 0x08, v_value = activePower\<rparr>]
                   @ (if ty = ''battery'' then [\<lparr>v_cluster = 0x2f, v_attribute = 0x0c, v_value = 156\<rparr>] else []))
      | _ \<Rightarrow> None)"

definition getNodes :: "server \<Rightarrow> saved_node list \<times> saved_edge list" where
  "getNodes sv = (map (\<lambda>n. n\<lparr>n_values := served_values n\<rparr>) (sv_nodes sv), sv_edges sv)"

section \<open>Devices\<close>

definition inUse :: "saved_node list \<Rightarrow> (nat \<times> nat) list" where
  "inUse ns =
     List.map_filter (\<lambda>n. case (opt_field s_nodeId (n_settings n), opt_field s_endpointId (n_settings n)) of
        (Some a, Some b) \<Rightarrow> Some (a, b) | _ \<Rightarrow> None) ns"

definition offeredEndpoints :: "nat \<Rightarrow> server \<Rightarrow> endpoint list" where
  "offeredEndpoints filterType sv =
     concat (map (\<lambda>d. map (\<lambda>ep. \<lparr>en_nodeId = dv_nodeId d, en_endpointId = de_endpointId ep,
            en_label = or_str (de_label ep) (''EP'' @ dec (de_endpointId ep)), en_deviceName = dv_productName d\<rparr>)
          (filter (\<lambda>ep. (dv_nodeId d, de_endpointId ep) \<notin> set (inUse (sv_nodes sv)))
            (filter (\<lambda>ep. de_endpointId ep \<noteq> 0 \<and> filterType \<in> set (de_deviceTypes ep)) (dv_endpoints d))))
        (sv_devices sv))"

record simple_info =
  si_nodeId :: nat
  si_endpointId :: nat
  si_label :: string
  si_hasElectricalSensor :: bool
  si_hasSolarPower :: bool
  si_hasDem :: bool

definition simpleOf :: "device \<Rightarrow> simple_info list" where
  "simpleOf d =
     (let eps = dv_endpoints d;
          ep0Parts = (case find (\<lambda>e. de_endpointId e = 0) eps of None \<Rightarrow> [] | Some e \<Rightarrow> de_parts e);
          candidates = (if ep0Parts \<noteq> [] then filter (\<lambda>e. de_endpointId e \<in> set ep0Parts) eps
                        else filter (\<lambda>e. de_endpointId e \<noteq> 0) eps)
      in map (\<lambda>ep.
           let family = ep # List.map_filter (\<lambda>i. find (\<lambda>e. de_endpointId e = i) eps) (de_parts ep)
           in \<lparr>si_nodeId = dv_nodeId d, si_endpointId = de_endpointId ep,
               si_label = or_str (de_label ep) (''EP'' @ dec (de_endpointId ep)),
               si_hasElectricalSensor = list_ex (\<lambda>e. ELECTRICAL_SENSOR_DT \<in> set (de_deviceTypes e)) family,
               si_hasSolarPower = list_ex (\<lambda>e. SOLAR_POWER_DT \<in> set (de_deviceTypes e)) family,
               si_hasDem = list_ex de_hasDem eps\<rparr>) candidates)"

definition simpleDevices :: "server \<Rightarrow> simple_info list" where
  "simpleDevices sv = concat (map simpleOf (sv_devices sv))"

definition putDeviceName :: "nat \<Rightarrow> string \<Rightarrow> server \<Rightarrow> server" where
  "putDeviceName nid name sv =
     sv\<lparr>sv_devices := map (\<lambda>d. if dv_nodeId d = nid then d\<lparr>dv_name := Some name\<rparr> else d) (sv_devices sv)\<rparr>"

definition putIncluded :: "nat \<Rightarrow> nat \<Rightarrow> bool \<Rightarrow> server \<Rightarrow> server" where
  "putIncluded nid eid included sv =
     sv\<lparr>sv_devices := map (\<lambda>d. if dv_nodeId d = nid
         then d\<lparr>dv_endpoints := map (\<lambda>ep. if de_endpointId ep = eid then ep\<lparr>de_included := included\<rparr> else ep) (dv_endpoints d)\<rparr>
         else d) (sv_devices sv)\<rparr>"

definition putName :: "string \<Rightarrow> server \<Rightarrow> server" where
  "putName name sv = sv\<lparr>sv_name := name\<rparr>"

section \<open>Tariff and metering streams\<close>

definition mockTariffPrice :: "nat \<Rightarrow> nat" where
  "mockTariffPrice slot =
     (let minute = slot * 15 in
      if minute \<ge> 30 \<and> minute < 330 then 7500
      else if minute \<ge> 960 \<and> minute < 1140 then 35000
      else 24500)"

definition TARIFF_DAYS_OF_HISTORY :: int where "TARIFF_DAYS_OF_HISTORY = 20"

text \<open>The prices of a day \<open>daysAgo\<close> days ago.\<close>

definition tariffSlots :: "int \<Rightarrow> server \<Rightarrow> nat list" where
  "tariffSlots daysAgo sv =
     (if has_node ''tariff'' (sv_nodes sv) \<and> daysAgo < TARIFF_DAYS_OF_HISTORY \<and> daysAgo \<ge> - 1
      then map mockTariffPrice [0..<96] else [])"

text \<open>The streams of \<open>/api/data/daily-energy\<close>: every node wired to the consumer unit with its role.\<close>

definition streamRole :: "string option \<Rightarrow> string" where
  "streamRole handle =
     (if handle = Some ''grid'' then ''grid''
      else (case handle of None \<Rightarrow> ''load'' | Some h \<Rightarrow> if starts_with ''solar'' h then ''solar'' else ''load''))"

definition streamStep :: "(string \<times> string) list \<Rightarrow> saved_edge \<Rightarrow> (string \<times> string) list" where
  "streamStep ss e =
     (let (i, handle) =
         (if se_source e = ''consumer_unit'' then (se_target e, se_sourceHandle e)
          else if se_target e = ''consumer_unit'' then (se_source e, se_targetHandle e)
          else ([], None))
      in if i = [] \<or> i \<in> fst ` set ss then ss
         else if handle = Some ''tariff'' then ss
         else ss @ [(i, streamRole handle)])"

definition streams :: "saved_edge list \<Rightarrow> (string \<times> string) list" where
  "streams es = foldl streamStep [] es"

end
