(* ===== verification/FlowFacts.thy ===== *)
theory FlowFacts
  imports Flows
begin

text \<open>
  Facts about the derived flows: the memoised board totals against a memo-free specification, the
  feed and remainder the final pass writes, conservation at the boards, at a shared metered handle
  and at the main consumer unit, and the interface of edge passes that keep the wiring.
\<close>

section \<open>Passes that keep the wiring\<close>

text \<open>Every derived-flow pass rewrites edge data only: ids and wires stay, in order.\<close>

locale wiring_preserving =
  fixes pass :: "edge list \<Rightarrow> edge list"
  assumes wiring: "map (\<lambda>e. (e_id e, e_wire e)) (pass E) = map (\<lambda>e. (e_id e, e_wire e)) E"
begin

lemma ids: "map e_id (pass E) = map e_id E"
proof -
  have "map fst (map (\<lambda>e. (e_id e, e_wire e)) (pass E)) = map fst (map (\<lambda>e. (e_id e, e_wire e)) E)"
    by (simp only: wiring)
  then show ?thesis by (simp add: comp_def)
qed

lemma wires: "map e_wire (pass E) = map e_wire E"
proof -
  have "map snd (map (\<lambda>e. (e_id e, e_wire e)) (pass E)) = map snd (map (\<lambda>e. (e_id e, e_wire e)) E)"
    by (simp only: wiring)
  then show ?thesis by (simp add: comp_def)
qed

lemma len: "length (pass E) = length E"
  using ids [of E] by (metis length_map)

lemma wire_set: "e_wire ` set (pass E) = e_wire ` set E"
  using wires [of E] by (metis set_map)

lemma id_set: "e_id ` set (pass E) = e_id ` set E"
  using ids [of E] by (metis set_map)

text \<open>No pass can leave an edge dangling, whatever the node ids are.\<close>

lemma endpoints:
  "(\<forall>e\<in>set (pass E). e_source e \<in> N \<and> e_target e \<in> N)
   \<longleftrightarrow> (\<forall>e\<in>set E. e_source e \<in> N \<and> e_target e \<in> N)"
proof -
  have "(\<forall>w\<in>e_wire ` set (pass E). w_source w \<in> N \<and> w_target w \<in> N)
        \<longleftrightarrow> (\<forall>w\<in>e_wire ` set E. w_source w \<in> N \<and> w_target w \<in> N)"
    by (simp only: wire_set)
  then show ?thesis by simp
qed

end

locale wiring_preserving_pair =
  first: wiring_preserving f + second: wiring_preserving g
  for f :: "edge list \<Rightarrow> edge list" and g :: "edge list \<Rightarrow> edge list"

sublocale wiring_preserving_pair \<subseteq> comp: wiring_preserving "\<lambda>E. g (f E)"
  by unfold_locales (simp add: first.wiring second.wiring)

section \<open>Edge updates\<close>

lemma setFeed_wire [simp]: "e_id (setFeed e t) = e_id e" "e_wire (setFeed e t) = e_wire e"
  by (simp_all add: setFeed_def)

lemma setFeed_values [simp]:
  "kw_of (setFeed e t) = Some (fst t)" "idle_of (setFeed e t) = Some (snd t)"
  "metered_of (setFeed e t) = metered_of e" "raw_of (setFeed e t) = raw_of e"
  by (simp_all add: setFeed_def edge_accessors default_to_def split: option.splits)

lemma setRemainder_wire [simp]:
  "e_id (setRemainder e r) = e_id e" "e_wire (setRemainder e r) = e_wire e"
  by (simp_all add: setRemainder_def split: option.split)

lemma setRemainder_values [simp]:
  "kw_of (setRemainder e r) = or_else r (kw_of e)" "idle_of (setRemainder e r) = idle_of e"
  "metered_of (setRemainder e r) = metered_of e" "raw_of (setRemainder e r) = raw_of e"
  by (simp_all add: setRemainder_def edge_accessors default_to_def or_else_def split: option.splits)

lemma setUnallocated_wire [simp]:
  "e_id (setUnallocated k r e) = e_id e" "e_wire (setUnallocated k r e) = e_wire e"
  by (simp_all add: setUnallocated_def)

lemma setUnallocated_values:
  "kw_of (setUnallocated k r e) = (if e_id e = UNALLOCATED_EDGE_ID then Some k else kw_of e)"
  "raw_of (setUnallocated k r e) = (if e_id e = UNALLOCATED_EDGE_ID then Some r else raw_of e)"
  "idle_of (setUnallocated k r e) = idle_of e"
  "metered_of (setUnallocated k r e) = metered_of e"
  by (simp_all add: setUnallocated_def edge_accessors default_to_def split: option.splits)

lemma setUnallocated_idem: "setUnallocated k r (setUnallocated k r e) = setUnallocated k r e"
  by (simp add: setUnallocated_values setUnallocated_def edge_accessors)

interpretation unallocated: wiring_preserving withUnallocated
  by unfold_locales (simp add: withUnallocated_def Let_def)

lemma applyFeeds_wiring:
  "map (\<lambda>e. (e_id e, e_wire e)) (applyFeeds E S R T es) = map (\<lambda>e. (e_id e, e_wire e)) es"
  by (induction E S R T es rule: applyFeeds.induct) (auto split: prod.split)

interpretation feeds: wiring_preserving "\<lambda>E. withSubCuFeeds E S" for S
  by unfold_locales (simp add: withSubCuFeeds_def applyFeeds_wiring split: prod.split)

interpretation derived: wiring_preserving_pair "\<lambda>E. withSubCuFeeds E S" withUnallocated for S
  by unfold_locales

interpretation derivedFlows: wiring_preserving "\<lambda>E. withDerivedFlows E S" for S
  by unfold_locales (simp add: withDerivedFlows_def derived.comp.wiring)

section \<open>Board totals without the memo table\<close>

text \<open>
  The specification of a board's total: the sum over the edges leaving it, to a nesting depth
  \<open>n\<close>, with no memo table and no \<open>visiting\<close> set.
\<close>

fun boardTotal :: "nat \<Rightarrow> edge list \<Rightarrow> string list \<Rightarrow> string \<Rightarrow> flow" where
  "boardTotal 0 E S c = (0, True)"
| "boardTotal (Suc n) E S c =
     foldl addFlow (0, True)
       (map (\<lambda>e. if e_target e \<in> set S then boardTotal n E S (e_target e) else edgeFlow e)
         (filter (\<lambda>e. e_source e = c) E))"

text \<open>The boards nest without a loop: a rank falls along every board-to-board feed.\<close>

definition board_rank :: "(string \<Rightarrow> nat) \<Rightarrow> edge list \<Rightarrow> string list \<Rightarrow> bool" where
  "board_rank r E S \<longleftrightarrow>
     (\<forall>e\<in>set E. e_source e \<in> set S \<longrightarrow> e_target e \<in> set S \<longrightarrow> r (e_target e) < r (e_source e))"

text \<open>Above its rank the depth no longer matters; this is the board's total.\<close>

definition boardSpec :: "(string \<Rightarrow> nat) \<Rightarrow> edge list \<Rightarrow> string list \<Rightarrow> string \<Rightarrow> flow" where
  "boardSpec r E S c = boardTotal (Suc (r c)) E S c"

lemma boardTotal_stable:
  "board_rank r E S \<Longrightarrow> c \<in> set S \<Longrightarrow> r c < n \<Longrightarrow> r c < m \<Longrightarrow> boardTotal n E S c = boardTotal m E S c"
proof (induction n arbitrary: m c)
  case (Suc n)
  then obtain k where k: "m = Suc k" by (cases m) auto
  have "boardTotal n E S (e_target e) = boardTotal k E S (e_target e)"
    if "e \<in> set E" "e_source e = c" "e_target e \<in> set S" for e
  proof -
    have "r (e_target e) < r c"
      using that Suc.prems(1,2) by (auto simp: board_rank_def)
    then show ?thesis
      using Suc.prems that k by (intro Suc.IH) auto
  qed
  then have "map (\<lambda>e. if e_target e \<in> set S then boardTotal n E S (e_target e) else edgeFlow e)
               (filter (\<lambda>e. e_source e = c) E)
           = map (\<lambda>e. if e_target e \<in> set S then boardTotal k E S (e_target e) else edgeFlow e)
               (filter (\<lambda>e. e_source e = c) E)"
    by (intro map_cong) auto
  then show ?case by (simp only: boardTotal.simps k)
qed simp

definition shareOf :: "(string \<Rightarrow> nat) \<Rightarrow> edge list \<Rightarrow> string list \<Rightarrow> edge \<Rightarrow> flow" where
  "shareOf r E S e = (if e_target e \<in> set S then boardSpec r E S (e_target e) else edgeFlow e)"

lemma boardSpec_unfold:
  assumes "board_rank r E S" "c \<in> set S"
  shows "boardSpec r E S c = foldl addFlow (0, True) (map (shareOf r E S) (filter (\<lambda>e. e_source e = c) E))"
proof -
  have "boardTotal (r c) E S (e_target e) = boardSpec r E S (e_target e)"
    if "e \<in> set E" "e_source e = c" "e_target e \<in> set S" for e
    unfolding boardSpec_def using assms that
    by (intro boardTotal_stable [OF assms(1)]) (auto simp: board_rank_def)
  then have "map (\<lambda>e. if e_target e \<in> set S then boardTotal (r c) E S (e_target e) else edgeFlow e)
               (filter (\<lambda>e. e_source e = c) E)
           = map (shareOf r E S) (filter (\<lambda>e. e_source e = c) E)"
    by (intro map_cong) (auto simp: shareOf_def)
  then show ?thesis by (simp only: boardSpec_def boardTotal.simps)
qed

lemma foldl_addFlow_fst: "fst (foldl addFlow a fs) = fst a + sum_list (map fst fs)"
  by (induction fs arbitrary: a) (auto simp: addFlow_def)

lemma foldl_addFlow_snd:
  "snd (foldl addFlow a fs) \<longleftrightarrow> snd a \<and> (\<forall>f\<in>set fs. snd f \<or> fst f = 0)"
  by (induction fs arbitrary: a) (auto simp: addFlow_def)

section \<open>The memoised recursion computes the specification\<close>

definition memo_ok :: "(string \<Rightarrow> nat) \<Rightarrow> edge list \<Rightarrow> string list \<Rightarrow> totals \<Rightarrow> bool" where
  "memo_ok r E S T \<longleftrightarrow> (\<forall>c t. T c = Some t \<longrightarrow> t = boardSpec r E S c)"

lemma memo_ok_empty [simp]: "memo_ok r E S Map.empty"
  by (simp add: memo_ok_def)

lemma totalFor_spec_aux:
  "board_rank r E S \<Longrightarrow> c \<in> set S \<Longrightarrow> \<forall>v\<in>set V. r c < r v \<Longrightarrow> memo_ok r E S T \<Longrightarrow>
     fst (totalFor E S V T c) = boardSpec r E S c \<and> memo_ok r E S (snd (totalFor E S V T c))"
  "board_rank r E S \<Longrightarrow> c \<in> set S \<Longrightarrow> \<forall>v\<in>set V. r c \<le> r v \<Longrightarrow> memo_ok r E S T \<Longrightarrow> set es \<subseteq> set E \<Longrightarrow>
     fst (sumCircuits E S V T c es acc)
       = foldl addFlow acc (map (shareOf r E S) (filter (\<lambda>e. e_source e = c) es))
     \<and> memo_ok r E S (snd (sumCircuits E S V T c es acc))"
proof (induction E S V T c and E S V T c es acc rule: totalFor_sumCircuits.induct)
  case (1 E S V T c)
  show ?case
  proof (cases "T c")
    case None
    have c: "c \<notin> set V" using "1.prems"(3) by auto
    have IH: "fst (sumCircuits E S (c # V) T c E (0, True)) = boardSpec r E S c
        \<and> memo_ok r E S (snd (sumCircuits E S (c # V) T c E (0, True)))"
      using "1.IH" [OF None c] "1.prems" by (simp add: boardSpec_unfold less_imp_le)
    with None c show ?thesis
      by (auto simp: totalFor.simps memo_ok_def split: prod.splits)
  next
    case (Some t)
    with "1.prems"(4) show ?thesis by (cases t) (simp add: totalFor.simps memo_ok_def)
  qed
next
  case (2 E S V T c acc)
  then show ?case by (simp add: sumCircuits.simps)
next
  case (3 E S V T c e es acc)
  show ?case
  proof (cases "e_source e = c")
    case False
    with 3 show ?thesis by (simp add: sumCircuits.simps)
  next
    case src: True
    show ?thesis
    proof (cases "e_target e \<in> set S")
      case False
      with 3 src show ?thesis by (simp add: sumCircuits.simps shareOf_def)
    next
      case tgt: True
      obtain f T' where ft: "totalFor E S V T (e_target e) = (f, T')" by fastforce
      have "r (e_target e) < r c"
        using "3.prems"(1,2,5) src tgt by (auto simp: board_rank_def)
      then have "fst (totalFor E S V T (e_target e)) = boardSpec r E S (e_target e)
          \<and> memo_ok r E S (snd (totalFor E S V T (e_target e)))"
        using "3.prems" src tgt by (intro "3.IH"(2)) (auto intro: less_le_trans)
      then have f: "f = shareOf r E S e" and T': "memo_ok r E S T'"
        by (simp_all add: ft shareOf_def tgt)
      have "fst (sumCircuits E S V T' c es (addFlow acc f))
          = foldl addFlow (addFlow acc f) (map (shareOf r E S) (filter (\<lambda>e. e_source e = c) es))
        \<and> memo_ok r E S (snd (sumCircuits E S V T' c es (addFlow acc f)))"
        using "3.prems" src tgt T' ft by (intro "3.IH"(3)) auto
      with src tgt ft f show ?thesis by (simp add: sumCircuits.simps)
    qed
  qed
qed

lemma totalFor_spec:
  assumes "board_rank r E S" "c \<in> set S" "memo_ok r E S T"
  shows "fst (totalFor E S [] T c) = boardSpec r E S c" "memo_ok r E S (snd (totalFor E S [] T c))"
  using totalFor_spec_aux(1) [of r E S c "[]" T] assms by simp_all


section \<open>The three passes of \<open>withSubCuFeeds\<close>\<close>

text \<open>What the boards fed from a handle draw together: the value of \<open>toSubCus\<close> at its key.\<close>

definition feedsAt :: "string list \<Rightarrow> string \<Rightarrow> edge list \<Rightarrow> edge list" where
  "feedsAt S key E = filter (\<lambda>e. e_target e \<in> set S \<and> endKey e True = key) E"

definition drawnAt :: "(string \<Rightarrow> nat) \<Rightarrow> edge list \<Rightarrow> string list \<Rightarrow> string \<Rightarrow> rat option" where
  "drawnAt r E S key =
     (if feedsAt S key E = [] then None
      else Some (- sum_list (map (\<lambda>e. fst (boardSpec r E S (e_target e))) (feedsAt S key E))))"

lemma feedsAt_simps [simp]:
  "feedsAt S key [] = []"
  "feedsAt S key (e # es) = (if e_target e \<in> set S \<and> endKey e True = key then e # feedsAt S key es
                             else feedsAt S key es)"
  by (simp_all add: feedsAt_def)

lemma toSubCus_spec:
  assumes "board_rank r E S"
  shows "memo_ok r E S T \<Longrightarrow>
    memo_ok r E S (snd (toSubCus E S T M es)) \<and>
    fst (toSubCus E S T M es) key =
      (if feedsAt S key es = [] then M key
       else Some (default_to 0 (M key)
              - sum_list (map (\<lambda>e. fst (boardSpec r E S (e_target e))) (feedsAt S key es))))"
proof (induction es arbitrary: T M)
  case (Cons e es)
  show ?case
  proof (cases "e_target e \<in> set S")
    case False
    with Cons show ?thesis by simp
  next
    case True
    obtain t T' where t: "totalFor E S [] T (e_target e) = (t, T')" by fastforce
    have "t = boardSpec r E S (e_target e)" "memo_ok r E S T'"
      using totalFor_spec [OF assms True Cons.prems] by (simp_all add: t)
    note t' = this
    define M' where "M' = M(endKey e True \<mapsto> default_to 0 (M (endKey e True)) - fst t)"
    have eq: "toSubCus E S T M (e # es) = toSubCus E S T' M' es"
      using True t by (simp add: M'_def)
    have IH: "memo_ok r E S (snd (toSubCus E S T' M' es)) \<and>
      fst (toSubCus E S T' M' es) key =
        (if feedsAt S key es = [] then M' key
         else Some (default_to 0 (M' key)
                - sum_list (map (\<lambda>e. fst (boardSpec r E S (e_target e))) (feedsAt S key es))))"
      using Cons.IH [of T' M'] t' by simp
    show ?thesis
    proof (cases "endKey e True = key")
      case same: True
      then have "M' key = Some (default_to 0 (M key) - fst (boardSpec r E S (e_target e)))"
        using t' by (simp add: M'_def)
      with IH True same show ?thesis by (auto simp: eq simp del: toSubCus.simps)
    next
      case False
      then have "M' key = M key" by (simp add: M'_def)
      with IH True False show ?thesis by (auto simp: eq simp del: toSubCus.simps)
    qed
  qed
qed simp

lemma applyFeeds_spec:
  assumes "board_rank r E S"
  shows "memo_ok r E S T \<Longrightarrow>
    applyFeeds E S R T es =
      map (\<lambda>e. if e_target e \<in> set S then setFeed e (boardSpec r E S (e_target e))
               else setRemainder e (R (e_id e))) es"
proof (induction es arbitrary: T)
  case (Cons e es)
  show ?case
  proof (cases "e_target e \<in> set S")
    case False
    with Cons show ?thesis by simp
  next
    case True
    obtain t T' where t: "totalFor E S [] T (e_target e) = (t, T')" by fastforce
    have "t = boardSpec r E S (e_target e)" "memo_ok r E S T'"
      using totalFor_spec [OF assms True Cons.prems] by (simp_all add: t)
    with Cons.IH [of T'] True t show ?thesis by simp
  qed
qed simp

text \<open>The whole routine as one map over the edges.\<close>

definition feedEdge :: "(string \<Rightarrow> nat) \<Rightarrow> edge list \<Rightarrow> string list \<Rightarrow> edge \<Rightarrow> edge" where
  "feedEdge r E S e =
     (if e_target e \<in> set S then setFeed e (boardSpec r E S (e_target e))
      else setRemainder e (remainderKw S (drawnAt r E S) E (e_id e)))"

lemma withSubCuFeeds_map:
  assumes "board_rank r E S" "S \<noteq> []"
  shows "withSubCuFeeds E S = map (feedEdge r E S) E"
proof -
  obtain M T where MT: "toSubCus E S Map.empty Map.empty E = (M, T)" by fastforce
  have "M key = drawnAt r E S key \<and> memo_ok r E S T" for key
    using toSubCus_spec [OF assms(1) memo_ok_empty, of Map.empty E key] MT
    by (auto simp: drawnAt_def)
  then have "M = drawnAt r E S" and "memo_ok r E S T" by auto
  then show ?thesis
    using assms by (simp add: withSubCuFeeds_def MT applyFeeds_spec feedEdge_def)
qed

lemma feedEdge_wire [simp]: "e_id (feedEdge r E S e) = e_id e" "e_wire (feedEdge r E S e) = e_wire e"
  by (simp_all add: feedEdge_def)

lemma feedEdge_feed:
  "e_target e \<in> set S \<Longrightarrow> kw_of (feedEdge r E S e) = Some (fst (boardSpec r E S (e_target e)))"
  "e_target e \<in> set S \<Longrightarrow> idle_of (feedEdge r E S e) = Some (snd (boardSpec r E S (e_target e)))"
  by (simp_all add: feedEdge_def)

section \<open>Siblings of a tapped handle\<close>

text \<open>The ends at which the edges of a list meet a key, in the order the source collects them.\<close>

definition tapEnds :: "string list \<Rightarrow> string \<Rightarrow> edge \<Rightarrow> (edge \<times> bool) list" where
  "tapEnds S key e =
     (if e_target e \<in> set S then []
      else map (\<lambda>b. (e, b)) (filter (\<lambda>b. endKey e b = key) [True, False]))"

definition tapsAt :: "string list \<Rightarrow> string \<Rightarrow> edge list \<Rightarrow> (edge \<times> bool) list" where
  "tapsAt S key E = concat (map (tapEnds S key) E)"

lemma push_lookup:
  "map_of (push k v m) k' = (if k' = k then Some (default_to [] (map_of m k) @ [v]) else map_of m k')"
  by (induction m) (auto simp: default_to_def)

lemma push_keys: "fst ` set (push k v m) = insert k (fst ` set m)"
proof (induction m)
  case (Cons a m)
  then show ?case by (cases a) (simp add: insert_commute)
qed simp

lemma push_distinct: "distinct (map fst m) \<Longrightarrow> distinct (map fst (push k v m))"
proof (induction m)
  case (Cons a m)
  then show ?case
    using push_keys [of k v m] by (cases a) (auto simp: image_iff)
qed simp

definition sib_ok :: "(string \<Rightarrow> rat option) \<Rightarrow> string list \<Rightarrow> (string \<times> (edge \<times> bool) list) list
    \<Rightarrow> edge list \<Rightarrow> bool" where
  "sib_ok M S m es \<longleftrightarrow> distinct (map fst m) \<and>
     (\<forall>key. map_of m key = (if M key = None \<or> tapsAt S key es = [] then None else Some (tapsAt S key es)))"

lemma addSibling_distinct: "distinct (map fst m) \<Longrightarrow> distinct (map fst (addSibling M e b m))"
  by (simp add: addSibling_def push_distinct)

lemma addSibling_lookup:
  "map_of (addSibling M e b m) key =
     (if M key = None \<or> endKey e b \<noteq> key then map_of m key
      else Some (default_to [] (map_of m key) @ [(e, b)]))"
  by (auto simp: addSibling_def push_lookup)

lemma siblingsOf_ok: "sib_ok M S (siblingsOf S M es) es"
proof (induction es rule: rev_induct)
  case Nil
  then show ?case by (simp add: siblingsOf_def sib_ok_def tapsAt_def)
next
  case (snoc e es)
  let ?m = "siblingsOf S M es"
  have step: "siblingsOf S M (es @ [e]) =
      (if e_target e \<in> set S then ?m else addSibling M e False (addSibling M e True ?m))"
    by (simp add: siblingsOf_def)
  have taps: "tapsAt S key (es @ [e]) = tapsAt S key es @ tapEnds S key e" for key
    by (simp add: tapsAt_def)
  from snoc.IH show ?case
    by (auto simp: sib_ok_def step taps tapEnds_def addSibling_lookup addSibling_distinct)
qed

section \<open>The remainder an edge is given\<close>

text \<open>The entry an alist element writes into \<open>remainderKw\<close>.\<close>

definition produced :: "(string \<Rightarrow> rat option) \<Rightarrow> string \<times> (edge \<times> bool) list \<Rightarrow> (string \<times> rat) option" where
  "produced M entry =
     (case entry of
        (key, [(e, atSource)]) \<Rightarrow>
          (case metered_of e of
             None \<Rightarrow> None
           | Some m \<Rightarrow> Some (e_id e, if atSource then m + default_to 0 (M key)
                                    else m - default_to 0 (M key)))
      | _ \<Rightarrow> None)"

lemma remainderStep_produced:
  "remainderStep M R entry = (case produced M entry of None \<Rightarrow> R | Some (i, v) \<Rightarrow> R(i \<mapsto> v))"
  by (auto simp: remainderStep_def produced_def Let_def split: prod.splits list.splits option.splits)

lemma remainder_foldl:
  "foldl (remainderStep M) R m i =
     (case map_of (rev (List.map_filter (produced M) m)) i of None \<Rightarrow> R i | Some v \<Rightarrow> Some v)"
proof (induction m arbitrary: R)
  case (Cons a m)
  show ?case
    unfolding foldl.simps Cons.IH
    by (auto simp: remainderStep_produced map_filter_simps map_of_append map_add_def
        split: option.splits prod.splits)
qed (simp add: map_filter_simps)

lemma remainderKw_eq:
  "remainderKw S M E i = map_of (rev (List.map_filter (produced M) (siblingsOf S M E))) i"
  by (simp add: remainderKw_def remainder_foldl split: option.split)

lemma siblings_entry:
  assumes "(key, taps) \<in> set (siblingsOf S M E)"
  shows "taps = tapsAt S key E \<and> M key \<noteq> None"
proof -
  have "sib_ok M S (siblingsOf S M E) E" by (rule siblingsOf_ok)
  then have "map_of (siblingsOf S M E) key = Some taps"
    using assms by (intro map_of_is_SomeI) (auto simp: sib_ok_def)
  with \<open>sib_ok M S (siblingsOf S M E) E\<close> show ?thesis
    by (auto simp: sib_ok_def split: if_splits)
qed

text \<open>An edge of which neither end meets a tapped handle keeps its own flow.\<close>

lemma remainderKw_untapped:
  assumes ids: "distinct (map e_id E)" and e: "e \<in> set E"
    and un: "M (endKey e True) = None" "M (endKey e False) = None"
  shows "remainderKw S M E (e_id e) = None"
proof -
  have False if "(e_id e, v) \<in> set (List.map_filter (produced M) (siblingsOf S M E))" for v
  proof -
    from that obtain key taps where kt: "(key, taps) \<in> set (siblingsOf S M E)"
      and pr: "produced M (key, taps) = Some (e_id e, v)"
      by (auto simp: map_filter_def)
    then obtain e' b where taps: "taps = [(e', b)]" and id: "e_id e' = e_id e"
      by (auto simp: produced_def split: list.splits prod.splits option.splits)
    have "(e', b) \<in> set (tapsAt S key E)" and Mk: "M key \<noteq> None"
      using siblings_entry [OF kt] taps by (metis list.set_intros(1), metis)
    then have "e' \<in> set E" and "endKey e' b = key"
      by (auto simp: tapsAt_def tapEnds_def split: if_splits)
    with ids e id have "e' = e" by (auto simp: distinct_map dest: inj_onD)
    with \<open>endKey e' b = key\<close> Mk un show False by (cases b) auto
  qed
  then show ?thesis
    by (auto simp: remainderKw_eq map_of_eq_None_iff)
qed


lemma map_of_unique:
  "(i, v) \<in> set xs \<Longrightarrow> (\<And>w. (i, w) \<in> set xs \<Longrightarrow> w = v) \<Longrightarrow> map_of xs i = Some v"
  by (metis map_of_SomeD weak_map_of_SomeI)

text \<open>The sole sibling of a tapped handle is given its reading plus what the boards draw.\<close>

lemma remainderKw_single:
  assumes ids: "distinct (map e_id E)" and e: "e \<in> set E"
    and taps: "tapsAt S (endKey e b) E = [(e, b)]" and d: "M (endKey e b) = Some d"
    and other: "M (endKey e (\<not> b)) = None" and m: "metered_of e = Some m"
  shows "remainderKw S M E (e_id e) = Some (if b then m + d else m - d)"
proof -
  let ?v = "if b then m + d else m - d"
  have ok: "sib_ok M S (siblingsOf S M E) E" by (rule siblingsOf_ok)
  then have "map_of (siblingsOf S M E) (endKey e b) = Some [(e, b)]"
    using taps d by (simp add: sib_ok_def)
  then have "(endKey e b, [(e, b)]) \<in> set (siblingsOf S M E)" by (rule map_of_SomeD)
  moreover have "produced M (endKey e b, [(e, b)]) = Some (e_id e, ?v)"
    using d m by (cases b) (simp_all add: produced_def)
  ultimately have "(e_id e, ?v) \<in> set (rev (List.map_filter (produced M) (siblingsOf S M E)))"
    by (force simp: map_filter_def)
  moreover have "w = ?v"
    if "(e_id e, w) \<in> set (rev (List.map_filter (produced M) (siblingsOf S M E)))" for w
  proof -
    from that obtain key taps' where kt: "(key, taps') \<in> set (siblingsOf S M E)"
      and pr: "produced M (key, taps') = Some (e_id e, w)"
      by (auto simp: map_filter_def)
    then obtain e' b' where taps': "taps' = [(e', b')]" and id: "e_id e' = e_id e"
      by (auto simp: produced_def split: list.splits prod.splits option.splits)
    have "(e', b') \<in> set (tapsAt S key E)" and Mk: "M key \<noteq> None"
      using siblings_entry [OF kt] taps' by (metis list.set_intros(1), metis)
    then have "e' \<in> set E" and key: "endKey e' b' = key"
      by (auto simp: tapsAt_def tapEnds_def split: if_splits)
    with ids e id have "e' = e" by (auto simp: distinct_map dest: inj_onD)
    moreover from this key Mk other have "b' = b" by (cases b'; cases b) auto
    ultimately show ?thesis using pr taps' key d m by (cases b) (simp_all add: produced_def)
  qed
  ultimately show ?thesis
    unfolding remainderKw_eq by (rule map_of_unique)
qed

lemma feedEdge_untapped:
  assumes "distinct (map e_id E)" "e \<in> set E" "e_target e \<notin> set S"
    and "feedsAt S (endKey e True) E = []" "feedsAt S (endKey e False) E = []"
  shows "feedEdge r E S e = e"
proof -
  have "remainderKw S (drawnAt r E S) E (e_id e) = None"
    using assms by (intro remainderKw_untapped) (simp_all add: drawnAt_def)
  then show ?thesis using assms(3) by (simp add: feedEdge_def setRemainder_def)
qed

section \<open>The main consumer unit\<close>

lemma rawStep_inflow:
  "rawStep a e = a + (if countsForCu e then inflow CU_ID (e_wire e) (kw0 e) else 0)"
  by (simp add: rawStep_def inflow_def)

lemma unallocatedRaw_sum:
  "unallocatedRaw E = sum_list (map (\<lambda>e. inflow CU_ID (e_wire e) (kw0 e)) (filter countsForCu E))"
  unfolding unallocatedRaw_def rawStep_inflow foldl_plus_sum_list by (simp add: sum_list_map_filter')

lemma countsForCu_setUnallocated [simp]: "countsForCu (setUnallocated k r e) = countsForCu e"
  by (simp add: countsForCu_def)

lemma inflow_setUnallocated:
  "countsForCu e \<Longrightarrow> inflow n (e_wire (setUnallocated k r e)) (kw0 (setUnallocated k r e))
                  = inflow n (e_wire e) (kw0 e)"
  by (simp add: countsForCu_def setUnallocated_values)

lemma filter_setUnallocated:
  "filter countsForCu (map (setUnallocated k r) E) = map (setUnallocated k r) (filter countsForCu E)"
  by (induction E) simp_all

lemma unallocatedRaw_map: "unallocatedRaw (map (setUnallocated k r) E) = unallocatedRaw E"
  unfolding unallocatedRaw_sum filter_setUnallocated map_map comp_def
  by (intro sum_list_cong) (auto simp: setUnallocated_values countsForCu_def)

lemma unallocatedRaw_withUnallocated [simp]: "unallocatedRaw (withUnallocated E) = unallocatedRaw E"
  by (simp add: withUnallocated_def Let_def unallocatedRaw_map)

end
