(* ===== verification/CanvasFacts.thy ===== *)
theory CanvasFacts
  imports Canvas FlowFacts
begin

text \<open>
  Facts about the canvas handlers: the invariant of the canvas state and its preservation by every
  handler, what the deleting handlers remove and request, freshness of generated ids, and the
  equivalence of a batched frame with its reports delivered one by one.
\<close>

section \<open>Insertion-ordered id sets\<close>

lemma add_ids_Nil [simp]: "add_ids xs [] = xs"
  by (simp add: add_ids_def)

lemma add_ids_Cons [simp]: "add_ids xs (y # ys) = add_ids (if y \<in> set xs then xs else xs @ [y]) ys"
  by (simp add: add_ids_def)

lemma set_add_ids [simp]: "set (add_ids xs ys) = set xs \<union> set ys"
  by (induction ys arbitrary: xs) auto

lemma distinct_add_ids: "distinct xs \<Longrightarrow> distinct (add_ids xs ys)"
  by (induction ys arbitrary: xs) auto

lemma add_ids_eq_Nil [simp]: "add_ids [] ys = [] \<longleftrightarrow> ys = []"
  by (metis set_add_ids set_empty Un_empty)

section \<open>The invariant\<close>

definition node_ids :: "canvas \<Rightarrow> string set" where
  "node_ids cv = c_id ` set (cv_nodes cv)"

definition no_dangling :: "canvas \<Rightarrow> bool" where
  "no_dangling cv \<longleftrightarrow> (\<forall>e\<in>set (cv_edges cv). e_source e \<in> node_ids cv \<and> e_target e \<in> node_ids cv)"

definition counter_above :: "canvas \<Rightarrow> bool" where
  "counter_above cv \<longleftrightarrow>
     (\<forall>i\<in>node_ids cv. default_to 0 (id_number ''node_'' i) \<le> cv_nodeIdCounter cv)"

definition canvas_ok :: "canvas \<Rightarrow> bool" where
  "canvas_ok cv \<longleftrightarrow> distinct (map c_id (cv_nodes cv)) \<and> no_dangling cv \<and> counter_above cv"

definition ids_below :: "nat \<Rightarrow> string set \<Rightarrow> bool" where
  "ids_below k N \<longleftrightarrow> (\<forall>i\<in>N. default_to 0 (id_number ''node_'' i) \<le> k)"

lemma ids_below_mono: "ids_below k N \<Longrightarrow> M \<subseteq> N \<Longrightarrow> k \<le> k' \<Longrightarrow> ids_below k' M"
  unfolding ids_below_def by (meson order_trans subsetD)

lemma ids_below_Un [simp]: "ids_below k (M \<union> N) \<longleftrightarrow> ids_below k M \<and> ids_below k N"
  by (auto simp: ids_below_def)

lemma counter_above_ids: "counter_above cv \<longleftrightarrow> ids_below (cv_nodeIdCounter cv) (node_ids cv)"
  by (simp add: counter_above_def ids_below_def)

lemma fresh_name: "ids_below k N \<Longrightarrow> node_name (Suc k) \<notin> N"
  unfolding node_name_def
proof (rule decimal.prefixed_fresh)
  fix j assume "ids_below k N" and "''node_'' @ dec j \<in> N"
  then show "j \<le> k" unfolding ids_below_def by (metis id_number_dec default_to_simps(2))
qed simp

lemma fresh_id:
  assumes "counter_above cv"
  shows "node_name (Suc (cv_nodeIdCounter cv)) \<notin> node_ids cv"
  using assms fresh_name by (simp add: counter_above_ids)

text \<open>A handler that rewrites nodes in place, keeping ids, and edges, keeping wires.\<close>

lemma canvas_ok_transfer:
  assumes "canvas_ok cv" and "map c_id (cv_nodes cv') = map c_id (cv_nodes cv)"
    and "e_wire ` set (cv_edges cv') \<subseteq> e_wire ` set (cv_edges cv)"
    and "cv_nodeIdCounter cv' = cv_nodeIdCounter cv"
  shows "canvas_ok cv'"
proof -
  have ids: "node_ids cv' = node_ids cv"
    using assms(2) unfolding node_ids_def by (metis set_map)
  have "no_dangling cv'"
    unfolding no_dangling_def
  proof
    fix e assume "e \<in> set (cv_edges cv')"
    then obtain f where "f \<in> set (cv_edges cv)" "e_wire e = e_wire f"
      using assms(3) by blast
    with assms(1) show "e_source e \<in> node_ids cv' \<and> e_target e \<in> node_ids cv'"
      by (simp add: canvas_ok_def no_dangling_def ids)
  qed
  with assms(1,2) show ?thesis
    unfolding canvas_ok_def counter_above_def ids assms(4) by metis
qed

section \<open>Websocket reports\<close>

lemma updateNode_id [simp]: "c_id (updateNode P B SB n) = c_id n"
  by (simp add: updateNode_def Let_def)

lemma updateNode_key [simp]: "node_key (updateNode P B SB n) = node_key n"
  by (simp add: updateNode_def node_key_def Let_def)

lemma stampEdge_wiring [simp]: "e_id (stampEdge S R SB e) = e_id e" "e_wire (stampEdge S R SB e) = e_wire e"
  by (simp_all add: stampEdge_def Let_def split: option.split)

text \<open>Stamping readings on the edges is another pass that keeps the wiring.\<close>

interpretation stamped: wiring_preserving "\<lambda>E. map (stampEdge S R SB) E" for S R SB
  by unfold_locales simp

interpretation stamped_derived: wiring_preserving_pair "\<lambda>E. map (stampEdge S R SB) E" "\<lambda>E. withDerivedFlows E S'"
  for S R SB S'
  by unfold_locales

lemma applyEntries_frame:
  "map c_id (cv_nodes (applyEntries es cv)) = map c_id (cv_nodes cv)"
  "map (\<lambda>e. (e_id e, e_wire e)) (cv_edges (applyEntries es cv)) = map (\<lambda>e. (e_id e, e_wire e)) (cv_edges cv)"
  "cv_nodeIdCounter (applyEntries es cv) = cv_nodeIdCounter cv"
  "cv_standby (applyEntries es cv) = cv_standby cv"
  by (auto simp: applyEntries_def Let_def stamped_derived.comp.wiring comp_def)

lemma canvas_ok_applyEntries: "canvas_ok cv \<Longrightarrow> canvas_ok (applyEntries es cv)"
proof (rule canvas_ok_transfer)
  have "map e_wire (cv_edges (applyEntries es cv)) = map e_wire (cv_edges cv)"
    using arg_cong [OF applyEntries_frame(2) [of es cv], of "map snd"] by (simp add: comp_def)
  then show "e_wire ` set (cv_edges (applyEntries es cv)) \<subseteq> e_wire ` set (cv_edges cv)"
    by (metis order_refl set_map)
qed (simp_all add: applyEntries_frame)

lemma canvas_ok_addToast: "canvas_ok cv \<Longrightarrow> canvas_ok (fst (addToast m cv))"
  by (erule canvas_ok_transfer) (simp_all add: addToast_def Let_def)

lemma canvas_ok_handleWsMessage: "canvas_ok cv \<Longrightarrow> canvas_ok (fst (handleWsMessage m cv))"
  by (simp add: handleWsMessage_def canvas_ok_applyEntries canvas_ok_addToast split: ws_data.split)

section \<open>A batch equals its reports one by one\<close>

lemma map_of_accPower:
  "map_of (accPower P d) key =
     (if has_keys (powerFromAttribute (a_cluster d) (a_attribute d) (a_value d)) \<and> key = entry_key d
      then Some (pm_merge (default_to no_power (map_of P key))
                          (powerFromAttribute (a_cluster d) (a_attribute d) (a_value d)))
      else map_of P key)"
  by (simp add: accPower_def Let_def update_conv')

lemma map_of_accBattery:
  "map_of (accBattery B d) key =
     (if key = entry_key d
      then or_else (batteryPercentFromAttribute (a_cluster d) (a_attribute d) (a_value d)) (map_of B key)
      else map_of B key)"
  by (simp add: accBattery_def update_conv' split: option.split)

lemma powerByKey_snoc: "powerByKey (es @ [d]) = accPower (powerByKey es) d"
  by (simp add: powerByKey_def)

lemma batteryByKey_snoc: "batteryByKey (es @ [d]) = accBattery (batteryByKey es) d"
  by (simp add: batteryByKey_def)

abbreviation updateBy :: "attr_entry list \<Rightarrow> (string \<Rightarrow> rat option) \<Rightarrow> node \<Rightarrow> node" where
  "updateBy es SB \<equiv> updateNode (map_of (powerByKey es)) (map_of (batteryByKey es)) SB"

lemma updateNode_nothing [simp]: "updateNode Map.empty Map.empty SB = (\<lambda>n. n)"
  by (simp add: updateNode_def Let_def fun_eq_iff)

lemma applyEntries_nodes:
  "cv_nodes (applyEntries es cv) = map (updateBy es (cv_standby cv)) (cv_nodes cv)"
proof (cases "powerByKey es = [] \<and> batteryByKey es = []")
  case True
  then show ?thesis by (simp add: applyEntries_def)
next
  case False
  then show ?thesis by (auto simp: applyEntries_def Let_def)
qed

lemma powerByKey_single_key: "map_of (powerByKey [d]) key \<noteq> None \<Longrightarrow> key = entry_key d"
  using map_of_accPower [of "[]" d key] by (simp add: powerByKey_def split: if_splits)

lemma updateNode_compose:
  assumes P'': "P'' (node_key n) = (case P' (node_key n) of None \<Rightarrow> P (node_key n)
              | Some pm \<Rightarrow> Some (pm_merge (default_to no_power (P (node_key n))) pm))"
    and B'': "B'' (node_key n) = or_else (B' (node_key n)) (B (node_key n))"
  shows "updateNode P'' B'' SB n = updateNode P' B' SB (updateNode P B SB n)"
proof -
  have pmm: "pm_power (pm_merge a b) = or_else (pm_power b) (pm_power a)" for a b
    by (simp add: pm_merge_def)
  show ?thesis
    using P'' B''
    by (cases "P (node_key n)"; cases "P' (node_key n)"; cases "B (node_key n)"; cases "B' (node_key n)")
       (auto simp: updateNode_def Let_def node_key_def pm_merge_assoc pmm loadStatus_def
             or_else_def default_to_def split: option.splits)
qed

lemma updateBy_snoc: "updateBy (es @ [d]) SB n = updateBy [d] SB (updateBy es SB n)"
proof (rule updateNode_compose)
  let ?pm = "powerFromAttribute (a_cluster d) (a_attribute d) (a_value d)"
  show "map_of (powerByKey (es @ [d])) (node_key n) =
      (case map_of (powerByKey [d]) (node_key n) of None \<Rightarrow> map_of (powerByKey es) (node_key n)
       | Some pm \<Rightarrow> Some (pm_merge (default_to no_power (map_of (powerByKey es) (node_key n))) pm))"
    using powerByKey_snoc [of "[]" d] powerByKey_snoc [of es d]
    by (auto simp: map_of_accPower powerByKey_def)
  show "map_of (batteryByKey (es @ [d])) (node_key n) =
      or_else (map_of (batteryByKey [d]) (node_key n)) (map_of (batteryByKey es) (node_key n))"
    using batteryByKey_snoc [of "[]" d] batteryByKey_snoc [of es d]
    by (auto simp: map_of_accBattery batteryByKey_def)
qed

lemma nodes_one_by_one:
  "cv_nodes (foldl (\<lambda>c e. applyEntries [e] c) cv es) = map (updateBy es (cv_standby cv)) (cv_nodes cv)
   \<and> cv_standby (foldl (\<lambda>c e. applyEntries [e] c) cv es) = cv_standby cv"
proof (induction es rule: rev_induct)
  case Nil
  then show ?case by (simp add: powerByKey_def batteryByKey_def)
next
  case (snoc d es)
  then show ?case
    by (simp add: applyEntries_nodes applyEntries_frame(4) updateBy_snoc comp_def)
qed

section \<open>Deleting\<close>

lemma removeAll_ids_simps [simp]:
  "cv_nodes (fst (removeAll_ids ids cv)) = filter (\<lambda>n. c_id n \<notin> set ids) (cv_nodes cv)"
  "cv_edges (fst (removeAll_ids ids cv)) = filter (\<lambda>e. \<not> touches ids e) (cv_edges cv)"
  "cv_nodeIdCounter (fst (removeAll_ids ids cv)) = cv_nodeIdCounter cv"
  by (simp_all add: removeAll_ids_def)

lemma canvas_ok_removeAll_ids:
  assumes "canvas_ok cv"
  shows "canvas_ok (fst (removeAll_ids ids cv))"
proof -
  have ids: "node_ids (fst (removeAll_ids ids cv)) = node_ids cv - set ids"
    by (auto simp: node_ids_def)
  show ?thesis
    using assms
    by (auto simp: canvas_ok_def no_dangling_def counter_above_def ids touches_def distinct_map_filter)
qed

lemma canvas_ok_frame:
  "canvas_ok cv \<Longrightarrow> cv_nodes cv' = cv_nodes cv \<Longrightarrow> cv_edges cv' = cv_edges cv
     \<Longrightarrow> cv_nodeIdCounter cv' = cv_nodeIdCounter cv \<Longrightarrow> canvas_ok cv'"
  by (erule canvas_ok_transfer) simp_all

lemma deleteSubConsumerUnit_removeAll:
  "fst (deleteSubConsumerUnit i cv) = (fst (removeAll_ids (add_ids [i]
      (map e_target (filter (\<lambda>e. e_source e = i \<and> e_target e \<noteq> CU_ID) (cv_edges cv)))) cv))\<lparr>cv_nodeMenu := None\<rparr>"
  "snd (deleteSubConsumerUnit i cv) = snd (removeAll_ids (add_ids [i]
      (map e_target (filter (\<lambda>e. e_source e = i \<and> e_target e \<noteq> CU_ID) (cv_edges cv)))) cv)"
  by (simp_all add: deleteSubConsumerUnit_def Let_def split: prod.split)

lemma deleteLoad_removeAll:
  "fst (deleteLoad i cv) = (fst (removeAll_ids [i] cv))\<lparr>cv_nodeMenu := None\<rparr>"
  "snd (deleteLoad i cv) = snd (removeAll_ids [i] cv)"
  by (simp_all add: deleteLoad_def split: prod.split)

lemma canvas_ok_delete:
  assumes "canvas_ok cv"
  shows "canvas_ok (fst (handleKeyDown k cv))"
    and "canvas_ok (fst (deleteSubConsumerUnit i cv))"
    and "canvas_ok (fst (deleteLoad i cv))"
proof -
  show "canvas_ok (fst (handleKeyDown k cv))"
    using assms by (simp add: handleKeyDown_def Let_def canvas_ok_removeAll_ids)
  show "canvas_ok (fst (deleteSubConsumerUnit i cv))"
    unfolding deleteSubConsumerUnit_removeAll
    by (rule canvas_ok_frame [OF canvas_ok_removeAll_ids [OF assms]]) simp_all
  show "canvas_ok (fst (deleteLoad i cv))"
    unfolding deleteLoad_removeAll
    by (rule canvas_ok_frame [OF canvas_ok_removeAll_ids [OF assms]]) simp_all
qed

section \<open>Adding\<close>

lemma insertNode_simps [simp]:
  "cv_nodes (fst (insertNode ty pos l s cv)) = cv_nodes cv
      @ [new_node (node_name (Suc (cv_nodeIdCounter cv))) ty pos (plain_data l s)]"
  "cv_edges (fst (insertNode ty pos l s cv)) = cv_edges cv"
  "cv_nodeIdCounter (fst (insertNode ty pos l s cv)) = Suc (cv_nodeIdCounter cv)"
  "snd (insertNode ty pos l s cv) = [Fetch (PutNode (node_name (Suc (cv_nodeIdCounter cv))) (fst pos) (snd pos) (Some s))]"
  by (simp_all add: insertNode_def Let_def)

lemma c_id_new_node [simp]: "c_id (new_node i ty pos d) = i"
  by (simp add: new_node_def)

lemma canvas_ok_insertNode:
  assumes "canvas_ok cv"
  shows "canvas_ok (fst (insertNode ty pos l s cv))"
proof -
  let ?i = "node_name (Suc (cv_nodeIdCounter cv))"
  have ids: "node_ids (fst (insertNode ty pos l s cv)) = insert ?i (node_ids cv)"
    by (simp add: node_ids_def)
  have "id_number ''node_'' ?i = Some (Suc (cv_nodeIdCounter cv))"
    by (simp only: node_name_def id_number_dec)
  then have "counter_above (fst (insertNode ty pos l s cv))"
    using assms by (auto simp: canvas_ok_def counter_above_def ids)
  moreover have "?i \<notin> node_ids cv"
    using assms fresh_id by (simp add: canvas_ok_def)
  ultimately show ?thesis
    using assms by (auto simp: canvas_ok_def no_dangling_def ids) (auto simp: node_ids_def)
qed

lemma canvas_ok_add:
  assumes "canvas_ok cv"
  shows "canvas_ok (fst (onDrop r raw pos cv))"
    and "canvas_ok (fst (addSubConsumerUnit pos cv))"
    and "canvas_ok (fst (handleAddLoad toFlow dev cv))"
proof -
  show "canvas_ok (fst (onDrop r raw pos cv))"
    using assms by (simp add: onDrop_def canvas_ok_insertNode split: option.split)
  show "canvas_ok (fst (addSubConsumerUnit pos cv))"
    unfolding addSubConsumerUnit_def Let_def
    by (auto simp: case_prod_beta intro: canvas_ok_frame [OF canvas_ok_insertNode [OF assms]])
  show "canvas_ok (fst (handleAddLoad toFlow dev cv))"
    unfolding handleAddLoad_def Let_def
    by (auto split: option.split intro!: canvas_ok_insertNode canvas_ok_frame [OF assms])
qed

section \<open>The canvas as a step relation\<close>

text \<open>
  What the handlers rely on of React Flow: adding an edge adds at most that wire, and applying
  changes to the edges adds none.
\<close>

definition adds_at_most :: "(edge \<Rightarrow> edge list \<Rightarrow> edge list) \<Rightarrow> bool" where
  "adds_at_most addEdge \<longleftrightarrow> (\<forall>e E. e_wire ` set (addEdge e E) \<subseteq> insert (e_wire e) (e_wire ` set E))"

definition adds_none :: "(edge_change list \<Rightarrow> edge list \<Rightarrow> edge list) \<Rightarrow> bool" where
  "adds_none base \<longleftrightarrow> (\<forall>cs E. e_wire ` set (base cs E) \<subseteq> e_wire ` set E)"

text \<open>
  React Flow's own changes to the nodes: moving and selecting, and, on its own Backspace key,
  removing selected nodes.  It removes the edges at a node first (\<open>onEdgesChange\<close>), then the node.
\<close>

definition placed_as :: "node list \<Rightarrow> node list \<Rightarrow> bool" where
  "placed_as ns ms \<longleftrightarrow> list_all2 (\<lambda>n m. n = m\<lparr>c_x := c_x n, c_y := c_y n, c_selected := c_selected n\<rparr>) ns ms"

definition flow_removes :: "string set \<Rightarrow> canvas \<Rightarrow> canvas \<Rightarrow> bool" where
  "flow_removes gone cv cv' \<longleftrightarrow>
     (\<forall>e\<in>set (cv_edges cv). e_source e \<notin> gone \<and> e_target e \<notin> gone)
     \<and> cv' = cv\<lparr>cv_nodes := filter (\<lambda>n. c_id n \<notin> gone) (cv_nodes cv)\<rparr>"

lemma flow_removes_simps:
  assumes "flow_removes gone cv cv'"
  shows "node_ids cv' = node_ids cv - gone" "cv_edges cv' = cv_edges cv"
    "cv_nodeIdCounter cv' = cv_nodeIdCounter cv" "cv_nodes cv' = filter (\<lambda>n. c_id n \<notin> gone) (cv_nodes cv)"
  using assms by (auto simp: flow_removes_def node_ids_def)

lemma canvas_ok_flow_removes: "flow_removes gone cv cv' \<Longrightarrow> canvas_ok cv \<Longrightarrow> canvas_ok cv'"
  using flow_removes_simps [of gone cv cv']
  by (auto simp: flow_removes_def canvas_ok_def no_dangling_def counter_above_def distinct_map_filter)

lemma placed_map:
  assumes "placed_as ns ms" and "\<And>n x y b. f (n\<lparr>c_x := x, c_y := y, c_selected := b\<rparr>) = f n"
  shows "map f ns = map f ms"
proof -
  have "list_all2 (\<lambda>n m. f n = f m) ns ms"
    using assms(1) unfolding placed_as_def by (rule list_all2_mono) (metis assms(2))
  then show ?thesis by (simp add: list_all2_conv_all_nth list_eq_iff_nth_eq)
qed

lemma placed_ids: "placed_as ns ms \<Longrightarrow> map c_id ns = map c_id ms"
  by (erule placed_map) simp

text \<open>What the edit dialog makes of the settings it was opened with: a new label, or a new device.\<close>

definition edit_of :: "settings \<Rightarrow> settings \<Rightarrow> bool" where
  "edit_of s s' \<longleftrightarrow>
     (\<exists>l. s' = s\<lparr>s_label := Some l\<rparr>)
     \<or> (\<exists>nm l i e. s' = s\<lparr>s_name := Some nm, s_label := Some l, s_nodeId := Some i, s_endpointId := Some e\<rparr>)"

text \<open>
  One step is one handler call; React Flow offers a connection only between nodes it shows, and the
  circuit buttons belong to a board that is shown.  A save of the edit dialog is one step: its
  request, which succeeded, and the call of \<open>handleNodeEdited\<close>; the dialog covers the canvas, so
  that the node still has the settings the dialog was opened with.
\<close>

inductive canvas_step :: "(edge \<Rightarrow> edge list \<Rightarrow> edge list) \<Rightarrow> (edge_change list \<Rightarrow> edge list \<Rightarrow> edge list)
    \<Rightarrow> canvas \<Rightarrow> canvas \<times> effect list \<Rightarrow> bool"
  for addEdge base where
  ws: "canvas_step addEdge base cv (handleWsMessage m cv)"
| key: "canvas_step addEdge base cv (handleKeyDown k cv)"
| drop: "canvas_step addEdge base cv (onDrop r raw pos cv)"
| add_board: "canvas_step addEdge base cv (addSubConsumerUnit pos cv)"
| add_load: "canvas_step addEdge base cv (handleAddLoad toFlow dev cv)"
| delete_board: "canvas_step addEdge base cv (deleteSubConsumerUnit i cv)"
| delete_load: "canvas_step addEdge base cv (deleteLoad i cv)"
| edited: "cv_editNode cv = Some d \<Longrightarrow> n \<in> set (cv_nodes cv) \<Longrightarrow> c_id n = c_id d \<Longrightarrow> editSettings n = editSettings d \<Longrightarrow>
     edit_of (editSettings d) s \<Longrightarrow>
     canvas_step addEdge base cv (handleNodeEdited (c_id d) s cv, [Fetch (PutSettings (c_id d) s)])"
| circuits: "n \<in> set (cv_nodes cv) \<Longrightarrow> c_type n \<in> {Some ''subConsumerUnit'', Some ''henley''} \<Longrightarrow>
     canvas_step addEdge base cv (setCircuits n k cv)"
| connect: "w_source w \<in> node_ids cv \<Longrightarrow> w_target w \<in> node_ids cv \<Longrightarrow>
     canvas_step addEdge base cv (onConnect addEdge w cv)"
| edge_changes: "canvas_step addEdge base cv (onEdgesChange base cs cv)"
| double_click: "canvas_step addEdge base cv (onNodeDoubleClick n cv, [])"
| node_menu: "canvas_step addEdge base cv (onNodeContextMenu n x y cv, [])"
| pane_menu: "canvas_step addEdge base cv (onPaneContextMenu pos cv, [])"
| dismiss: "canvas_step addEdge base cv (dismissToast t cv, [])"
| drag_stop: "canvas_step addEdge base cv (cv, onNodeDragStop n)"
| nodes_change: "placed_as ns (cv_nodes cv) \<Longrightarrow> canvas_step addEdge base cv (cv\<lparr>cv_nodes := ns\<rparr>, [])"
| overlay: "f \<in> set overlay_updates \<Longrightarrow> canvas_step addEdge base cv (f cv, [])"

inductive_cases canvas_stepE: "canvas_step addEdge base cv r"

lemma counter_step: "canvas_step addEdge base cv r \<Longrightarrow> cv_nodeIdCounter cv \<le> cv_nodeIdCounter (fst r)"
proof (induction rule: canvas_step.induct)
  case (ws cv m)
  then show ?case by (simp add: handleWsMessage_def applyEntries_frame addToast_def Let_def split: ws_data.split)
next
  case (delete_board cv i)
  then show ?case by (simp add: deleteSubConsumerUnit_removeAll removeAll_ids_def)
next
  case (delete_load cv i)
  then show ?case by (simp add: deleteLoad_removeAll removeAll_ids_def)
next
  case (key cv k)
  then show ?case by (auto simp: handleKeyDown_def Let_def removeAll_ids_def)
next
  case (overlay f cv)
  then show ?case using overlay_frame [of f cv] by simp
qed (auto simp: onDrop_def addSubConsumerUnit_def handleAddLoad_def handleNodeEdited_def setCircuits_def onNodeDoubleClick_def
      onNodeContextMenu_def onPaneContextMenu_def dismissToast_def insertNode_def Let_def case_prod_beta onConnect_def
      onEdgesChange_def split: option.splits)

inductive canvas_run :: "(edge \<Rightarrow> edge list \<Rightarrow> edge list) \<Rightarrow> (edge_change list \<Rightarrow> edge list \<Rightarrow> edge list)
    \<Rightarrow> canvas \<Rightarrow> canvas \<Rightarrow> bool"
  for addEdge base where
  here: "canvas_run addEdge base cv cv"
| more: "canvas_run addEdge base cv cv' \<Longrightarrow> canvas_step addEdge base cv' (cv'', effs)
     \<Longrightarrow> canvas_run addEdge base cv cv''"
| removed: "canvas_run addEdge base cv cv' \<Longrightarrow> flow_removes gone cv' cv'' \<Longrightarrow> canvas_run addEdge base cv cv''"

lemma canvas_ok_edit:
  assumes "canvas_ok cv"
  shows "canvas_ok (handleNodeEdited i s cv)" and "canvas_ok (fst (setCircuits n k cv))"
proof -
  show "canvas_ok (handleNodeEdited i s cv)"
    by (rule canvas_ok_transfer [OF assms])
      (simp_all add: handleNodeEdited_def editedNode_def Let_def comp_def)
  have ids: "map (\<lambda>x. c_id (if c_id x \<noteq> c_id n then x else x\<lparr>c_data := f x\<rparr>)) ns = map c_id ns" for f ns
    by simp
  show "canvas_ok (fst (setCircuits n k cv))"
    by (rule canvas_ok_transfer [OF assms]) (simp_all add: setCircuits_def Let_def comp_def ids)
qed

lemma canvas_ok_wires:
  assumes "canvas_ok cv"
  shows "adds_at_most addEdge \<Longrightarrow> w_source w \<in> node_ids cv \<Longrightarrow> w_target w \<in> node_ids cv
      \<Longrightarrow> canvas_ok (fst (onConnect addEdge w cv))"
    and "adds_none base \<Longrightarrow> canvas_ok (fst (onEdgesChange base cs cv))"
proof -
  assume add: "adds_at_most addEdge" and w: "w_source w \<in> node_ids cv" "w_target w \<in> node_ids cv"
  have wire: "e_wire (connect_edge w) = w" by (simp add: connect_edge_def)
  have "e_wire ` set (addEdge (connect_edge w) (cv_edges cv)) \<subseteq> insert w (e_wire ` set (cv_edges cv))"
    using add wire unfolding adds_at_most_def by metis
  then have "\<forall>e\<in>set (addEdge (connect_edge w) (cv_edges cv)).
      e_source e \<in> node_ids cv \<and> e_target e \<in> node_ids cv"
    using assms w by (fastforce simp: canvas_ok_def no_dangling_def)
  then show "canvas_ok (fst (onConnect addEdge w cv))"
    using assms by (simp add: onConnect_def canvas_ok_def no_dangling_def counter_above_def node_ids_def)
next
  assume "adds_none base"
  then show "canvas_ok (fst (onEdgesChange base cs cv))"
    by (intro canvas_ok_transfer [OF assms]) (simp_all add: onEdgesChange_def adds_none_def)
qed

lemma canvas_ok_step:
  "canvas_step addEdge base cv r \<Longrightarrow> adds_at_most addEdge \<Longrightarrow> adds_none base \<Longrightarrow> canvas_ok cv \<Longrightarrow> canvas_ok (fst r)"
proof (induction rule: canvas_step.induct)
  case (double_click cv n)
  then show ?case by (auto simp: onNodeDoubleClick_def intro: canvas_ok_frame)
next
  case (node_menu cv n x y)
  then show ?case by (auto simp: onNodeContextMenu_def intro: canvas_ok_frame)
next
  case (pane_menu cv pos)
  then show ?case by (auto simp: onPaneContextMenu_def intro: canvas_ok_frame)
next
  case (dismiss cv t)
  then show ?case by (auto simp: dismissToast_def intro: canvas_ok_frame)
next
  case (nodes_change ns cv)
  then show ?case by (auto intro!: canvas_ok_transfer [of cv] simp: placed_ids)
next
  case (overlay f cv)
  then show ?case using overlay_frame [of f cv] by (auto intro: canvas_ok_frame)
qed (simp_all add: canvas_ok_handleWsMessage canvas_ok_delete canvas_ok_add canvas_ok_edit canvas_ok_wires)

end
