(* ===== verification/CanvasLoad.thy ===== *)
theory CanvasLoad
  imports CanvasFacts
begin

text \<open>
  Loading the canvas (\<open>onInit\<close> of \<open>Topology.tsx\<close>): the learned standbys, the restored nodes with
  their cached readings, the fixed Unallocated node and its feed, the id counter, the edges with
  their derived flows, and the stored zoom.
\<close>

section \<open>Learned standbys\<close>

record profile =
  pr_graph_id :: string
  pr_trained :: bool
  pr_standby_w :: "rat option"

definition profileStandby :: "profile \<Rightarrow> rat" where
  "profileStandby p =
     (let w = (if pr_trained p then default_to 0 (pr_standby_w p) else 0)
      in if w \<le> STANDBY_BAND_HALF_W then 0 else w)"

definition standbyMap :: "profile list \<Rightarrow> string \<Rightarrow> rat option" where
  "standbyMap ps = foldl (\<lambda>m p. m(pr_graph_id p \<mapsto> profileStandby p)) Map.empty ps"

section \<open>Restored nodes\<close>

definition valuesPower :: "value_entry list \<Rightarrow> power_measurement" where
  "valuesPower vs = foldl (\<lambda>acc v. pm_merge acc (powerFromAttribute (v_cluster v) (v_attribute v) (v_value v))) no_power vs"

definition valuesBattery :: "value_entry list \<Rightarrow> rat option" where
  "valuesBattery vs = foldl (\<lambda>acc v. or_else (batteryPercentFromAttribute (v_cluster v) (v_attribute v) (v_value v)) acc) None vs"

definition restoredNode :: "(string \<Rightarrow> rat option) \<Rightarrow> saved_node \<Rightarrow> node" where
  "restoredNode SB n =
     (let s = n_settings n;
          power = valuesPower (default_to [] (n_values n));
          standbyW = SB (n_id n);
          status = (case standbyW of None \<Rightarrow> None | Some w \<Rightarrow> loadStatus (pm_power power) w)
      in \<lparr>c_id = n_id n, c_type = opt_field s_type s, c_x = n_x n, c_y = n_y n, c_draggable = True,
          c_deletable = Some (opt_field s_deletable s \<noteq> Some False), c_selected = False,
          c_data = \<lparr>nd_label = shown_label (n_id n) s,
            nd_nodeId = opt_field s_nodeId s, nd_endpointId = opt_field s_endpointId s,
            nd_power = (if has_keys power then Some power else None),
            nd_battery = valuesBattery (default_to [] (n_values n)),
            nd_standbyW = standbyW, nd_status = status,
            nd_outputs = opt_field s_outputs s, nd_circuits = opt_field s_circuits s,
            nd_settings = Some (default_to no_settings s)\<rparr>\<rparr>)"

definition unallocatedPos :: "saved_node list \<Rightarrow> rat \<times> rat" where
  "unallocatedPos ns =
     (case find (\<lambda>n. n_id n = CU_ID) ns of
        None \<Rightarrow> (0, - 140)
      | Some cu \<Rightarrow> (n_x cu, n_y cu - 140))"

definition unallocatedSettings :: settings where
  "unallocatedSettings =
     no_settings\<lparr>s_label := Some ''Unallocated'', s_type := Some ''unallocated'', s_deletable := Some False\<rparr>"

definition unallocatedNode :: "rat \<times> rat \<Rightarrow> node" where
  "unallocatedNode pos =
     (new_node UNALLOCATED_ID ''unallocated'' pos (plain_data ''Unallocated'' unallocatedSettings))
       \<lparr>c_deletable := Some False\<rparr>"

definition restoredNodes :: "(string \<Rightarrow> rat option) \<Rightarrow> saved_node list \<Rightarrow> node list \<times> effect list" where
  "restoredNodes SB ns =
     (let rs = map (restoredNode SB) ns; pos = unallocatedPos ns in
      if \<exists>n\<in>set rs. c_id n = UNALLOCATED_ID then (rs, [])
      else (rs @ [unallocatedNode pos],
            [Fetch (PutNode UNALLOCATED_ID (fst pos) (snd pos) (Some unallocatedSettings))]))"

definition restoredCounter :: "nat \<Rightarrow> node list \<Rightarrow> nat" where
  "restoredCounter k ns =
     foldl (\<lambda>a n. case id_number ''node_'' (c_id n) of None \<Rightarrow> a | Some m \<Rightarrow> max a m) k ns"

section \<open>Restored edges\<close>

definition saved_wire :: "saved_edge \<Rightarrow> wire" where
  "saved_wire e = \<lparr>w_source = se_source e, w_target = se_target e,
     w_sourceHandle = se_sourceHandle e, w_targetHandle = se_targetHandle e\<rparr>"

definition powerByNode :: "saved_node list \<Rightarrow> string \<Rightarrow> power_measurement option" where
  "powerByNode ns =
     foldl (\<lambda>m n. let power = valuesPower (default_to [] (n_values n)) in
              if has_keys power then m(n_id n \<mapsto> power) else m) Map.empty ns"

definition restoredEdge :: "(string \<Rightarrow> power_measurement option) \<Rightarrow> (string \<Rightarrow> rat option)
    \<Rightarrow> saved_edge \<Rightarrow> edge" where
  "restoredEdge P SB e =
     (if isTariffEdge (se_sourceHandle e) (se_targetHandle e)
      then \<lparr>e_id = se_id e, e_wire = saved_wire e, e_look = TariffLine, e_deletable = True,
            e_selectable = True, e_data = None\<rparr>
      else
        let meteredId = edgePowerNodeId (saved_wire e);
            power = opt_field pm_power (P meteredId);
            status = (case SB meteredId of None \<Rightarrow> None | Some w \<Rightarrow> loadStatus power w);
            kw = (case power of None \<Rightarrow> 0 | Some p \<Rightarrow> edgeKw (saved_wire e) meteredId p)
        in \<lparr>e_id = se_id e, e_wire = saved_wire e, e_look = PowerFlow, e_deletable = True,
            e_selectable = True,
            e_data = Some (no_data\<lparr>d_kw := Some kw, d_meteredKw := Some kw,
                       d_idle := Some (status \<noteq> None \<and> status \<noteq> Some Running)\<rparr>)\<rparr>)"

definition unallocatedEdge :: edge where
  "unallocatedEdge =
     \<lparr>e_id = UNALLOCATED_EDGE_ID,
      e_wire = \<lparr>w_source = CU_ID, w_target = UNALLOCATED_ID,
                w_sourceHandle = Some ''unallocated'', w_targetHandle = Some ''power-in''\<rparr>,
      e_look = PowerFlow, e_deletable = False, e_selectable = False,
      e_data = Some (no_data\<lparr>d_kw := Some 0\<rparr>)\<rparr>"

definition restoredEdges :: "(string \<Rightarrow> power_measurement option) \<Rightarrow> (string \<Rightarrow> rat option)
    \<Rightarrow> saved_edge list \<Rightarrow> edge list" where
  "restoredEdges P SB es =
     map (restoredEdge P SB) (filter (\<lambda>e. se_id e \<noteq> UNALLOCATED_EDGE_ID) es) @ [unallocatedEdge]"

section \<open>The whole load\<close>

text \<open>
  \<open>None\<close> is a failed request: for the profiles the canvas falls back to none, for the graph it is
  left as it was.  The graph's \<open>edges\<close> may be missing.
\<close>

definition onInit :: "profile list option \<Rightarrow> (saved_node list \<times> saved_edge list option) option
    \<Rightarrow> canvas \<Rightarrow> canvas \<times> effect list" where
  "onInit profiles graph cv =
     (case graph of
        None \<Rightarrow> (cv, [])
      | Some (ns, es) \<Rightarrow>
          let SB = standbyMap (default_to [] profiles);
              (nodes, effs) = restoredNodes SB ns
          in (cv\<lparr>cv_standby := SB, cv_nodes := nodes,
                 cv_nodeIdCounter := restoredCounter (cv_nodeIdCounter cv) nodes,
                 cv_edges := withDerivedFlows (restoredEdges (powerByNode ns) SB (default_to [] es))
                               (subCuIdsOf nodes)\<rparr>, effs))"

section \<open>The stored zoom\<close>

definition MIN_ZOOM :: rat where "MIN_ZOOM = 1 / 5"
definition MAX_ZOOM :: rat where "MAX_ZOOM = 2"

text \<open>
  \<open>parseFloat\<close>: the longest decimal literal the trimmed text starts with; \<open>None\<close> is NaN or an
  infinity, which \<open>Number.isFinite\<close> rejects alike.
\<close>

definition frac_val :: "string \<Rightarrow> rat" where
  "frac_val s = of_nat (digits_val s) / 10 ^ length s"

definition exponent :: "string \<Rightarrow> rat" where
  "exponent s =
     (case s of
        c # r \<Rightarrow>
          if c = CHR ''e'' \<or> c = CHR ''E'' then
            (let neg = (case r of d # _ \<Rightarrow> d = CHR ''-'' | [] \<Rightarrow> False);
                 r' = (case r of d # q \<Rightarrow> if d = CHR ''-'' \<or> d = CHR ''+'' then q else r | [] \<Rightarrow> r);
                 ds = takeWhile is_digit r'
             in if ds = [] then 1 else if neg then 1 / 10 ^ digits_val ds else 10 ^ digits_val ds)
          else 1
      | [] \<Rightarrow> 1)"

definition parse_unsigned :: "string \<Rightarrow> rat option" where
  "parse_unsigned s =
     (let ds = takeWhile is_digit s; r = dropWhile is_digit s;
          fs = (case r of c # q \<Rightarrow> if c = CHR ''.'' then takeWhile is_digit q else [] | [] \<Rightarrow> []);
          r' = (case r of c # q \<Rightarrow> if c = CHR ''.'' then dropWhile is_digit q else r | [] \<Rightarrow> r)
      in if ds = [] \<and> fs = [] then None
         else Some ((of_nat (digits_val ds) + frac_val fs) * exponent r'))"

definition parseFloat :: "string \<Rightarrow> rat option" where
  "parseFloat raw =
     (case dropWhile is_space raw of
        [] \<Rightarrow> None
      | c # r \<Rightarrow>
          if c = CHR ''-'' then (case parse_unsigned r of None \<Rightarrow> None | Some x \<Rightarrow> Some (- x))
          else if c = CHR ''+'' then parse_unsigned r
          else parse_unsigned (c # r))"

text \<open>Local storage may be unavailable, in which case every access throws.\<close>

datatype storage = Unavailable | Stored "string option"

definition readStoredZoom :: "storage \<Rightarrow> rat option" where
  "readStoredZoom st =
     (case st of
        Unavailable \<Rightarrow> None
      | Stored None \<Rightarrow> None
      | Stored (Some raw) \<Rightarrow>
          (case parseFloat raw of
             None \<Rightarrow> None
           | Some zoom \<Rightarrow> if zoom < MIN_ZOOM \<or> zoom > MAX_ZOOM then None else Some zoom))"

text \<open>\<open>shown\<close> is the text \<open>String(zoom)\<close> gives.\<close>

definition writeStoredZoom :: "string \<Rightarrow> storage \<Rightarrow> storage" where
  "writeStoredZoom shown st = (case st of Unavailable \<Rightarrow> Unavailable | Stored _ \<Rightarrow> Stored (Some shown))"

text \<open>\<open>onMoveEnd\<close>, and the viewport \<open>onInit\<close> asks for: the centre and the zoom.\<close>

definition onMoveEnd :: "(rat \<Rightarrow> string) \<Rightarrow> rat \<Rightarrow> storage \<Rightarrow> storage" where
  "onMoveEnd String zoom st = writeStoredZoom (String zoom) st"

definition initialCentre :: "storage \<Rightarrow> saved_node list \<Rightarrow> rat \<times> rat \<times> rat" where
  "initialCentre st ns =
     (let cu = find (\<lambda>n. n_id n = CU_ID) ns in
      ((case cu of None \<Rightarrow> 0 | Some n \<Rightarrow> n_x n) + 75,
       (case cu of None \<Rightarrow> 0 | Some n \<Rightarrow> n_y n) + 18,
       default_to 1 (readStoredZoom st)))"

section \<open>Facts\<close>

lemma restoredNode_id [simp]: "c_id (restoredNode SB n) = n_id n"
  by (simp add: restoredNode_def Let_def)

lemma restoredNodes_ids:
  "map c_id (fst (restoredNodes SB ns)) =
     map n_id ns @ (if UNALLOCATED_ID \<in> n_id ` set ns then [] else [UNALLOCATED_ID])"
proof -
  have "(\<exists>n\<in>set (map (restoredNode SB) ns). c_id n = UNALLOCATED_ID) \<longleftrightarrow> UNALLOCATED_ID \<in> n_id ` set ns"
    by force
  then show ?thesis
    by (simp add: restoredNodes_def Let_def comp_def unallocatedNode_def del: bex_simps)
qed

lemma restoredCounter_ge: "k \<le> restoredCounter k ns"
  unfolding restoredCounter_def
  by (induction ns arbitrary: k) (auto split: option.splits intro: order_trans [OF max.cobounded1])

lemma restoredCounter_mem:
  assumes "n \<in> set ns" "id_number ''node_'' (c_id n) = Some m"
  shows "m \<le> restoredCounter k ns"
  using assms
proof (induction ns arbitrary: k)
  case (Cons a ns)
  have step: "restoredCounter k (a # ns) =
      restoredCounter (case id_number ''node_'' (c_id a) of None \<Rightarrow> k | Some m \<Rightarrow> max k m) ns" for k
    by (simp add: restoredCounter_def)
  show ?case
  proof (cases "n = a")
    case True
    then show ?thesis
      using Cons.prems(2) restoredCounter_ge [of "max k m" ns] by (simp add: step)
  next
    case False
    then show ?thesis using Cons by (simp add: step)
  qed
qed simp

lemma restoredEdge_wiring [simp]:
  "e_id (restoredEdge P SB e) = se_id e" "e_wire (restoredEdge P SB e) = saved_wire e"
  by (simp_all add: restoredEdge_def Let_def)

lemma unallocatedEdge_wire [simp]:
  "e_id unallocatedEdge = UNALLOCATED_EDGE_ID"
  "e_source unallocatedEdge = CU_ID" "e_target unallocatedEdge = UNALLOCATED_ID"
  by (simp_all add: unallocatedEdge_def)

lemma onInit_Some:
  "cv_nodes (fst (onInit ps (Some (ns, es)) cv)) = fst (restoredNodes (standbyMap (default_to [] ps)) ns)"
  "cv_edges (fst (onInit ps (Some (ns, es)) cv)) =
     withDerivedFlows (restoredEdges (powerByNode ns) (standbyMap (default_to [] ps)) (default_to [] es))
       (subCuIdsOf (fst (restoredNodes (standbyMap (default_to [] ps)) ns)))"
  "cv_nodeIdCounter (fst (onInit ps (Some (ns, es)) cv)) =
     restoredCounter (cv_nodeIdCounter cv) (fst (restoredNodes (standbyMap (default_to [] ps)) ns))"
  "cv_standby (fst (onInit ps (Some (ns, es)) cv)) = standbyMap (default_to [] ps)"
  "snd (onInit ps (Some (ns, es)) cv) = snd (restoredNodes (standbyMap (default_to [] ps)) ns)"
  by (simp_all add: onInit_def Let_def split: prod.split)

text \<open>The saved graph: unique ids, the consumer unit present, edges between saved nodes.\<close>

definition graph_ok :: "saved_node list \<Rightarrow> saved_edge list \<Rightarrow> bool" where
  "graph_ok ns es \<longleftrightarrow>
     distinct (map n_id ns) \<and> CU_ID \<in> n_id ` set ns
     \<and> (\<forall>e\<in>set es. {se_source e, se_target e} \<subseteq> insert UNALLOCATED_ID (n_id ` set ns))"

text \<open>The cached values of a node, as the reports that would have delivered them.\<close>

definition as_report :: "nat \<Rightarrow> nat \<Rightarrow> value_entry \<Rightarrow> attr_entry" where
  "as_report m e v = \<lparr>a_nodeId = m, a_endpointId = e, a_cluster = v_cluster v,
                      a_attribute = v_attribute v, a_value = v_value v\<rparr>"

lemma reports_power:
  "map_of (powerByKey (map (as_report m e) vs)) (measure_key (Some m) (Some e)) =
     (if has_keys (valuesPower vs) then Some (valuesPower vs) else None)"
proof (induction vs rule: rev_induct)
  case Nil
  show ?case by (simp add: powerByKey_def valuesPower_def has_keys_iff)
next
  case (snoc v vs)
  have step: "valuesPower (vs @ [v])
      = pm_merge (valuesPower vs) (powerFromAttribute (v_cluster v) (v_attribute v) (v_value v))"
    by (simp add: valuesPower_def)
  have none: "pm = no_power" if "\<not> has_keys pm" for pm
    using that by (simp add: has_keys_iff)
  show ?case
    using snoc.IH none [of "valuesPower vs"]
      none [of "powerFromAttribute (v_cluster v) (v_attribute v) (v_value v)"]
    by (cases "has_keys (valuesPower vs)";
        cases "has_keys (powerFromAttribute (v_cluster v) (v_attribute v) (v_value v))")
       (simp_all add: powerByKey_snoc map_of_accPower entry_key_def as_report_def step has_keys_merge)
qed

lemma reports_battery:
  "map_of (batteryByKey (map (as_report m e) vs)) (measure_key (Some m) (Some e)) = valuesBattery vs"
proof (induction vs rule: rev_induct)
  case Nil
  show ?case by (simp add: batteryByKey_def valuesBattery_def)
next
  case (snoc v vs)
  then show ?case
    by (simp add: batteryByKey_snoc map_of_accBattery entry_key_def as_report_def valuesBattery_def)
qed

end
