(* ===== verification/StoreSync.thy ===== *)
theory StoreSync
  imports MockServer CanvasLoad
begin

text \<open>
  The canvas and the graph store behind it.  What the canvas relies on of the store is the
  interface \<open>graph_store\<close>; inside it, every handler is shown to leave the canvas and the store in
  agreement once its requests are served.  The development server is an instance.
\<close>

section \<open>The interface\<close>

locale graph_store =
  fixes run :: "request \<Rightarrow> 's \<Rightarrow> 's" and nodes :: "'s \<Rightarrow> string set" and edges :: "'s \<Rightarrow> (string \<times> wire) set"
  assumes put_node: "nodes (run (PutNode i x y s) t) = insert i (nodes t)" "edges (run (PutNode i x y s) t) = edges t"
    and put_settings: "nodes (run (PutSettings i st) t) = insert i (nodes t)" "edges (run (PutSettings i st) t) = edges t"
    and delete_node: "nodes (run (DeleteNode i) t) = nodes t - {i}"
      "edges (run (DeleteNode i) t) = {p \<in> edges t. w_source (snd p) \<noteq> i \<and> w_target (snd p) \<noteq> i}"
    and delete_edge: "nodes (run (DeleteEdge i) t) = nodes t" "edges (run (DeleteEdge i) t) = {p \<in> edges t. fst p \<noteq> i}"
    and post_edge: "nodes (run (PostEdge e) t) = nodes t"
      "se_id e \<notin> fst ` edges t \<Longrightarrow> edges (run (PostEdge e) t) = insert (se_id e, saved_wire e) (edges t)"
      "(se_id e, saved_wire e) \<in> edges t \<Longrightarrow> edges (run (PostEdge e) t) = edges t"

text \<open>The edges of the canvas that are saved: all but the feed of the Unallocated node.\<close>

definition savedEdges :: "canvas \<Rightarrow> (string \<times> wire) set" where
  "savedEdges cv = (\<lambda>e. (e_id e, e_wire e)) ` {e \<in> set (cv_edges cv). e_id e \<noteq> UNALLOCATED_EDGE_ID}"

definition agrees :: "canvas \<Rightarrow> string set \<Rightarrow> (string \<times> wire) set \<Rightarrow> bool" where
  "agrees cv N E \<longleftrightarrow> node_ids cv = N \<and> savedEdges cv = E"

text \<open>
  The same when React Flow has taken nodes off the canvas that the page never deleted on the server:
  the store still has these.
\<close>

definition agrees_but :: "string set \<Rightarrow> canvas \<Rightarrow> string set \<Rightarrow> (string \<times> wire) set \<Rightarrow> bool" where
  "agrees_but L cv N E \<longleftrightarrow> node_ids cv \<union> L = N \<and> savedEdges cv = E"

lemma agrees_but_none [simp]: "agrees_but {} cv N E \<longleftrightarrow> agrees cv N E"
  by (simp add: agrees_but_def agrees_def)

text \<open>The nodes a list of requests deletes.\<close>

definition deleted :: "effect list \<Rightarrow> string set" where
  "deleted effs = {i. Fetch (DeleteNode i) \<in> set effs}"

lemma deleted_simps [simp]:
  "deleted [] = {}" "deleted (Fetch (DeleteNode i) # es) = insert i (deleted es)"
  "deleted (Fetch (PutNode i x y s) # es) = deleted es" "deleted (Fetch (PutSettings i st) # es) = deleted es"
  "deleted (Fetch (PostEdge e) # es) = deleted es" "deleted (Fetch (DeleteEdge i) # es) = deleted es"
  "deleted (DismissAfter a b # es) = deleted es" "deleted (xs @ ys) = deleted xs \<union> deleted ys"
  by (auto simp: deleted_def)

text \<open>The id a wire drawn on the canvas is saved under, as every edge the pages and the server make has it.\<close>

definition canonical_edges :: "(string \<times> wire) set \<Rightarrow> bool" where
  "canonical_edges E \<longleftrightarrow> (\<forall>p\<in>E. fst p = connect_id (snd p))"

definition requests :: "effect list \<Rightarrow> request list" where
  "requests effs = List.map_filter (\<lambda>e. case e of Fetch r \<Rightarrow> Some r | DismissAfter _ _ \<Rightarrow> None) effs"

lemma requests_simps [simp]:
  "requests [] = []" "requests (Fetch r # es) = r # requests es" "requests (DismissAfter a b # es) = requests es"
  "requests (xs @ ys) = requests xs @ requests ys" "requests (map (\<lambda>x. Fetch (f x)) zs) = map f zs"
  by (simp_all add: requests_def map_filter_def comp_def)

text \<open>Handlers that only rewrite node data and edge data.\<close>

definition same_shape :: "canvas \<Rightarrow> canvas \<Rightarrow> bool" where
  "same_shape cv cv' \<longleftrightarrow>
     map c_id (cv_nodes cv') = map c_id (cv_nodes cv)
     \<and> map (\<lambda>e. (e_id e, e_wire e)) (cv_edges cv') = map (\<lambda>e. (e_id e, e_wire e)) (cv_edges cv)"

lemma savedEdges_alt:
  "savedEdges cv = {p \<in> set (map (\<lambda>e. (e_id e, e_wire e)) (cv_edges cv)). fst p \<noteq> UNALLOCATED_EDGE_ID}"
  by (auto simp: savedEdges_def)

lemma node_ids_alt: "node_ids cv = set (map c_id (cv_nodes cv))"
  by (simp add: node_ids_def)

lemma same_shape_agrees: "same_shape cv cv' \<Longrightarrow> agrees_but L cv N E \<longleftrightarrow> agrees_but L cv' N E"
  unfolding agrees_but_def same_shape_def node_ids_alt savedEdges_alt by simp

section \<open>The canvas library\<close>

text \<open>
  React Flow's \<open>addEdge\<close> leaves the edges alone when one of them joins the same handles, whatever its
  id, or when the new one has no source or no target; otherwise it appends it.  A handle that is
  missing and an empty one are the same.  \<open>applyEdgeChanges\<close> removes exactly the edges it is told to.
\<close>

definition same_connection :: "wire \<Rightarrow> wire \<Rightarrow> bool" where
  "same_connection v w \<longleftrightarrow> w_source v = w_source w \<and> w_target v = w_target w
     \<and> default_to [] (w_sourceHandle v) = default_to [] (w_sourceHandle w)
     \<and> default_to [] (w_targetHandle v) = default_to [] (w_targetHandle w)"

definition flow_addEdge :: "edge \<Rightarrow> edge list \<Rightarrow> edge list" where
  "flow_addEdge e E =
     (if e_source e = [] \<or> e_target e = [] \<or> (\<exists>f\<in>set E. same_connection (e_wire f) (e_wire e)) then E else E @ [e])"

definition drop_removed :: "edge_change list \<Rightarrow> edge list \<Rightarrow> edge list" where
  "drop_removed cs E = filter (\<lambda>e. RemoveEdge (e_id e) \<notin> set cs) E"

definition library_spec :: "(edge \<Rightarrow> edge list \<Rightarrow> edge list) \<Rightarrow> (edge_change list \<Rightarrow> edge list \<Rightarrow> edge list) \<Rightarrow> bool" where
  "library_spec addEdge base \<longleftrightarrow>
     (\<forall>e E. addEdge e E = flow_addEdge e E) \<and> (\<forall>cs E. base cs E = drop_removed cs E)"

lemma same_connection_refl [simp]: "same_connection w w"
  by (simp add: same_connection_def)

lemma same_connection_id: "same_connection v w \<Longrightarrow> connect_id v = connect_id w"
  by (simp add: same_connection_def connect_id_def)

lemma connect_edge_simps [simp]: "e_id (connect_edge w) = connect_id w" "e_wire (connect_edge w) = w"
  by (simp_all add: connect_edge_def)

lemma flow_library: "library_spec flow_addEdge drop_removed"
  by (simp add: library_spec_def)

lemma library_facts:
  assumes "library_spec addEdge base"
  shows "adds_at_most addEdge" "adds_none base"
  using assms by (auto simp: library_spec_def flow_addEdge_def drop_removed_def adds_at_most_def adds_none_def)

text \<open>
  Requests about existing objects name nodes the canvas shows.  A connection joins nodes with
  non-empty ids, is not the feed of the Unallocated node (whose handles take no connections), and
  its id is not yet that of another wire: ids are joined with dashes, so that different wires
  can share one.
\<close>

definition names_known :: "canvas \<Rightarrow> effect list \<Rightarrow> bool" where
  "names_known cv effs \<longleftrightarrow>
     (\<forall>i s. Fetch (PutSettings i s) \<in> set effs \<longrightarrow> i \<in> node_ids cv)
     \<and> (\<forall>i x y. Fetch (PutNode i x y None) \<in> set effs \<longrightarrow> i \<in> node_ids cv)
     \<and> (\<forall>e. Fetch (PostEdge e) \<in> set effs \<longrightarrow>
          se_source e \<noteq> [] \<and> se_target e \<noteq> [] \<and> se_id e \<noteq> UNALLOCATED_EDGE_ID
          \<and> (\<forall>f\<in>set (cv_edges cv). e_id f = se_id e \<longrightarrow> e_wire f = saved_wire e))"

definition canonical_ids :: "canvas \<Rightarrow> bool" where
  "canonical_ids cv \<longleftrightarrow> (\<forall>e\<in>set (cv_edges cv). e_id e = connect_id (e_wire e))"

lemma connect_cases:
  assumes lib: "library_spec addEdge base" and can: "canonical_ids cv" and ok: "names_known cv (snd (onConnect addEdge w cv))"
  obtains (known) e where "e \<in> set (cv_edges cv)" "e_id e = connect_id w" "e_wire e = w"
      "fst (onConnect addEdge w cv) = cv"
    | (new) "connect_id w \<notin> e_id ` set (cv_edges cv)"
      "fst (onConnect addEdge w cv) = cv\<lparr>cv_edges := cv_edges cv @ [connect_edge w]\<rparr>"
proof -
  have g: "w_source w \<noteq> []" "w_target w \<noteq> []"
    "\<And>f. f \<in> set (cv_edges cv) \<Longrightarrow> e_id f = connect_id w \<Longrightarrow> e_wire f = w"
    using ok by (auto simp: names_known_def onConnect_def saved_wire_def)
  show ?thesis
  proof (cases "\<exists>f\<in>set (cv_edges cv). same_connection (e_wire f) w")
    case True
    then obtain f where f: "f \<in> set (cv_edges cv)" "same_connection (e_wire f) w" by blast
    then have id: "e_id f = connect_id w" using can same_connection_id by (simp add: canonical_ids_def)
    have "addEdge (connect_edge w) (cv_edges cv) = cv_edges cv"
      using True lib by (simp add: library_spec_def flow_addEdge_def)
    then show ?thesis using known [OF f(1) id g(3) [OF f(1) id]] by (simp add: onConnect_def)
  next
    case False
    then have "connect_id w \<notin> e_id ` set (cv_edges cv)" using g(3) by (metis imageE same_connection_refl)
    moreover have "addEdge (connect_edge w) (cv_edges cv) = cv_edges cv @ [connect_edge w]"
      using False lib g by (simp add: library_spec_def flow_addEdge_def)
    ultimately show ?thesis using new by (simp add: onConnect_def)
  qed
qed

section \<open>What the canvas may assume\<close>

context graph_store
begin

abbreviation serve_all :: "request list \<Rightarrow> 's \<Rightarrow> 's" where
  "serve_all rs t \<equiv> foldl (\<lambda>t r. run r t) t rs"

abbreviation synced :: "string set \<Rightarrow> canvas \<Rightarrow> 's \<Rightarrow> bool" where
  "synced L cv t \<equiv> agrees_but L cv (nodes t) (edges t)"

lemma serve_delete_edges:
  "nodes (serve_all (map DeleteEdge is) t) = nodes t
   \<and> edges (serve_all (map DeleteEdge is) t) = {p \<in> edges t. fst p \<notin> set is}"
  by (induction "is" arbitrary: t) (auto simp: delete_edge)

lemma serve_delete_nodes:
  "nodes (serve_all (map DeleteNode is) t) = nodes t - set is
   \<and> edges (serve_all (map DeleteNode is) t) = {p \<in> edges t. w_source (snd p) \<notin> set is \<and> w_target (snd p) \<notin> set is}"
  by (induction "is" arbitrary: t) (auto simp: delete_node)

lemma removeAll_synced:
  assumes "synced L cv t" and "distinct (map e_id (cv_edges cv))"
  shows "synced (L - deleted (snd (removeAll_ids ids cv))) (fst (removeAll_ids ids cv))
    (serve_all (requests (snd (removeAll_ids ids cv))) t)"
proof -
  let ?gone = "map e_id (filter (touches ids) (cv_edges cv))"
  let ?t1 = "serve_all (map DeleteEdge ?gone) t"
  have rq: "requests (snd (removeAll_ids ids cv)) = map DeleteEdge ?gone @ map DeleteNode ids"
    by (simp add: removeAll_ids_def comp_def requests_def map_filter_def)
  have del: "deleted (snd (removeAll_ids ids cv)) = set ids" by (auto simp: removeAll_ids_def deleted_def)
  have n: "nodes (serve_all (map DeleteNode ids) ?t1) = nodes t - set ids"
    and e: "edges (serve_all (map DeleteNode ids) ?t1)
      = {p \<in> edges t. fst p \<notin> set ?gone \<and> w_source (snd p) \<notin> set ids \<and> w_target (snd p) \<notin> set ids}"
    using serve_delete_nodes [of ?t1 ids] serve_delete_edges [of t ?gone] by auto
  have same: "f = f'" if "f \<in> set (cv_edges cv)" "f' \<in> set (cv_edges cv)" "e_id f = e_id f'" for f f'
    using assms(2) that unfolding distinct_map by (metis inj_onD)
  have "savedEdges (fst (removeAll_ids ids cv))
      = {p \<in> savedEdges cv. fst p \<notin> set ?gone \<and> w_source (snd p) \<notin> set ids \<and> w_target (snd p) \<notin> set ids}"
    unfolding savedEdges_def by (auto simp: touches_def) (metis same)+
  moreover have "node_ids (fst (removeAll_ids ids cv)) = node_ids cv - set ids"
    by (auto simp: node_ids_def)
  ultimately show ?thesis using assms(1) n e by (auto simp: agrees_but_def rq del)
qed

lemma insertNode_synced:
  assumes "synced L cv t"
  shows "synced (L - deleted (snd (insertNode ty pos l s cv))) (fst (insertNode ty pos l s cv))
    (serve_all (requests (snd (insertNode ty pos l s cv))) t)"
  using assms by (auto simp: agrees_but_def node_ids_def savedEdges_def put_node insertNode_def Let_def)

lemma connect_synced:
  assumes "synced L cv t" and lib: "library_spec addEdge base" and can: "canonical_ids cv"
    and ok: "names_known cv (snd (onConnect addEdge w cv))"
  shows "synced L (fst (onConnect addEdge w cv)) (serve_all (requests (snd (onConnect addEdge w cv))) t)"
proof -
  let ?e = "\<lparr>se_id = connect_id w, se_source = w_source w, se_target = w_target w,
      se_sourceHandle = w_sourceHandle w, se_targetHandle = w_targetHandle w\<rparr>"
  have sw: "saved_wire ?e = w" by (simp add: saved_wire_def)
  have rq: "requests (snd (onConnect addEdge w cv)) = [PostEdge ?e]" by (simp add: onConnect_def)
  have un: "connect_id w \<noteq> UNALLOCATED_EDGE_ID" using ok by (simp add: names_known_def onConnect_def)
  from lib can ok show ?thesis
  proof (cases rule: connect_cases)
    case (known e)
    then have "(connect_id w, w) \<in> savedEdges cv" using un by (force simp: savedEdges_def)
    then have "(se_id ?e, saved_wire ?e) \<in> edges t" using assms(1) sw by (simp add: agrees_but_def)
    then show ?thesis using assms(1) known(4) by (simp add: rq post_edge(1) post_edge(3))
  next
    case new
    have "se_id ?e \<notin> fst ` edges t"
      using assms(1) new(1) unfolding agrees_but_def savedEdges_def by (force simp: image_iff)
    from post_edge(2) [OF this] have "edges (run (PostEdge ?e) t) = insert (connect_id w, w) (edges t)"
      by (simp add: sw)
    moreover have "savedEdges (cv\<lparr>cv_edges := cv_edges cv @ [connect_edge w]\<rparr>) = insert (connect_id w, w) (savedEdges cv)"
      using un by (auto simp: savedEdges_def intro: rev_image_eqI [of "connect_edge w"])
    moreover have "node_ids (cv\<lparr>cv_edges := E\<rparr>) = node_ids cv" for E by (simp add: node_ids_def)
    ultimately show ?thesis using assms(1) by (simp add: rq new(2) agrees_but_def post_edge(1))
  qed
qed

text \<open>Adding and changing edges, as React Flow does it.\<close>

lemma edges_change_synced:
  assumes "synced L cv t"
    and base: "(\<lambda>e. (e_id e, e_wire e)) ` set (base cs (cv_edges cv))
      = (\<lambda>e. (e_id e, e_wire e)) ` {e \<in> set (cv_edges cv). RemoveEdge (e_id e) \<notin> set cs}"
  shows "synced L (fst (onEdgesChange base cs cv)) (serve_all (requests (snd (onEdgesChange base cs cv))) t)"
proof -
  let ?is = "List.map_filter (\<lambda>c. case c of RemoveEdge i \<Rightarrow> Some i | _ \<Rightarrow> None) cs"
  have rq: "requests (snd (onEdgesChange base cs cv)) = map DeleteEdge ?is"
    unfolding onEdgesChange_def snd_conv
    by (induction cs) (auto simp: List.map_filter_simps split: edge_change.split)
  have mem: "i \<in> set ?is \<longleftrightarrow> RemoveEdge i \<in> set cs" for i
    by (induction cs) (auto simp: List.map_filter_simps split: edge_change.splits)
  have "savedEdges (fst (onEdgesChange base cs cv)) = {p \<in> (\<lambda>e. (e_id e, e_wire e)) ` set (base cs (cv_edges cv)). fst p \<noteq> UNALLOCATED_EDGE_ID}"
    by (auto simp: savedEdges_def onEdgesChange_def)
  also have "\<dots> = {p \<in> savedEdges cv. fst p \<notin> set ?is}"
    unfolding base mem by (auto simp: savedEdges_def)
  finally show ?thesis
    using assms(1) serve_delete_edges [of t ?is]
    by (simp add: rq agrees_but_def) (simp add: onEdgesChange_def node_ids_def)
qed

end

section \<open>One step\<close>

context graph_store
begin

lemma step_same_shape:
  assumes "same_shape cv cv'" and "requests effs = []" and "synced L cv t"
  shows "synced L cv' (serve_all (requests effs) t)"
  using assms same_shape_agrees by (metis foldl_Nil)

lemma ws_same_shape: "same_shape cv (fst (handleWsMessage m cv)) \<and> requests (snd (handleWsMessage m cv)) = []"
  by (auto simp: same_shape_def handleWsMessage_def addToast_def Let_def applyEntries_frame split: ws_data.split)

lemma no_deletes: "requests effs = [] \<Longrightarrow> deleted effs = {}"
  unfolding requests_def deleted_def by (induction effs) (auto simp: List.map_filter_simps split: effect.splits)

lemma step_synced:
  assumes "canvas_step addEdge base cv (cv', effs)" and "synced L cv t"
    and "distinct (map e_id (cv_edges cv))" and can: "canonical_ids cv"
    and lib: "library_spec addEdge base" and "names_known cv effs"
  shows "synced (L - deleted effs) cv' (serve_all (requests effs) t)"
proof -
  have nodes: "i \<in> node_ids cv \<Longrightarrow> i \<in> nodes t" for i using assms(2) by (auto simp: agrees_but_def)
  have del: "synced M (cvx\<lparr>cv_nodeMenu := None\<rparr>) u \<longleftrightarrow> synced M cvx u" for M cvx u
    by (simp add: agrees_but_def node_ids_def savedEdges_def)
  have pm: "synced M (cvx\<lparr>cv_paneMenu := None\<rparr>) u \<longleftrightarrow> synced M cvx u" for M cvx u
    by (simp add: agrees_but_def node_ids_def savedEdges_def)
  have shape: "synced (L - deleted effs) cv' (serve_all (requests effs) t)" if "same_shape cv cv'" "effs = []"
    using that same_shape_agrees assms(2) by simp
  from assms(1) show ?thesis
  proof (cases rule: canvas_step.cases)
    case (ws m)
    then have "same_shape cv cv'" "requests effs = []" using ws_same_shape by (metis fst_conv, metis snd_conv)
    then show ?thesis using step_same_shape [OF _ _ assms(2)] no_deletes by simp
  next
    case (key k)
    show ?thesis
    proof (cases "(cv', effs) = (cv, [])")
      case False
      with key obtain ids where "(cv', effs) = removeAll_ids ids cv"
        by (auto simp: handleKeyDown_def Let_def split: if_splits)
      with removeAll_synced [OF assms(2,3), of ids] show ?thesis by (metis fst_conv snd_conv)
    qed (use assms(2) in simp)
  next
    case (drop r raw pos)
    show ?thesis
    proof (cases "(cv', effs) = (cv, [])")
      case False
      with drop obtain ty l s where "(cv', effs) = insertNode ty pos l s cv"
        by (auto simp: onDrop_def split: option.splits if_splits)
      with insertNode_synced [OF assms(2), of ty pos l s] show ?thesis by (metis fst_conv snd_conv)
    qed (use assms(2) in simp)
  next
    case (add_board pos)
    then obtain ty l s where i: "cv' = (fst (insertNode ty pos l s cv))\<lparr>cv_paneMenu := None\<rparr>"
      "effs = snd (insertNode ty pos l s cv)"
      by (auto simp: addSubConsumerUnit_def Let_def case_prod_beta)
    show ?thesis unfolding i pm by (rule insertNode_synced [OF assms(2)])
  next
    case (add_load toFlow dev)
    let ?cv = "cv\<lparr>cv_pendingLoadPos := None\<rparr>"
    have s0: "synced L ?cv t" using assms(2) by (simp add: agrees_but_def node_ids_def savedEdges_def)
    show ?thesis
    proof (cases "cv_pendingLoadPos cv")
      case None
      with add_load s0 show ?thesis by (simp add: handleAddLoad_def Let_def)
    next
      case (Some pos)
      with add_load obtain ty l s where "(cv', effs) = insertNode ty (toFlow pos) l s ?cv"
        by (auto simp: handleAddLoad_def Let_def)
      with insertNode_synced [OF s0, of ty "toFlow pos" l s] show ?thesis by (metis fst_conv snd_conv)
    qed
  next
    case (delete_board i)
    then have i: "cv' = fst (deleteSubConsumerUnit i cv)" "effs = snd (deleteSubConsumerUnit i cv)"
      by (metis fst_conv, metis snd_conv)
    show ?thesis unfolding i deleteSubConsumerUnit_removeAll del by (rule removeAll_synced [OF assms(2,3)])
  next
    case (delete_load i)
    then have i: "cv' = fst (deleteLoad i cv)" "effs = snd (deleteLoad i cv)"
      by (metis fst_conv, metis snd_conv)
    show ?thesis unfolding i deleteLoad_removeAll del by (rule removeAll_synced [OF assms(2,3)])
  next
  case (edited d n s)
    have "c_id (editedNode s n) = c_id n" for n by (simp add: editedNode_def Let_def)
    then have "same_shape cv cv'"
      using edited by (simp add: same_shape_def handleNodeEdited_def comp_def if_distrib cong: if_cong)
    then have "synced L cv' t" using same_shape_agrees assms(2) by metis
    moreover have "c_id d \<in> node_ids cv" using edited unfolding node_ids_def by (metis image_eqI)
    then have "c_id d \<in> nodes t" using nodes by simp
    ultimately show ?thesis using edited by (simp add: put_settings insert_absorb)
  next
    case (circuits n k)
    have "map (\<lambda>x. c_id (if c_id x \<noteq> c_id n then x else x\<lparr>c_data := f x\<rparr>)) ns = map c_id ns" for f ns
      by simp
    then have "same_shape cv cv'"
      using circuits by (auto simp: setCircuits_def Let_def same_shape_def comp_def split: if_splits)
    then have s: "synced L cv' t" using same_shape_agrees assms(2) by metis
    show ?thesis
    proof (cases "effs = []")
      case False
      with circuits obtain st where e: "effs = [Fetch (PutSettings (c_id n) st)]"
        by (auto simp: setCircuits_def Let_def split: if_splits)
      then have "c_id n \<in> nodes t" using assms(6) nodes by (auto simp: names_known_def)
      with s show ?thesis by (simp add: e put_settings insert_absorb)
    qed (use s in simp)
  next
    case (connect w)
    then have e: "cv' = fst (onConnect addEdge w cv)" "effs = snd (onConnect addEdge w cv)"
      by (metis fst_conv, metis snd_conv)
    have ok: "names_known cv (snd (onConnect addEdge w cv))" using assms(6) e(2) by simp
    have "deleted effs = {}" by (simp add: e onConnect_def)
    then show ?thesis using connect_synced [OF assms(2) lib can ok] e by simp
  next
  case (edge_changes cs)
    then have e: "cv' = fst (onEdgesChange base cs cv)" "effs = snd (onEdgesChange base cs cv)"
      by (metis fst_conv, metis snd_conv)
    have "(\<lambda>e. (e_id e, e_wire e)) ` set (base cs (cv_edges cv))
      = (\<lambda>e. (e_id e, e_wire e)) ` {e \<in> set (cv_edges cv). RemoveEdge (e_id e) \<notin> set cs}"
      using lib by (simp add: library_spec_def drop_removed_def)
    moreover have "deleted effs = {}"
      unfolding e onEdgesChange_def snd_conv deleted_def
      by (induction cs) (auto simp: List.map_filter_simps split: edge_change.splits)
    ultimately show ?thesis using edges_change_synced [OF assms(2)] e by simp
  next
    case (double_click n)
    then have "same_shape cv cv'" by (auto simp: onNodeDoubleClick_def same_shape_def)
    then show ?thesis using shape double_click by simp
  next
    case (node_menu n x y)
    then have "same_shape cv cv'" by (auto simp: onNodeContextMenu_def same_shape_def)
    then show ?thesis using shape node_menu by simp
  next
    case (pane_menu pos)
    then have "same_shape cv cv'" by (auto simp: onPaneContextMenu_def same_shape_def)
    then show ?thesis using shape pane_menu by simp
  next
    case (dismiss i)
    then have "same_shape cv cv'" by (auto simp: dismissToast_def same_shape_def)
    then show ?thesis using shape dismiss by simp
  next
    case (nodes_change ns)
    then have "same_shape cv cv'" by (simp add: same_shape_def placed_ids)
    then show ?thesis using shape nodes_change by simp
  next
    case (overlay f)
    then have "same_shape cv cv'" using overlay_frame [of f cv] by (simp add: same_shape_def)
    then show ?thesis using shape overlay by simp
  next
    case (drag_stop n)
    then have "c_id n \<in> nodes t" using assms(6) nodes by (auto simp: names_known_def onNodeDragStop_def)
    then show ?thesis using drag_stop assms(2) by (simp add: onNodeDragStop_def put_node insert_absorb)
  qed
qed

end

end
