(* ===== verification/CanvasProps.thy ===== *)
theory CanvasProps
  imports CanvasFacts
begin

text \<open>The properties of the canvas handlers.\<close>

section \<open>An example canvas\<close>

definition with_device :: "nat \<Rightarrow> nat \<Rightarrow> node \<Rightarrow> node" where
  "with_device n e nd = nd\<lparr>c_data := (c_data nd)\<lparr>nd_nodeId := Some n, nd_endpointId := Some e\<rparr>\<rparr>"

definition demo_node :: "string \<Rightarrow> string \<Rightarrow> node" where
  "demo_node i ty = new_node i ty (0, 0) (plain_data i no_settings)"

text \<open>An inverter with a PV string and a battery, a selected inverter, and a protected board.\<close>

definition solar_canvas :: canvas where
  "solar_canvas = initial_canvas\<lparr>
     cv_nodes := [(demo_node ''consumer_unit'' ''consumerUnit'')\<lparr>c_deletable := Some False, c_selected := True\<rparr>,
                  (demo_node ''solar_inverter'' ''solarInverter'')\<lparr>c_selected := True\<rparr>,
                  with_device 7 2 (demo_node ''pv_string_1'' ''pvString''),
                  with_device 7 3 (demo_node ''battery_1'' ''battery'')],
     cv_edges := [connect_edge \<lparr>w_source = ''solar_inverter'', w_target = ''consumer_unit'',
                    w_sourceHandle = Some ''power-out'', w_targetHandle = Some ''solar_input''\<rparr>,
                  connect_edge \<lparr>w_source = ''pv_string_1'', w_target = ''solar_inverter'',
                    w_sourceHandle = Some ''power-out'', w_targetHandle = Some ''dc_in''\<rparr>,
                  connect_edge \<lparr>w_source = ''solar_inverter'', w_target = ''battery_1'',
                    w_sourceHandle = Some ''battery'', w_targetHandle = Some ''power-in''\<rparr>]\<rparr>"

section \<open>The invariant\<close>

text \<open>
  C5.  Every sequence of canvas events (messages, key presses, drops, edits, deletions,
  connections) keeps the canvas well formed: node ids are distinct, no edge dangles, and the id
  counter stays above every generated node id, so ids never collide. The library operations
  addEdge and applyEdgeChanges are assumed to add at most the new edge and none.
\<close>

theorem canvas_run_keeps_ok:
  assumes "canvas_run addEdge base cv cv'" and "adds_at_most addEdge" and "adds_none base"
    and "canvas_ok cv"
  shows "canvas_ok cv'"
  using assms
proof (induction rule: canvas_run.induct)
  case (more cv cv' cv'' effs)
  then show ?case using canvas_ok_step [of addEdge base cv' "(cv'', effs)"] by simp
next
  case (removed cv cv' gone cv'')
  then show ?case using canvas_ok_flow_removes by simp
qed simp

theorem canvas_run_keeps_ok_witness:
  "canvas_ok (fst (handleKeyDown ''Delete'' (fst (addSubConsumerUnit (3, 4) solar_canvas))))"
proof (rule canvas_run_keeps_ok)
  let ?add = "\<lambda>e E. E @ [e]" and ?base = "\<lambda>(_::edge_change list) E. E"
  let ?a = "addSubConsumerUnit (3, 4) solar_canvas"
  have "canvas_step ?add ?base solar_canvas (fst ?a, snd ?a)"
    using canvas_step.add_board [of ?add ?base solar_canvas "(3, 4)"] by simp
  then have "canvas_run ?add ?base solar_canvas (fst ?a)"
    by (rule canvas_run.more [OF canvas_run.here])
  moreover have "canvas_step ?add ?base (fst ?a)
      (fst (handleKeyDown ''Delete'' (fst ?a)), snd (handleKeyDown ''Delete'' (fst ?a)))"
    using canvas_step.key [of ?add ?base "fst ?a" "''Delete''"] by simp
  ultimately show "canvas_run ?add ?base solar_canvas (fst (handleKeyDown ''Delete'' (fst ?a)))"
    by (rule canvas_run.more)
  show "adds_at_most ?add" "adds_none ?base"
    by (simp_all add: adds_at_most_def adds_none_def)
  show "canvas_ok solar_canvas" by code_simp
qed

section \<open>Deleting\<close>

definition chosen_ids :: "canvas \<Rightarrow> string set" where
  "chosen_ids cv = c_id ` {n \<in> set (cv_nodes cv). c_selected n \<and> c_deletable n \<noteq> Some False}"

lemma chosen_ids_code [code]:
  "chosen_ids cv = set (map c_id (filter (\<lambda>n. c_selected n \<and> c_deletable n \<noteq> Some False) (cv_nodes cv)))"
  by (auto simp: chosen_ids_def)

text \<open>The PV strings and batteries that hang off a set of nodes.\<close>

definition dependants :: "string set \<Rightarrow> edge list \<Rightarrow> string set" where
  "dependants ids E =
     {e_source e | e. e \<in> set E \<and> e_target e \<in> ids \<and> e_targetHandle e = Some ''dc_in''}
     \<union> {e_target e | e. e \<in> set E \<and> e_source e \<in> ids \<and> e_sourceHandle e = Some ''battery''}"

lemma dependants_code [code]:
  "dependants ids E =
     set (map e_source (filter (\<lambda>e. e_target e \<in> ids \<and> e_targetHandle e = Some ''dc_in'') E))
     \<union> set (map e_target (filter (\<lambda>e. e_source e \<in> ids \<and> e_sourceHandle e = Some ''battery'') E))"
  by (auto simp: dependants_def)

lemma cascade_children_dependants:
  "set ids \<union> set (cascade_children ids E) = set ids \<union> dependants (set ids) E"
  by (auto simp: cascade_children_def dependants_def image_def)

lemma removeAll_ids_effects:
  "Fetch (DeleteNode i) \<in> set (snd (removeAll_ids ids cv)) \<longleftrightarrow> i \<in> set ids"
  "Fetch (DeleteEdge i) \<in> set (snd (removeAll_ids ids cv))
     \<longleftrightarrow> (\<exists>e\<in>set (cv_edges cv). touches ids e \<and> e_id e = i)"
  by (auto simp: removeAll_ids_def)

lemma node_ids_removeAll_ids [simp]: "node_ids (fst (removeAll_ids ids cv)) = node_ids cv - set ids"
  by (auto simp: node_ids_def)

text \<open>
  C24.  The Delete and Backspace keys remove exactly the selected deletable nodes and the PV
  strings and batteries hanging off them, every edge touching a removed node and no other, and
  ask the firmware for exactly these deletions.
\<close>

theorem delete_key_cascades:
  assumes "key = ''Delete'' \<or> key = ''Backspace''"
    and "gone = chosen_ids cv \<union> dependants (chosen_ids cv) (cv_edges cv)"
  shows "node_ids (fst (handleKeyDown key cv)) = node_ids cv - gone
    \<and> set (cv_edges (fst (handleKeyDown key cv)))
        = {e \<in> set (cv_edges cv). e_source e \<notin> gone \<and> e_target e \<notin> gone}
    \<and> {i. Fetch (DeleteNode i) \<in> set (snd (handleKeyDown key cv))} = gone
    \<and> {i. Fetch (DeleteEdge i) \<in> set (snd (handleKeyDown key cv))}
        = e_id ` {e \<in> set (cv_edges cv). e_source e \<in> gone \<or> e_target e \<in> gone}"
proof -
  let ?d = "add_ids [] (map c_id (filter (\<lambda>n. c_selected n \<and> c_deletable n \<noteq> Some False) (cv_nodes cv)))"
  have d: "set ?d = chosen_ids cv" by (simp add: chosen_ids_def)
  let ?ids = "add_ids ?d (cascade_children ?d (cv_edges cv))"
  have gone: "set ?ids = gone"
    using cascade_children_dependants [of ?d "cv_edges cv"] assms(2) d by simp
  show ?thesis
  proof (cases "?d = []")
    case True
    then have "chosen_ids cv = {}" using d by simp
    then have "gone = {}" using assms(2) by (simp add: dependants_def)
    moreover have "handleKeyDown key cv = (cv, [])"
      using True assms(1) by (simp add: handleKeyDown_def)
    ultimately show ?thesis by simp
  next
    case False
    then have eq: "handleKeyDown key cv = removeAll_ids ?ids cv"
      using assms(1) by (auto simp: handleKeyDown_def Let_def)
    have t: "touches ?ids e \<longleftrightarrow> e_source e \<in> gone \<or> e_target e \<in> gone" for e
      by (simp add: touches_def gone del: set_add_ids)
    show ?thesis
      unfolding eq by (auto simp: removeAll_ids_effects t gone simp del: set_add_ids)
  qed
qed

theorem delete_key_cascades_witness:
  "node_ids (fst (handleKeyDown ''Delete'' solar_canvas)) = {''consumer_unit''}
   \<and> cv_edges (fst (handleKeyDown ''Delete'' solar_canvas)) = []"
proof
  have ids: "node_ids solar_canvas = {''consumer_unit'', ''solar_inverter'', ''pv_string_1'', ''battery_1''}"
    by (simp add: node_ids_def solar_canvas_def demo_node_def with_device_def new_node_def)
  have "chosen_ids solar_canvas = {''solar_inverter''}"
    by code_simp
  moreover have "dependants {''solar_inverter''} (cv_edges solar_canvas) = {''pv_string_1'', ''battery_1''}"
    by code_simp
  ultimately have gone: "{''solar_inverter'', ''pv_string_1'', ''battery_1''}
      = chosen_ids solar_canvas \<union> dependants (chosen_ids solar_canvas) (cv_edges solar_canvas)"
    by (simp only: Un_insert_left Un_empty_left)
  from delete_key_cascades [OF disjI1 [OF refl] gone]
  have "node_ids (fst (handleKeyDown ''Delete'' solar_canvas))
      = node_ids solar_canvas - {''solar_inverter'', ''pv_string_1'', ''battery_1''}"
    by (rule conjunct1)
  also have "\<dots> = {''consumer_unit''}" unfolding ids by auto
  finally show "node_ids (fst (handleKeyDown ''Delete'' solar_canvas)) = {''consumer_unit''}" .
  show "cv_edges (fst (handleKeyDown ''Delete'' solar_canvas)) = []" by code_simp
qed

text \<open>The loads (and boards) a board feeds directly.\<close>

definition board_loads :: "string \<Rightarrow> canvas \<Rightarrow> string set" where
  "board_loads i cv = e_target ` {e \<in> set (cv_edges cv). e_source e = i \<and> e_target e \<noteq> CU_ID}"

text \<open>
  C25.  Deleting a sub consumer unit removes exactly the board and what its circuits feed
  directly, never the main consumer unit (unless it is the node deleted), removes exactly the
  edges at any of the removed nodes, and sends exactly these node deletions.
\<close>

theorem delete_board_exact:
  "node_ids (fst (deleteSubConsumerUnit i cv))
     = node_ids cv - insert i (board_loads i cv)
   \<and> (i \<noteq> CU_ID \<and> CU_ID \<in> node_ids cv \<longrightarrow> CU_ID \<in> node_ids (fst (deleteSubConsumerUnit i cv)))
   \<and> cv_edges (fst (deleteSubConsumerUnit i cv)) = filter (\<lambda>e. e_source e \<notin> insert i (board_loads i cv)
        \<and> e_target e \<notin> insert i (board_loads i cv)) (cv_edges cv)
   \<and> {j. Fetch (DeleteNode j) \<in> set (snd (deleteSubConsumerUnit i cv))}
     = insert i (board_loads i cv)"
proof -
  let ?loads = "map e_target (filter (\<lambda>e. e_source e = i \<and> e_target e \<noteq> CU_ID) (cv_edges cv))"
  have loads: "set ?loads = board_loads i cv"
    by (auto simp: board_loads_def)
  have ids: "set (add_ids [i] ?loads) = insert i (set ?loads)" by simp
  have "node_ids (fst (deleteSubConsumerUnit i cv)) = node_ids cv - insert i (set ?loads)"
    by (simp add: deleteSubConsumerUnit_removeAll node_ids_def) auto
  moreover have "CU_ID \<notin> set ?loads" by auto
  moreover have "cv_edges (fst (deleteSubConsumerUnit i cv)) = filter (\<lambda>e. e_source e \<notin> insert i (set ?loads)
      \<and> e_target e \<notin> insert i (set ?loads)) (cv_edges cv)"
    by (simp add: deleteSubConsumerUnit_removeAll touches_def ids del: set_map)
  moreover have "{j. Fetch (DeleteNode j) \<in> set (snd (deleteSubConsumerUnit i cv))} = insert i (set ?loads)"
    unfolding deleteSubConsumerUnit_removeAll removeAll_ids_effects ids by blast
  ultimately show ?thesis unfolding loads by blast
qed

definition board_canvas :: canvas where
  "board_canvas = initial_canvas\<lparr>
     cv_nodes := [demo_node ''consumer_unit'' ''consumerUnit'', demo_node ''node_11'' ''subConsumerUnit'',
                  demo_node ''node_12'' ''device''],
     cv_nodeIdCounter := 12,
     cv_edges := [connect_edge \<lparr>w_source = ''consumer_unit'', w_target = ''node_11'',
                    w_sourceHandle = Some ''circuit_1'', w_targetHandle = Some ''power-in''\<rparr>,
                  connect_edge \<lparr>w_source = ''node_11'', w_target = ''node_12'',
                    w_sourceHandle = Some ''circuit_1'', w_targetHandle = Some ''power-in''\<rparr>]\<rparr>"

theorem delete_board_exact_witness:
  "CU_ID \<in> node_ids (fst (deleteSubConsumerUnit ''node_11'' board_canvas))
   \<and> ''node_12'' \<notin> node_ids (fst (deleteSubConsumerUnit ''node_11'' board_canvas))"
proof -
  have ne: "''node_11'' \<noteq> CU_ID" by (simp add: CU_ID_def)
  have cu: "CU_ID \<in> node_ids board_canvas"
    by (simp add: CU_ID_def node_ids_def board_canvas_def demo_node_def)
  have "''node_12'' \<in> board_loads ''node_11'' board_canvas" by code_simp
  with ne cu show ?thesis
    using delete_board_exact [of "''node_11''" board_canvas] by blast
qed

section \<open>Websocket frames\<close>

text \<open>
  C16.  Applying an attribute batch in one pass leaves the nodes as applying its reports one by
  one does.
\<close>

theorem batch_equals_single_reports:
  "cv_nodes (fst (handleWsMessage \<lparr>ws_type = ''attribute_batch'', ws_payload = Batch es\<rparr> cv))
   = cv_nodes (foldl (\<lambda>c e. fst (handleWsMessage \<lparr>ws_type = ''attribute_update'', ws_payload = Single e\<rparr> c)) cv es)"
  by (simp add: handleWsMessage_def applyEntries_nodes nodes_one_by_one)

text \<open>
  A node whose measured endpoint has no report in a batch is left exactly as it was; the
  string keys built from node and endpoint ids never confuse two endpoints.
\<close>

theorem report_touches_only_its_node:
  assumes "n \<in> set (cv_nodes cv)"
    and "\<forall>e\<in>set es. \<not> (nd_nodeId (c_data n) = Some (a_nodeId e) \<and> nd_endpointId (c_data n) = Some (a_endpointId e))"
  shows "n \<in> set (cv_nodes (fst (handleWsMessage \<lparr>ws_type = ''attribute_batch'', ws_payload = Batch es\<rparr> cv)))"
proof -
  have "map_of (powerByKey fs) (node_key n) = None \<and> map_of (batteryByKey fs) (node_key n) = None"
    if "set fs \<subseteq> set es" for fs
    using that
  proof (induction fs rule: rev_induct)
    case (snoc d fs)
    then have "node_key n \<noteq> entry_key d"
      using assms(2) by (auto simp: node_key_def entry_key_def measure_key_eq_iff)
    with snoc show ?case
      by (simp add: powerByKey_snoc batteryByKey_snoc map_of_accPower map_of_accBattery)
  qed (simp add: powerByKey_def batteryByKey_def)
  from this [of es] have "updateBy es (cv_standby cv) n = n"
    by (simp add: updateNode_def)
  with assms(1) show ?thesis
    by (force simp: handleWsMessage_def applyEntries_nodes)
qed

theorem report_touches_only_its_node_witness:
  "cv_nodes solar_canvas ! 2 \<in> set (cv_nodes (fst (handleWsMessage
     \<lparr>ws_type = ''attribute_batch'', ws_payload = Batch
       [\<lparr>a_nodeId = 7, a_endpointId = 3, a_cluster = 0x2f, a_attribute = 0x0c, a_value = 156\<rparr>]\<rparr> solar_canvas)))
   \<and> nd_battery (c_data (cv_nodes (fst (handleWsMessage
     \<lparr>ws_type = ''attribute_batch'', ws_payload = Batch
       [\<lparr>a_nodeId = 7, a_endpointId = 3, a_cluster = 0x2f, a_attribute = 0x0c, a_value = 156\<rparr>]\<rparr> solar_canvas)) ! 3)) = Some 78"
proof
  show "cv_nodes solar_canvas ! 2 \<in> set (cv_nodes (fst (handleWsMessage
     \<lparr>ws_type = ''attribute_batch'', ws_payload = Batch
       [\<lparr>a_nodeId = 7, a_endpointId = 3, a_cluster = 0x2f, a_attribute = 0x0c, a_value = 156\<rparr>]\<rparr> solar_canvas)))"
  proof (rule report_touches_only_its_node)
    show "cv_nodes solar_canvas ! 2 \<in> set (cv_nodes solar_canvas)"
      by (rule nth_mem) code_simp
  qed (simp add: solar_canvas_def with_device_def demo_node_def new_node_def)
qed code_simp

section \<open>Editing and wiring\<close>

text \<open>
  Saving an edit applies the new settings to the edited node only; a load moved to another
  endpoint drops its power, battery and status readings, one that stays keeps them, and no edge
  changes.
\<close>

theorem moved_load_drops_readings:
  assumes "n \<in> set (cv_nodes cv)" and "c_id n = i"
    and "cv' = handleNodeEdited i s cv" and "d = c_data (editedNode s n)"
  shows "editedNode s n \<in> set (cv_nodes cv')
    \<and> nd_nodeId d = s_nodeId s \<and> nd_endpointId d = s_endpointId s \<and> nd_settings d = Some s
    \<and> (if nd_nodeId (c_data n) = s_nodeId s \<and> nd_endpointId (c_data n) = s_endpointId s
       then nd_power d = nd_power (c_data n) \<and> nd_battery d = nd_battery (c_data n)
            \<and> nd_status d = nd_status (c_data n)
       else nd_power d = None \<and> nd_battery d = None \<and> nd_status d = None)
    \<and> (\<forall>m\<in>set (cv_nodes cv). c_id m \<noteq> i \<longrightarrow> m \<in> set (cv_nodes cv'))
    \<and> cv_edges cv' = cv_edges cv"
  using assms by (force simp: handleNodeEdited_def editedNode_def Let_def)

theorem moved_load_drops_readings_witness:
  "nd_power (c_data (editedNode (no_settings\<lparr>s_nodeId := Some 9, s_endpointId := Some 1\<rparr>)
      (cv_nodes solar_canvas ! 2))) = None"
proof -
  have "cv_nodes solar_canvas ! 2 \<in> set (cv_nodes solar_canvas)"
    by (rule nth_mem) code_simp
  from moved_load_drops_readings [OF this refl refl refl, of "no_settings\<lparr>s_nodeId := Some 9, s_endpointId := Some 1\<rparr>"]
  show ?thesis
    by (simp add: solar_canvas_def with_device_def demo_node_def new_node_def plain_data_def no_settings_def)
qed

text \<open>
  Nothing stops a second meter from being wired to the grid handle of the consumer unit:
  when the library appends a new connection, both edges are on the canvas afterwards.
\<close>

theorem grid_handle_accepts_two_meters:
  assumes add: "\<And>e E. e_wire e \<notin> e_wire ` set E \<Longrightarrow> addEdge e E = E @ [e]"
    and wires: "w_source w \<noteq> w_source w'" "w_target w = CU_ID" "w_target w' = CU_ID"
      "w_targetHandle w = Some ''grid''" "w_targetHandle w' = Some ''grid''"
    and free: "\<forall>e\<in>set (cv_edges cv). e_targetHandle e \<noteq> Some ''grid''"
  shows "map e_wire (filter (\<lambda>e. e_target e = CU_ID \<and> e_targetHandle e = Some ''grid'')
           (cv_edges (fst (onConnect addEdge w' (fst (onConnect addEdge w cv)))))) = [w, w']"
proof -
  have wire: "e_wire (connect_edge v) = v" for v by (simp add: connect_edge_def)
  have "w \<notin> e_wire ` set (cv_edges cv)" "w' \<notin> e_wire ` set (cv_edges cv)"
    using free wires by auto
  moreover from wires(1) have "w' \<noteq> w" by auto
  ultimately have "cv_edges (fst (onConnect addEdge w' (fst (onConnect addEdge w cv))))
      = cv_edges cv @ [connect_edge w, connect_edge w']"
    by (simp add: onConnect_def add wire)
  moreover have "filter (\<lambda>e. e_target e = CU_ID \<and> e_targetHandle e = Some ''grid'') (cv_edges cv) = []"
    using free by (auto simp: filter_empty_conv)
  ultimately show ?thesis using wires by (simp add: wire)
qed

theorem grid_handle_accepts_two_meters_witness:
  "length (filter (\<lambda>e. e_target e = CU_ID \<and> e_targetHandle e = Some ''grid'')
     (cv_edges (fst (onConnect (\<lambda>e E. E @ [e])
        \<lparr>w_source = ''node_12'', w_target = CU_ID, w_sourceHandle = Some ''power-out'', w_targetHandle = Some ''grid''\<rparr>
        (fst (onConnect (\<lambda>e E. E @ [e])
          \<lparr>w_source = ''node_11'', w_target = CU_ID, w_sourceHandle = Some ''power-out'', w_targetHandle = Some ''grid''\<rparr>
          board_canvas)))))) = 2"
proof -
  let ?w = "\<lparr>w_source = ''node_11'', w_target = CU_ID, w_sourceHandle = Some ''power-out'', w_targetHandle = Some ''grid''\<rparr>"
  let ?w' = "\<lparr>w_source = ''node_12'', w_target = CU_ID, w_sourceHandle = Some ''power-out'', w_targetHandle = Some ''grid''\<rparr>"
  let ?E = "cv_edges (fst (onConnect (\<lambda>e E. E @ [e]) ?w' (fst (onConnect (\<lambda>e E. E @ [e]) ?w board_canvas))))"
  have free: "\<forall>e\<in>set (cv_edges board_canvas). e_targetHandle e \<noteq> Some ''grid''"
    by (simp add: board_canvas_def connect_edge_def)
  have "map e_wire (filter (\<lambda>e. e_target e = CU_ID \<and> e_targetHandle e = Some ''grid'') ?E) = [?w, ?w']"
    by (rule grid_handle_accepts_two_meters) (use free in simp_all)
  then have "length (map e_wire (filter (\<lambda>e. e_target e = CU_ID \<and> e_targetHandle e = Some ''grid'') ?E)) = 2"
    by simp
  then show ?thesis by simp
qed

end
