(* ===== verification/ServerProps.thy ===== *)
theory ServerProps
  imports StoreSync CanvasProps
begin

text \<open>Facts and properties of the graph store: the development server as an instance of the interface.\<close>

section \<open>The development server is a graph store\<close>

definition server_nodes :: "server \<Rightarrow> string set" where
  "server_nodes sv = n_id ` set (sv_nodes sv)"

definition server_edges :: "server \<Rightarrow> (string \<times> wire) set" where
  "server_edges sv = (\<lambda>e. (se_id e, saved_wire e)) ` set (sv_edges sv)"

lemma update_first_ids:
  "(\<And>x. k (f x) = k x) \<Longrightarrow> map k (update_first P f xs) = map k xs"
  by (induction xs) auto

lemma update_first_none: "\<not> (\<exists>x\<in>set xs. P x) \<Longrightarrow> update_first P f xs = xs"
  by (induction xs) auto

lemma putNode_ids:
  "map n_id (putNode i x y s ns) = map n_id ns @ (if has_node i ns then [] else [i])"
  by (simp add: putNode_def config_def update_first_ids split: option.split)

lemma putSettings_ids:
  "map n_id (putSettings i s ns) = map n_id ns @ (if has_node i ns then [] else [i])"
  by (simp add: putSettings_def config_def update_first_ids)

lemma upsertNode_ids:
  "map n_id (upsertNode i x y s ns) = map n_id ns @ (if has_node i ns then [] else [i])"
  by (simp add: upsertNode_def config_def update_first_ids)

lemma ids_insert:
  assumes "map n_id ms = map n_id ns @ (if has_node i ns then [] else [i])"
  shows "n_id ` set ms = insert i (n_id ` set ns)"
proof -
  have "n_id ` set ms = set (map n_id ms)" by simp
  also have "\<dots> = insert i (n_id ` set ns)" unfolding assms by (auto simp: has_node_def)
  finally show ?thesis .
qed

lemma server_edges_filter:
  "(\<And>e. e \<in> set (sv_edges t) \<Longrightarrow> P e \<longleftrightarrow> Q (se_id e, saved_wire e)) \<Longrightarrow>
     server_edges (t\<lparr>sv_edges := filter P (sv_edges t)\<rparr>) = {p \<in> server_edges t. Q p}"
  unfolding server_edges_def by auto

interpretation mock: graph_store serve server_nodes server_edges
proof
  fix i x y s st t and e :: saved_edge
  show "server_nodes (serve (PutNode i x y s) t) = insert i (server_nodes t)"
    by (simp add: serve_def server_nodes_def ids_insert [OF putNode_ids])
  show "server_nodes (serve (PutSettings i st) t) = insert i (server_nodes t)"
    by (simp add: serve_def server_nodes_def ids_insert [OF putSettings_ids])
  show "server_edges (serve (PutNode i x y s) t) = server_edges t"
    "server_edges (serve (PutSettings i st) t) = server_edges t"
    "server_nodes (serve (DeleteEdge i) t) = server_nodes t"
    "server_nodes (serve (PostEdge e) t) = server_nodes t"
    by (simp_all add: serve_def server_edges_def server_nodes_def deleteEdge_def)
  show "server_nodes (serve (DeleteNode i) t) = server_nodes t - {i}"
    by (auto simp: serve_def server_nodes_def deleteNode_def)
  have "server_edges (deleteNode i t) = server_edges (t\<lparr>sv_edges := filter (\<lambda>e. se_source e \<noteq> i \<and> se_target e \<noteq> i) (sv_edges t)\<rparr>)"
    by (simp add: deleteNode_def server_edges_def)
  then show "server_edges (serve (DeleteNode i) t) = {p \<in> server_edges t. w_source (snd p) \<noteq> i \<and> w_target (snd p) \<noteq> i}"
    by (simp add: serve_def) (rule server_edges_filter, simp add: saved_wire_def)
  show "server_edges (serve (DeleteEdge i) t) = {p \<in> server_edges t. fst p \<noteq> i}"
    by (simp add: serve_def deleteEdge_def) (rule server_edges_filter, simp)
  assume "se_id e \<notin> fst ` server_edges t"
  then have "\<not> (\<exists>x\<in>set (sv_edges t). se_id x = se_id e)" by (auto simp: server_edges_def image_image image_iff)
  then show "server_edges (serve (PostEdge e) t) = insert (se_id e, saved_wire e) (server_edges t)"
    by (simp add: serve_def server_edges_def upsertEdge_def)
next
  fix t and e :: saved_edge
  assume "(se_id e, saved_wire e) \<in> server_edges t"
  then have "\<exists>x\<in>set (sv_edges t). se_id x = se_id e" by (auto simp: server_edges_def)
  then show "server_edges (serve (PostEdge e) t) = server_edges t"
    by (simp add: serve_def server_edges_def upsertEdge_def)
qed

text \<open>
  The development server merges the settings of a node it is sent into those it has; the firmware
  (\<open>node_manager_update_settings\<close>), and the comments in \<open>Topology.tsx\<close> and \<open>EditNodeModal.tsx\<close>, replace
  them.  A server of either kind keeps the graph in the same way.
\<close>

definition serve_as :: "bool \<Rightarrow> request \<Rightarrow> server \<Rightarrow> server" where
  "serve_as merging r sv =
     (case r of
        PutSettings i s \<Rightarrow>
          (if merging then serve r sv
           else sv\<lparr>sv_nodes := (if has_node i (sv_nodes sv)
                then update_first (\<lambda>n. n_id n = i) (\<lambda>n. n\<lparr>n_settings := Some s\<rparr>) (sv_nodes sv)
                else sv_nodes sv @ [config i 0 0 s])\<rparr>)
      | _ \<Rightarrow> serve r sv)"

definition serveAs :: "bool \<Rightarrow> request list \<Rightarrow> server \<Rightarrow> server" where
  "serveAs merging rs sv = foldl (\<lambda>s r. serve_as merging r s) sv rs"

lemma serve_as_merging [simp]: "serve_as True = serve"
  by (intro ext) (simp add: serve_as_def split: request.split)

lemma serve_as_other [simp]:
  "serve_as merging (PutNode i x y s) = serve (PutNode i x y s)" "serve_as merging (DeleteNode i) = serve (DeleteNode i)"
  "serve_as merging (PostEdge e) = serve (PostEdge e)" "serve_as merging (DeleteEdge i) = serve (DeleteEdge i)"
  by (simp_all add: serve_as_def fun_eq_iff)

lemma serveAs_simps [simp]: "serveAs merging [] sv = sv" "serveAs merging (r # rs) sv = serveAs merging rs (serve_as merging r sv)"
  by (simp_all add: serveAs_def)

lemma replaced_ids:
  "map n_id (sv_nodes (serve_as False (PutSettings i s) sv))
     = map n_id (sv_nodes sv) @ (if has_node i (sv_nodes sv) then [] else [i])"
  by (simp add: serve_as_def config_def update_first_ids)

interpretation graph_server: graph_store "serve_as merging" server_nodes server_edges for merging
proof
  fix i st t
  show "server_nodes (serve_as merging (PutSettings i st) t) = insert i (server_nodes t)"
  proof (cases merging)
    case False
    then show ?thesis unfolding server_nodes_def using ids_insert [OF replaced_ids [of i st t]] by simp
  qed (simp add: mock.put_settings)
  show "server_edges (serve_as merging (PutSettings i st) t) = server_edges t"
    by (cases merging) (simp_all add: mock.put_settings, simp add: serve_as_def server_edges_def)
qed (simp_all add: mock.put_node mock.delete_node mock.delete_edge mock.post_edge)

text \<open>Ids in the store are unique.\<close>

definition store_ok :: "server \<Rightarrow> bool" where
  "store_ok sv \<longleftrightarrow> distinct (map n_id (sv_nodes sv)) \<and> distinct (map se_id (sv_edges sv))"

lemma seed_store_ok: "store_ok seed"
  by (simp add: store_ok_def seed_def seed_nodes_def seed_edges_def config_def edge_config_def)

section \<open>Canvas and store stay in step\<close>

text \<open>
  C4.  The stored graph follows the canvas: whenever the nodes and wiring on the canvas agree
  with what the server stores, they agree again after any call of a handler of the topology page
  (and after React Flow moves or selects nodes), once the server has applied the requests the
  handler sent, in order, whether it merges or replaces settings. The edges on the canvas have
  distinct ids made of their wires; requests about existing nodes name nodes that are shown; a
  connection joins nodes with non-empty ids, is not the Unallocated feed, and its id is not that
  of a different wire. addEdge of the library appends a connection, or changes nothing if the
  same handles are joined already.
\<close>

theorem store_follows_canvas:
  assumes step: "canvas_step addEdge base cv (cv', effs)"
    and agree: "agrees cv (server_nodes sv) (server_edges sv)"
    and canvas: "distinct (map e_id (cv_edges cv))" "canonical_ids cv" "names_known cv effs"
    and lib: "library_spec addEdge base"
  shows "agrees cv' (server_nodes (foldl (\<lambda>s r. serve_as merging r s) sv (requests effs)))
                    (server_edges (foldl (\<lambda>s r. serve_as merging r s) sv (requests effs)))"
proof -
  have "agrees_but {} cv (server_nodes sv) (server_edges sv)" using agree by simp
  from graph_server.step_synced [OF step this canvas(1,2) lib canvas(3)] show ?thesis by simp
qed

text \<open>
  The same for a whole Backspace of React Flow: it takes the selected nodes off the canvas before the
  page's key handler has looked at them, which then finds nothing selected and deletes nothing on
  the server.
\<close>

theorem flow_removal_is_not_saved:
  assumes "flow_removes (c_id ` {n \<in> set (cv_nodes cv). c_selected n \<and> c_deletable n \<noteq> Some False}) cv cv'"
  shows "handleKeyDown k cv' = (cv', [])"
proof -
  have "filter (\<lambda>n. c_selected n \<and> c_deletable n \<noteq> Some False) (cv_nodes cv') = []"
    using flow_removes_simps(4) [OF assms] by (auto simp: filter_empty_conv)
  then show ?thesis by (simp add: handleKeyDown_def Let_def)
qed

text \<open>
  A wire that is stored under an id of its own is not found by its id: drawing it again leaves the
  canvas as it is, and the server stores it a second time.
\<close>

theorem redrawn_wire_is_stored_twice:
  assumes agree: "agrees cv (server_nodes sv) (server_edges sv)"
    and old: "e \<in> set (cv_edges cv)" "e_wire e = w" "connect_id w \<notin> insert UNALLOCATED_EDGE_ID (e_id ` set (cv_edges cv))"
    and lib: "library_spec addEdge base"
  shows "fst (onConnect addEdge w cv) = cv"
    and "(connect_id w, w) \<in> server_edges (foldl (\<lambda>s r. serve_as merging r s) sv (requests (snd (onConnect addEdge w cv)))) - savedEdges cv"
proof -
  have "same_connection (e_wire e) w" using old(2) by simp
  then have "addEdge (connect_edge w) (cv_edges cv) = cv_edges cv"
    using old(1) lib by (auto simp: library_spec_def flow_addEdge_def)
  then show "fst (onConnect addEdge w cv) = cv" by (simp add: onConnect_def)
  let ?e = "\<lparr>se_id = connect_id w, se_source = w_source w, se_target = w_target w,
      se_sourceHandle = w_sourceHandle w, se_targetHandle = w_targetHandle w\<rparr>"
  have no: "connect_id w \<notin> fst ` savedEdges cv" using old(3) by (force simp: savedEdges_def)
  then have "se_id ?e \<notin> fst ` server_edges sv" using agree by (simp add: agrees_def)
  from mock.post_edge(2) [OF this] have "(connect_id w, w) \<in> server_edges (serve (PostEdge ?e) sv)"
    by (simp add: saved_wire_def)
  moreover have "(connect_id w, w) \<notin> savedEdges cv" using no by force
  ultimately show "(connect_id w, w) \<in> server_edges (foldl (\<lambda>s r. serve_as merging r s) sv
      (requests (snd (onConnect addEdge w cv)))) - savedEdges cv"
    by (simp add: onConnect_def)
qed

definition solar_server :: server where
  "solar_server = seed\<lparr>sv_nodes := map (\<lambda>n. config (c_id n) 0 0 no_settings) (cv_nodes solar_canvas),
     sv_edges := map (\<lambda>e. \<lparr>se_id = e_id e, se_source = e_source e, se_target = e_target e,
        se_sourceHandle = e_sourceHandle e, se_targetHandle = e_targetHandle e\<rparr>) (cv_edges solar_canvas)\<rparr>"

theorem store_follows_canvas_witness:
  "server_nodes (foldl (\<lambda>s r. serve_as False r s) solar_server (requests (snd (handleKeyDown ''Delete'' solar_canvas))))
     = {''consumer_unit''}"
proof -
  let ?r = "handleKeyDown ''Delete'' solar_canvas"
  have "canvas_step flow_addEdge drop_removed solar_canvas (fst ?r, snd ?r)"
    using canvas_step.key [of flow_addEdge drop_removed solar_canvas "''Delete''"]
    by simp
  moreover have "agrees solar_canvas (server_nodes solar_server) (server_edges solar_server)"
  proof -
    have "\<forall>e\<in>set (cv_edges solar_canvas). e_id e \<noteq> UNALLOCATED_EDGE_ID" by code_simp
    then show ?thesis
      by (force simp: agrees_def savedEdges_def server_nodes_def server_edges_def solar_server_def node_ids_def
            config_def saved_wire_def image_iff)
  qed
  moreover have "distinct (map e_id (cv_edges solar_canvas))" by code_simp
  moreover have "canonical_ids solar_canvas" by code_simp
  moreover have "names_known solar_canvas (snd ?r)"
  proof -
    have "\<forall>e\<in>set (snd ?r). case e of Fetch (DeleteEdge _) \<Rightarrow> True | Fetch (DeleteNode _) \<Rightarrow> True | _ \<Rightarrow> False"
      by code_simp
    then show ?thesis by (force simp: names_known_def)
  qed
  moreover note flow_library
  ultimately have "agrees (fst ?r) (server_nodes (foldl (\<lambda>s r. serve_as False r s) solar_server (requests (snd ?r))))
      (server_edges (foldl (\<lambda>s r. serve_as False r s) solar_server (requests (snd ?r))))"
    by (rule store_follows_canvas)
  then have "node_ids (fst ?r) = server_nodes (foldl (\<lambda>s r. serve_as False r s) solar_server (requests (snd ?r)))"
    by (simp add: agrees_def)
  moreover have "node_ids (fst ?r) = {''consumer_unit''}"
  proof -
    have "map c_id (cv_nodes (fst ?r)) = [''consumer_unit'']" by code_simp
    then show ?thesis by (simp only: node_ids_alt set_simps)
  qed
  ultimately show ?thesis by simp
qed

lemma load_synced:
  assumes "\<forall>e\<in>set (sv_edges sv). se_id e \<noteq> UNALLOCATED_EDGE_ID"
    and r: "r = onInit ps (Some (map_prod id Some (getNodes sv))) cv"
  shows "agrees (fst r) (server_nodes (foldl (\<lambda>s q. serve q s) sv (requests (snd r))))
                        (server_edges (foldl (\<lambda>s q. serve q s) sv (requests (snd r))))"
proof -
  let ?ns = "map (\<lambda>n. n\<lparr>n_values := served_values n\<rparr>) (sv_nodes sv)"
  let ?SB = "standbyMap (default_to [] ps)"
  have r': "r = onInit ps (Some (?ns, Some (sv_edges sv))) cv" by (simp add: r getNodes_def)
  have ids: "n_id ` set ?ns = server_nodes sv" by (simp add: server_nodes_def image_image)
  have nodes: "node_ids (fst r) = insert UNALLOCATED_ID (server_nodes sv)"
    unfolding r' node_ids_alt onInit_Some restoredNodes_ids ids
    by (simp add: server_nodes_def image_image comp_def insert_absorb)
  have "map (\<lambda>e. (e_id e, e_wire e)) (cv_edges (fst r)) = map (\<lambda>e. (se_id e, saved_wire e)) (sv_edges sv)
      @ [(UNALLOCATED_EDGE_ID, e_wire unallocatedEdge)]"
    unfolding r' onInit_Some derivedFlows.wiring using assms(1) by (simp add: restoredEdges_def comp_def)
  then have edges: "savedEdges (fst r) = server_edges sv"
    unfolding savedEdges_alt using assms(1) by (auto simp: server_edges_def)
  have "requests (snd r) = (if UNALLOCATED_ID \<in> server_nodes sv then []
      else [PutNode UNALLOCATED_ID (fst (unallocatedPos ?ns)) (snd (unallocatedPos ?ns)) (Some unallocatedSettings)])"
  proof -
    have "(\<exists>n\<in>set (map (restoredNode ?SB) ?ns). c_id n = UNALLOCATED_ID) \<longleftrightarrow> UNALLOCATED_ID \<in> server_nodes sv"
      unfolding ids [symmetric] by force
    then show ?thesis unfolding r' onInit_Some restoredNodes_def Let_def by simp
  qed
  then show ?thesis
    using nodes edges by (auto simp: agrees_def mock.put_node)
qed

text \<open>
  Opening the topology page on any stored graph shows that graph: after onInit, and after
  the server has applied the one request onInit may send for a missing Unallocated node, canvas
  and store agree.
\<close>

theorem load_agrees_with_store:
  assumes "\<forall>e\<in>set (sv_edges sv). se_id e \<noteq> UNALLOCATED_EDGE_ID"
    and r: "r = onInit ps (Some (map_prod id Some (getNodes sv))) cv"
  shows "agrees (fst r) (server_nodes (foldl (\<lambda>s q. serve q s) sv (requests (snd r))))
                        (server_edges (foldl (\<lambda>s q. serve q s) sv (requests (snd r))))"
  by (rule load_synced [OF assms])

theorem load_agrees_with_store_witness:
  "agrees (fst (onInit None (Some (map_prod id Some (getNodes seed))) initial_canvas))
     (server_nodes (foldl (\<lambda>s q. serve q s) seed (requests (snd (onInit None (Some (map_prod id Some (getNodes seed))) initial_canvas)))))
     (server_edges (foldl (\<lambda>s q. serve q s) seed (requests (snd (onInit None (Some (map_prod id Some (getNodes seed))) initial_canvas)))))"
proof (rule load_agrees_with_store [OF _ refl])
  show "\<forall>e\<in>set (sv_edges seed). se_id e \<noteq> UNALLOCATED_EDGE_ID"
    by (simp add: seed_def seed_edges_def edge_config_def UNALLOCATED_EDGE_ID_def)
qed

section \<open>The store's own invariant\<close>

lemma distinct_upserted:
  "distinct (map n_id ns) \<Longrightarrow> map n_id ms = map n_id ns @ (if has_node i ns then [] else [i]) \<Longrightarrow> distinct (map n_id ms)"
  by (auto simp: has_node_def)

lemma distinct_upsertEdge: "distinct (map se_id es) \<Longrightarrow> distinct (map se_id (upsertEdge e es))"
  by (auto simp: upsertEdge_def)

lemma distinct_append_filtered:
  "distinct (map k xs) \<Longrightarrow> k y = i \<Longrightarrow> distinct (map k (filter (\<lambda>x. k x \<noteq> i) xs @ [y]))"
  by (auto simp: distinct_map_filter)

lemma store_ok_solarChildren:
  "store_ok sv \<Longrightarrow> store_ok (solarChildren nid pos eps parts k sv)"
  by (induction nid pos eps parts k sv rule: solarChildren.induct)
     (auto simp: Let_def store_ok_def distinct_upserted [OF _ upsertNode_ids] distinct_upsertEdge split: option.split)

lemma store_ok_serve:
  assumes "store_ok sv"
  shows "store_ok (serve r sv)"
proof (cases r)
  case (PutNode i x y s)
  then show ?thesis using assms distinct_upserted [OF _ putNode_ids] by (simp add: serve_def store_ok_def)
next
  case (PutSettings i s)
  then show ?thesis using assms distinct_upserted [OF _ putSettings_ids] by (simp add: serve_def store_ok_def)
next
  case (PutRole role nid eid label)
  have t: "store_ok (putTariff nid eid label sv)"
    using assms by (auto simp: putTariff_def Let_def store_ok_def config_def edge_config_def distinct_map_filter split: prod.split)
  have g: "store_ok (fst (putGrid nid eid label sv))"
    using assms distinct_upserted [OF _ upsertNode_ids] by (auto simp: putGrid_def Let_def store_ok_def split: prod.split)
  have s: "store_ok (putSolar nid eid label sv)"
  proof -
    have "store_ok (sv\<lparr>sv_nodes := upsertNode i x y st (sv_nodes sv), sv_edges := upsertEdge e (sv_edges sv)\<rparr>)" for i x y st e
      using assms distinct_upserted [OF _ upsertNode_ids] by (simp add: store_ok_def distinct_upsertEdge)
    then show ?thesis
      unfolding putSolar_def Let_def by (simp add: case_prod_beta store_ok_solarChildren)
  qed
  from t g s assms PutRole show ?thesis by (simp add: serve_def)
qed (use assms in \<open>auto simp: serve_def store_ok_def deleteNode_def deleteEdge_def distinct_map_filter distinct_upsertEdge\<close>)

theorem store_ids_stay_unique:
  "store_ok sv \<Longrightarrow> store_ok (foldl (\<lambda>s r. serve r s) sv rs)"
  by (induction rs arbitrary: sv) (simp_all add: store_ok_serve)

theorem store_ids_stay_unique_witness:
  "store_ok (foldl (\<lambda>s r. serve r s) seed
     [PutRole ''solar'' 10000 13481 ''Solax'', PutNode ''node_14'' 1 2 None, DeleteNode ''node_11''])"
proof -
  note seed_store_ok
  then show ?thesis by (rule store_ids_stay_unique)
qed

section \<open>Assigned endpoints\<close>

lemma inUse_mem:
  "(a, b) \<in> set (inUse ns) \<longleftrightarrow>
     (\<exists>n\<in>set ns. opt_field s_nodeId (n_settings n) = Some a \<and> opt_field s_endpointId (n_settings n) = Some b)"
proof -
  let ?f = "\<lambda>n :: saved_node. case (opt_field s_nodeId (n_settings n), opt_field s_endpointId (n_settings n)) of
        (Some a, Some b) \<Rightarrow> Some (a, b) | _ \<Rightarrow> None"
  have "?f n = Some (a, b) \<longleftrightarrow> opt_field s_nodeId (n_settings n) = Some a \<and> opt_field s_endpointId (n_settings n) = Some b" for n
    by (auto split: option.splits)
  moreover have "(a, b) \<in> set (List.map_filter f ns) \<longleftrightarrow> (\<exists>n\<in>set ns. f n = Some (a, b))" for f :: "saved_node \<Rightarrow> (nat \<times> nat) option"
    by (force simp: map_filter_def)
  ultimately show ?thesis unfolding inUse_def by (simp only:)
qed

lemma offered_iff:
  "(\<exists>ep\<in>set (offeredEndpoints ty sv). en_nodeId ep = a \<and> en_endpointId ep = b) \<longleftrightarrow>
     (\<exists>d\<in>set (sv_devices sv). dv_nodeId d = a \<and> (\<exists>e\<in>set (dv_endpoints d). de_endpointId e = b \<and> ty \<in> set (de_deviceTypes e)))
     \<and> b \<noteq> 0 \<and> (a, b) \<notin> set (inUse (sv_nodes sv))"
  by (auto simp: offeredEndpoints_def)

theorem assigned_endpoint_is_withdrawn:
  assumes "sv' = serve (PutNode i x y (Some s)) sv" and "s_nodeId s = Some a" "s_endpointId s = Some b"
    and "store_ok sv"
  shows "(\<forall>ty. \<forall>ep\<in>set (offeredEndpoints ty sv'). \<not> (en_nodeId ep = a \<and> en_endpointId ep = b))
    \<and> (\<forall>ty. \<forall>ep\<in>set (offeredEndpoints ty (serve (DeleteNode i) sv')).
         \<forall>n\<in>set (sv_nodes sv). n_id n \<noteq> i \<longrightarrow>
           \<not> (opt_field s_nodeId (n_settings n) = Some (en_nodeId ep) \<and> opt_field s_endpointId (n_settings n) = Some (en_endpointId ep)))
    \<and> ((\<forall>n\<in>set (sv_nodes sv). n_id n \<noteq> i \<longrightarrow>
           \<not> (opt_field s_nodeId (n_settings n) = Some a \<and> opt_field s_endpointId (n_settings n) = Some b))
       \<and> (\<exists>d\<in>set (sv_devices sv). dv_nodeId d = a \<and> (\<exists>e\<in>set (dv_endpoints d). de_endpointId e = b \<and> ty \<in> set (de_deviceTypes e)))
       \<and> b \<noteq> 0 \<longrightarrow>
       (\<exists>ep\<in>set (offeredEndpoints ty (serve (DeleteNode i) sv')). en_nodeId ep = a \<and> en_endpointId ep = b))"
proof -
  have nodes: "sv_nodes sv' = putNode i x y (Some s) (sv_nodes sv)" and devs: "sv_devices sv' = sv_devices sv"
    by (simp_all add: assms(1) serve_def)
  have others: "filter (\<lambda>n. n_id n \<noteq> i) (putNode i x y (Some s) ns) = filter (\<lambda>n. n_id n \<noteq> i) ns" for ns
  proof -
    have "filter (\<lambda>n. n_id n \<noteq> i) (update_first (\<lambda>n. n_id n = i) f ns) = filter (\<lambda>n. n_id n \<noteq> i) ns"
      if "\<And>n. n_id (f n) = n_id n" for f
      using that by (induction ns) auto
    then show ?thesis by (simp add: putNode_def config_def)
  qed
  have del: "sv_nodes (serve (DeleteNode i) sv') = filter (\<lambda>n. n_id n \<noteq> i) (sv_nodes sv)"
    "sv_devices (serve (DeleteNode i) sv') = sv_devices sv"
    by (simp_all add: serve_def deleteNode_def nodes others devs)
  have "\<exists>n\<in>set (sv_nodes sv'). n_settings n = Some s"
  proof -
    have "\<exists>n\<in>set (update_first (\<lambda>n. n_id n = i) f ns). n_settings n = Some s"
      if "has_node i ns" "\<And>n. n_settings (f n) = Some s" for f ns
      using that by (induction ns) (auto simp: has_node_def)
    then show ?thesis by (auto simp: nodes putNode_def config_def)
  qed
  then have used: "(a, b) \<in> set (inUse (sv_nodes sv'))"
    using assms(2,3) unfolding inUse_mem by (metis opt_field_simps(2))
  have 1: "\<forall>ty. \<forall>ep\<in>set (offeredEndpoints ty sv'). \<not> (en_nodeId ep = a \<and> en_endpointId ep = b)"
    using offered_iff used by blast
  have 2: "\<not> (opt_field s_nodeId (n_settings n) = Some (en_nodeId ep) \<and> opt_field s_endpointId (n_settings n) = Some (en_endpointId ep))"
    if "ep \<in> set (offeredEndpoints ty (serve (DeleteNode i) sv'))" "n \<in> set (sv_nodes sv)" "n_id n \<noteq> i" for ty ep n
  proof -
    have "(en_nodeId ep, en_endpointId ep) \<notin> set (inUse (filter (\<lambda>n. n_id n \<noteq> i) (sv_nodes sv)))"
      using that(1) offered_iff [of ty "serve (DeleteNode i) sv'" "en_nodeId ep" "en_endpointId ep"] by (auto simp: del)
    then show ?thesis using that(2,3) by (auto simp: inUse_mem)
  qed
  have 3: "\<exists>ep\<in>set (offeredEndpoints ty (serve (DeleteNode i) sv')). en_nodeId ep = a \<and> en_endpointId ep = b"
    if "\<forall>n\<in>set (sv_nodes sv). n_id n \<noteq> i \<longrightarrow>
           \<not> (opt_field s_nodeId (n_settings n) = Some a \<and> opt_field s_endpointId (n_settings n) = Some b)"
      "\<exists>d\<in>set (sv_devices sv). dv_nodeId d = a \<and> (\<exists>e\<in>set (dv_endpoints d). de_endpointId e = b \<and> ty \<in> set (de_deviceTypes e))"
      "b \<noteq> 0"
    using that by (subst offered_iff) (auto simp: del inUse_mem)
  from 1 2 3 show ?thesis by blast
qed

theorem assigned_endpoint_is_withdrawn_witness:
  "\<forall>ep\<in>set (offeredEndpoints 0x0510 (serve (PutNode ''node_14'' 0 0 (Some (device_settings ''PV'' ''pvString'' 10000 13482))) seed)).
     \<not> (en_nodeId ep = 10000 \<and> en_endpointId ep = 13482)"
proof -
  note seed_store_ok
  moreover have "s_nodeId (device_settings ''PV'' ''pvString'' 10000 13482) = Some 10000"
    "s_endpointId (device_settings ''PV'' ''pvString'' 10000 13482) = Some 13482"
    by (simp_all add: device_settings_def)
  ultimately show ?thesis using assigned_endpoint_is_withdrawn [OF refl] by blast
qed

section \<open>Where the server differs from the firmware it stands in for\<close>

theorem mock_merges_settings:
  assumes "has_node i (sv_nodes sv)" and "store_ok sv"
  shows "\<exists>n\<in>set (sv_nodes sv). \<exists>n'\<in>set (sv_nodes (serve (PutSettings i s) sv)). n_id n = i \<and> n_id n' = i
    \<and> n_settings n' = Some (settings_merge (default_to no_settings (n_settings n)) s)
    \<and> (s_name s = None \<longrightarrow> opt_field s_name (n_settings n') = opt_field s_name (n_settings n))"
proof -
  have "\<exists>n\<in>set ns. \<exists>n'\<in>set (putSettings i s ns). n_id n = i \<and> n_id n' = i
    \<and> n_settings n' = Some (settings_merge (default_to no_settings (n_settings n)) s)"
    if "has_node i ns" for ns
  proof -
    have "\<exists>n\<in>set ns. \<exists>n'\<in>set (update_first (\<lambda>n. n_id n = i)
             (\<lambda>n. n\<lparr>n_settings := Some (settings_merge (default_to no_settings (n_settings n)) s)\<rparr>) ns).
        n_id n = i \<and> n_id n' = i \<and> n_settings n' = Some (settings_merge (default_to no_settings (n_settings n)) s)"
      using that by (induction ns) (auto simp: has_node_def)
    then show ?thesis using that by (simp add: putSettings_def)
  qed
  from this [OF assms(1)] have "\<exists>n\<in>set (sv_nodes sv). \<exists>n'\<in>set (sv_nodes (serve (PutSettings i s) sv)). n_id n = i \<and> n_id n' = i
    \<and> n_settings n' = Some (settings_merge (default_to no_settings (n_settings n)) s)"
    by (simp add: serve_def)
  then obtain n n' where n: "n \<in> set (sv_nodes sv)" "n' \<in> set (sv_nodes (serve (PutSettings i s) sv))"
    "n_id n = i" "n_id n' = i" "n_settings n' = Some (settings_merge (default_to no_settings (n_settings n)) s)"
    by blast
  have "opt_field s_name (n_settings n') = opt_field s_name (n_settings n)" if "s_name s = None"
    unfolding n(5) using that by (cases "n_settings n") (simp_all add: settings_merge_def no_settings_def)
  with n show ?thesis by (intro bexI [of _ n] bexI [of _ n']) simp_all
qed

theorem mock_merges_settings_witness:
  "\<exists>n'\<in>set (sv_nodes (serve (PutSettings ''node_11'' (no_settings\<lparr>s_label := Some ''Hob''\<rparr>)) seed)).
     n_id n' = ''node_11'' \<and> opt_field s_name (n_settings n') = Some ''Oven''"
proof -
  have "has_node ''node_11'' (sv_nodes seed)"
    by (simp add: has_node_def seed_def seed_nodes_def config_def)
  from mock_merges_settings [OF this seed_store_ok, of "no_settings\<lparr>s_label := Some ''Hob''\<rparr>"]
  obtain n n' where n: "n \<in> set (sv_nodes seed)" "n_id n = ''node_11''"
    "n' \<in> set (sv_nodes (serve (PutSettings ''node_11'' (no_settings\<lparr>s_label := Some ''Hob''\<rparr>)) seed))" "n_id n' = ''node_11''"
    "opt_field s_name (n_settings n') = opt_field s_name (n_settings n)"
    by (auto simp: no_settings_def)
  have "\<forall>n\<in>set (sv_nodes seed). n_id n = ''node_11'' \<longrightarrow> opt_field s_name (n_settings n) = Some ''Oven''"
    by (simp add: seed_def seed_nodes_def config_def)
  with n show ?thesis by auto
qed

theorem mock_grid_edge_not_stored:
  "sv_edges (serve (PutRole ''grid'' nid eid label) sv) = sv_edges sv
   \<and> snd (putGrid nid eid label sv) = gridEdge
   \<and> (\<exists>e\<in>set (sv_edges (serve (PutRole ''solar'' nid eid label) (sv\<lparr>sv_edges := []\<rparr>))).
        se_source e = ''solar_inverter'' \<and> se_target e = ''consumer_unit'')
   \<and> (\<exists>e\<in>set (sv_edges (serve (PutRole ''tariff'' nid eid label) sv)). se_source e = ''tariff'' \<and> se_target e = ''consumer_unit'')"
proof (intro conjI)
  have up: "x \<in> set es \<Longrightarrow> x \<in> set (upsertEdge e es)" for x e es by (simp add: upsertEdge_def)
  have keep: "x \<in> set (sv_edges sv) \<Longrightarrow> x \<in> set (sv_edges (solarChildren nid pos eps parts k sv))" for x nid pos eps parts k sv
    by (induction nid pos eps parts k sv rule: solarChildren.induct) (simp_all add: Let_def up split: option.split)
  let ?e = "edge_config ''solar_inverter-power-out-consumer_unit-solar_input'' ''solar_inverter'' ''power-out'' ''consumer_unit'' ''solar_input''"
  have "?e \<in> set (sv_edges (serve (PutRole ''solar'' nid eid label) (sv\<lparr>sv_edges := []\<rparr>)))"
    unfolding serve_def putSolar_def Let_def
    by (simp add: case_prod_beta keep upsertEdge_def)
  then show "\<exists>e\<in>set (sv_edges (serve (PutRole ''solar'' nid eid label) (sv\<lparr>sv_edges := []\<rparr>))).
        se_source e = ''solar_inverter'' \<and> se_target e = ''consumer_unit''"
    by (rule bexI [rotated]) (simp add: edge_config_def)
qed (auto simp: serve_def putGrid_def putTariff_def Let_def edge_config_def split: prod.split)

section \<open>Streams and prices\<close>

lemma streams_snoc: "streams (es @ [e]) = streamStep (streams es) e"
  by (simp add: streams_def)

text \<open>
  C23.  The list of energy streams has one entry per neighbour of the consumer unit, on either
  end of an edge, the neighbours wired to the tariff handle excepted.
\<close>

theorem streams_are_the_metered_neighbours:
  assumes "\<forall>e\<in>set es. se_source e \<noteq> [] \<and> se_target e \<noteq> [] \<and> se_source e \<noteq> se_target e"
  shows "distinct (map fst (streams es))
    \<and> fst ` set (streams es)
      = se_target ` {e \<in> set es. se_source e = ''consumer_unit'' \<and> se_sourceHandle e \<noteq> Some ''tariff''}
        \<union> se_source ` {e \<in> set es. se_target e = ''consumer_unit'' \<and> se_targetHandle e \<noteq> Some ''tariff''}"
  using assms
proof (induction es rule: rev_induct)
  case Nil
  then show ?case by (simp add: streams_def)
next
  case (snoc e es)
  then have e: "se_source e \<noteq> []" "se_target e \<noteq> []" "se_source e \<noteq> se_target e"
    and IH: "distinct (map fst (streams es))"
      "fst ` set (streams es)
      = se_target ` {e \<in> set es. se_source e = ''consumer_unit'' \<and> se_sourceHandle e \<noteq> Some ''tariff''}
        \<union> se_source ` {e \<in> set es. se_target e = ''consumer_unit'' \<and> se_targetHandle e \<noteq> Some ''tariff''}"
    by auto
  show ?case
    unfolding streams_snoc streamStep_def Let_def using e IH
    by (cases "se_source e = ''consumer_unit''"; cases "se_target e = ''consumer_unit''"; auto)
qed

theorem streams_are_the_metered_neighbours_witness:
  "fst ` set (streams seed_edges) = {''grid_meter'', ''node_11'', ''node_12'', ''node_13''}"
proof -
  have "\<forall>e\<in>set seed_edges. se_source e \<noteq> [] \<and> se_target e \<noteq> [] \<and> se_source e \<noteq> se_target e"
    by (simp add: seed_edges_def edge_config_def)
  from streams_are_the_metered_neighbours [OF this]
  have "fst ` set (streams seed_edges)
      = se_target ` {e \<in> set seed_edges. se_source e = ''consumer_unit'' \<and> se_sourceHandle e \<noteq> Some ''tariff''}
        \<union> se_source ` {e \<in> set seed_edges. se_target e = ''consumer_unit'' \<and> se_targetHandle e \<noteq> Some ''tariff''}"
    by blast
  also have "\<dots> = {''grid_meter'', ''node_11'', ''node_12'', ''node_13''}"
    unfolding set_filter [symmetric] by (simp add: seed_edges_def edge_config_def insert_commute)
  finally show ?thesis .
qed

end
