(* ===== verification/LoadProps.thy ===== *)
theory LoadProps
  imports CanvasLoad
begin

text \<open>The properties of loading the canvas.\<close>

definition saved_at :: "string \<Rightarrow> settings \<Rightarrow> value_entry list \<Rightarrow> saved_node" where
  "saved_at i s vs = \<lparr>n_id = i, n_x = 40, n_y = 200, n_settings = Some s, n_values = Some vs\<rparr>"

text \<open>A consumer unit with a grid meter and a washing machine reporting power and voltage.\<close>

definition saved_home :: "saved_node list" where
  "saved_home =
     [saved_at CU_ID (no_settings\<lparr>s_type := Some ''consumerUnit'', s_deletable := Some False\<rparr>) [],
      saved_at ''node_11'' (no_settings\<lparr>s_type := Some ''device'', s_nodeId := Some 4, s_endpointId := Some 1\<rparr>)
        [\<lparr>v_cluster = 144, v_attribute = 8, v_value = 2500000\<rparr>],
      saved_at ''node_14'' (no_settings\<lparr>s_name := Some ''Washer'', s_type := Some ''appliance'',
          s_nodeId := Some 5, s_endpointId := Some 1\<rparr>)
        [\<lparr>v_cluster = 144, v_attribute = 4, v_value = 231000\<rparr>,
         \<lparr>v_cluster = 144, v_attribute = 8, v_value = 7000\<rparr>]]"

definition saved_home_edges :: "saved_edge list" where
  "saved_home_edges =
     [\<lparr>se_id = ''e1'', se_source = ''node_11'', se_target = CU_ID,
       se_sourceHandle = Some ''power-out'', se_targetHandle = Some ''grid''\<rparr>,
      \<lparr>se_id = ''e2'', se_source = CU_ID, se_target = ''node_14'',
       se_sourceHandle = Some ''circuit_1'', se_targetHandle = Some ''power-in''\<rparr>]"

definition washer_profile :: profile where
  "washer_profile = \<lparr>pr_graph_id = ''node_14'', pr_trained = True, pr_standby_w = Some (15/2)\<rparr>"

lemma load_canvas_ok:
  assumes g: "graph_ok ns (default_to [] es)" and ps: "cv' = fst (onInit ps (Some (ns, es)) cv)"
  shows "canvas_ok cv' \<and> node_ids cv' = insert UNALLOCATED_ID (n_id ` set ns)
    \<and> node_name (Suc (cv_nodeIdCounter cv')) \<notin> n_id ` set ns"
proof -
  let ?SB = "standbyMap (default_to [] ps)"
  have idl: "map c_id (cv_nodes cv') = map n_id ns @ (if UNALLOCATED_ID \<in> n_id ` set ns then [] else [UNALLOCATED_ID])"
    by (simp only: ps onInit_Some restoredNodes_ids)
  have "node_ids cv' = set (map c_id (cv_nodes cv'))" by (simp add: node_ids_def)
  also have "\<dots> = insert UNALLOCATED_ID (n_id ` set ns)" unfolding idl by auto
  finally have ids: "node_ids cv' = insert UNALLOCATED_ID (n_id ` set ns)" .
  have dist: "distinct (map c_id (cv_nodes cv'))"
    using g by (simp add: idl graph_ok_def)
  have "e_wire ` set (cv_edges cv') = e_wire ` set (restoredEdges (powerByNode ns) ?SB (default_to [] es))"
    unfolding ps onInit_Some by (rule derivedFlows.wire_set)
  also have "\<dots> \<subseteq> insert (e_wire unallocatedEdge) (saved_wire ` set (default_to [] es))"
    by (auto simp: restoredEdges_def)
  finally have w: "e_wire ` set (cv_edges cv') \<subseteq> insert (e_wire unallocatedEdge) (saved_wire ` set (default_to [] es))" .
  have "no_dangling cv'"
    unfolding no_dangling_def ids
  proof
    fix e assume "e \<in> set (cv_edges cv')"
    then have "e_wire e \<in> insert (e_wire unallocatedEdge) (saved_wire ` set (default_to [] es))"
      using w by blast
    then show "e_source e \<in> insert UNALLOCATED_ID (n_id ` set ns) \<and> e_target e \<in> insert UNALLOCATED_ID (n_id ` set ns)"
      using g by (auto simp: graph_ok_def saved_wire_def)
  qed
  moreover have cnt: "counter_above cv'"
    unfolding counter_above_def
  proof
    fix i assume "i \<in> node_ids cv'"
    then obtain n where "n \<in> set (cv_nodes cv')" "c_id n = i" by (auto simp: node_ids_def)
    then show "default_to 0 (id_number ''node_'' i) \<le> cv_nodeIdCounter cv'"
      using restoredCounter_mem [of n "cv_nodes cv'" _ "cv_nodeIdCounter cv"]
      by (cases "id_number ''node_'' i") (auto simp: ps onInit_Some)
  qed
  ultimately show ?thesis
    using dist ids fresh_id [OF cnt] by (simp add: canvas_ok_def)
qed

text \<open>
  C21.  Loading a well-formed saved graph yields a well-formed canvas: distinct node ids, no
  dangling edge, and an id counter above every generated id of the graph, so that the next
  generated id is free.
\<close>

theorem load_yields_ok:
  assumes g: "graph_ok ns (default_to [] es)" and ps: "cv' = fst (onInit ps (Some (ns, es)) cv)"
  shows "canvas_ok cv' \<and> node_ids cv' = insert UNALLOCATED_ID (n_id ` set ns)
    \<and> node_name (Suc (cv_nodeIdCounter cv')) \<notin> n_id ` set ns"
  by (rule load_canvas_ok [OF assms])

theorem load_yields_ok_witness:
  "canvas_ok (fst (onInit (Some [washer_profile]) (Some (saved_home, Some saved_home_edges)) initial_canvas))"
proof -
  have "graph_ok saved_home (default_to [] (Some saved_home_edges))" by code_simp
  from load_yields_ok [OF this refl] show ?thesis by blast
qed

text \<open>
  C35.  Restoring a node from the attribute values cached by the firmware gives the same node as
  restoring it without them and then receiving these values as live reports.
\<close>

theorem hydration_equals_reports:
  assumes "s_nodeId s = Some m" and "s_endpointId s = Some e"
  shows "restoredNode SB \<lparr>n_id = i, n_x = x, n_y = y, n_settings = Some s, n_values = Some vs\<rparr>
    = updateBy (map (as_report m e) vs) SB
        (restoredNode SB \<lparr>n_id = i, n_x = x, n_y = y, n_settings = Some s, n_values = None\<rparr>)"
proof -
  let ?n = "restoredNode SB \<lparr>n_id = i, n_x = x, n_y = y, n_settings = Some s, n_values = None\<rparr>"
  have key: "node_key ?n = measure_key (Some m) (Some e)"
    using assms by (simp add: node_key_def restoredNode_def Let_def)
  have np: "valuesPower [] = no_power" "valuesBattery [] = None" "has_keys no_power = False"
    by (simp_all add: no_power_def valuesPower_def valuesBattery_def has_keys_def)
  have st: "(case SB i of None \<Rightarrow> None | Some w \<Rightarrow> loadStatus (pm_power no_power) w) = None"
    by (simp add: loadStatus_def no_power_def split: option.split)
  have swap: "(case SB i of None \<Rightarrow> None | Some w \<Rightarrow> loadStatus p w)
      = (case p of None \<Rightarrow> None | Some q \<Rightarrow> (case SB i of None \<Rightarrow> None | Some w \<Rightarrow> loadStatus (Some q) w))" for p
    by (simp add: loadStatus_def split: option.split)
  show ?thesis
  proof (cases "has_keys (valuesPower vs)")
    case True
    then show ?thesis
      unfolding updateNode_def key reports_power reports_battery
      by (simp add: restoredNode_def Let_def np st swap [of "pm_power (valuesPower vs)"])
  next
    case False
    then have "valuesPower vs = no_power" by (simp add: has_keys_iff)
    with False show ?thesis
      unfolding updateNode_def key reports_power reports_battery
      by (cases "valuesBattery vs") (simp_all add: restoredNode_def Let_def np st)
  qed
qed

theorem hydration_equals_reports_witness:
  "restoredNode (standbyMap [washer_profile]) (saved_home ! 2)
   = updateBy (map (as_report 5 1) (default_to [] (n_values (saved_home ! 2)))) (standbyMap [washer_profile])
       (restoredNode (standbyMap [washer_profile]) ((saved_home ! 2)\<lparr>n_values := None\<rparr>))
   \<and> nd_status (c_data (restoredNode (standbyMap [washer_profile]) (saved_home ! 2))) = Some Standby"
proof
  let ?s = "no_settings\<lparr>s_name := Some ''Washer'', s_type := Some ''appliance'',
          s_nodeId := Some 5, s_endpointId := Some 1\<rparr>"
  have "s_nodeId ?s = Some 5" "s_endpointId ?s = Some 1" by simp_all
  note h = hydration_equals_reports [OF this, of "standbyMap [washer_profile]"]
  show "restoredNode (standbyMap [washer_profile]) (saved_home ! 2)
   = updateBy (map (as_report 5 1) (default_to [] (n_values (saved_home ! 2)))) (standbyMap [washer_profile])
       (restoredNode (standbyMap [washer_profile]) ((saved_home ! 2)\<lparr>n_values := None\<rparr>))"
    using h by (simp add: saved_home_def saved_at_def)
qed code_simp

theorem load_shows_saved_graph:
  "map (\<lambda>e. (e_id e, e_wire e)) (cv_edges (fst (onInit ps (Some (ns, es)) cv)))
     = map (\<lambda>e. (se_id e, saved_wire e)) (filter (\<lambda>e. se_id e \<noteq> UNALLOCATED_EDGE_ID) (default_to [] es))
       @ [(UNALLOCATED_EDGE_ID, e_wire unallocatedEdge)]
   \<and> map c_id (cv_nodes (fst (onInit ps (Some (ns, es)) cv)))
     = map n_id ns @ (if UNALLOCATED_ID \<in> n_id ` set ns then [] else [UNALLOCATED_ID])
   \<and> (snd (onInit ps (Some (ns, es)) cv) = [] \<or>
      (\<exists>x y. snd (onInit ps (Some (ns, es)) cv) = [Fetch (PutNode UNALLOCATED_ID x y (Some unallocatedSettings))]))
   \<and> onInit ps None cv = (cv, [])"
proof (intro conjI)
  show "map (\<lambda>e. (e_id e, e_wire e)) (cv_edges (fst (onInit ps (Some (ns, es)) cv)))
     = map (\<lambda>e. (se_id e, saved_wire e)) (filter (\<lambda>e. se_id e \<noteq> UNALLOCATED_EDGE_ID) (default_to [] es))
       @ [(UNALLOCATED_EDGE_ID, e_wire unallocatedEdge)]"
    unfolding onInit_Some derivedFlows.wiring by (simp add: restoredEdges_def comp_def)
  show "snd (onInit ps (Some (ns, es)) cv) = [] \<or>
      (\<exists>x y. snd (onInit ps (Some (ns, es)) cv) = [Fetch (PutNode UNALLOCATED_ID x y (Some unallocatedSettings))])"
    unfolding onInit_Some by (simp add: restoredNodes_def Let_def)
  show "onInit ps None cv = (cv, [])" by (simp add: onInit_def)
qed (simp only: onInit_Some restoredNodes_ids)

theorem load_shows_saved_graph_witness:
  "length (cv_edges (fst (onInit None (Some (saved_home, Some saved_home_edges)) initial_canvas))) = 3"
proof -
  have "map (\<lambda>e. (e_id e, e_wire e)) (cv_edges (fst (onInit None (Some (saved_home, Some saved_home_edges)) initial_canvas)))
     = map (\<lambda>e. (se_id e, saved_wire e)) (filter (\<lambda>e. se_id e \<noteq> UNALLOCATED_EDGE_ID) (default_to [] (Some saved_home_edges)))
       @ [(UNALLOCATED_EDGE_ID, e_wire unallocatedEdge)]"
    using load_shows_saved_graph by blast
  from arg_cong [OF this, of length] show ?thesis
    by (simp add: saved_home_edges_def UNALLOCATED_EDGE_ID_def)
qed

theorem restored_zoom_in_range:
  "MIN_ZOOM \<le> snd (snd (initialCentre st ns)) \<and> snd (snd (initialCentre st ns)) \<le> MAX_ZOOM
   \<and> readStoredZoom (Stored (Some ''NaN'')) = None \<and> readStoredZoom Unavailable = None
   \<and> readStoredZoom (onMoveEnd (\<lambda>_. ''1.25'') (5/4) (Stored None)) = Some (5/4)"
proof (intro conjI)
  have z: "MIN_ZOOM \<le> z \<and> z \<le> MAX_ZOOM" if "readStoredZoom st = Some z" for z
    using that by (auto simp: readStoredZoom_def split: storage.splits option.splits if_splits)
  show "MIN_ZOOM \<le> snd (snd (initialCentre st ns))" "snd (snd (initialCentre st ns)) \<le> MAX_ZOOM"
    using z by (cases "readStoredZoom st"; simp add: initialCentre_def Let_def MIN_ZOOM_def MAX_ZOOM_def)+
qed code_simp+

end
