(* ===== verification/Session.thy ===== *)
theory Session
  imports ServerProps LoadProps
begin

text \<open>
  A whole session of the topology page against the server: the page is opened on the stored graph,
  the user and the firmware act on it, every handler's requests are served in order, and React
  Flow may take nodes off the canvas by itself.
\<close>

section \<open>Edge ids stay unique\<close>

definition edge_ids_ok :: "canvas \<Rightarrow> bool" where
  "edge_ids_ok cv \<longleftrightarrow> distinct (map e_id (cv_edges cv))"

lemma edge_ids_same_shape: "same_shape cv cv' \<Longrightarrow> edge_ids_ok cv \<Longrightarrow> edge_ids_ok cv'"
proof -
  assume s: "same_shape cv cv'" and d: "edge_ids_ok cv"
  have "map e_id (cv_edges c) = map fst (map (\<lambda>e. (e_id e, e_wire e)) (cv_edges c))" for c by simp
  then have "map e_id (cv_edges cv') = map e_id (cv_edges cv)" using s unfolding same_shape_def by metis
  with d show ?thesis by (simp add: edge_ids_ok_def)
qed

lemma edge_ids_filter: "edge_ids_ok cv \<Longrightarrow> cv_edges cv' = filter P (cv_edges cv) \<Longrightarrow> edge_ids_ok cv'"
  by (simp add: edge_ids_ok_def distinct_map_filter)

lemma edge_ids_frame: "cv_edges cv' = cv_edges cv \<Longrightarrow> edge_ids_ok cv \<Longrightarrow> edge_ids_ok cv'"
  by (simp add: edge_ids_ok_def)

text \<open>Ids are unique and those of the wires: kept by whatever adds no edges.\<close>

definition edges_ok :: "canvas \<Rightarrow> bool" where
  "edges_ok cv \<longleftrightarrow> edge_ids_ok cv \<and> canonical_ids cv"

lemma edges_ok_same_shape:
  assumes "same_shape cv cv'" "edges_ok cv" shows "edges_ok cv'"
proof -
  have "canonical_ids c \<longleftrightarrow> (\<forall>p\<in>set (map (\<lambda>e. (e_id e, e_wire e)) (cv_edges c)). fst p = connect_id (snd p))" for c
    by (simp add: canonical_ids_def)
  then have "canonical_ids cv'" using assms unfolding same_shape_def edges_ok_def by metis
  then show ?thesis using assms edge_ids_same_shape by (simp add: edges_ok_def)
qed

lemma edges_ok_filter: "edges_ok cv \<Longrightarrow> cv_edges cv' = filter P (cv_edges cv) \<Longrightarrow> edges_ok cv'"
  by (auto simp: edges_ok_def canonical_ids_def intro: edge_ids_filter)

lemma edges_ok_frame: "cv_edges cv' = cv_edges cv \<Longrightarrow> edges_ok cv \<Longrightarrow> edges_ok cv'"
  by (simp add: edges_ok_def edge_ids_ok_def canonical_ids_def)

lemma edges_ok_step:
  assumes "canvas_step addEdge base cv (cv', effs)" and "edges_ok cv"
    and lib: "library_spec addEdge base" and "names_known cv effs"
  shows "edges_ok cv'"
  using assms(1)
proof (cases rule: canvas_step.cases)
  case (ws m)
  then have "same_shape cv cv'" using mock.ws_same_shape [of cv m] by (metis fst_conv)
  then show ?thesis using assms(2) by (rule edges_ok_same_shape)
next
  case (key k)
  show ?thesis
  proof (cases "(cv', effs) = (cv, [])")
    case False
    with key obtain ids where "(cv', effs) = removeAll_ids ids cv"
      by (auto simp: handleKeyDown_def Let_def split: if_splits)
    then have "cv_edges cv' = filter (\<lambda>e. \<not> touches ids e) (cv_edges cv)" by (simp add: removeAll_ids_def)
    with assms(2) show ?thesis by (rule edges_ok_filter)
  qed (use assms(2) in simp)
next
  case (drop r raw pos)
  show ?thesis
  proof (cases "(cv', effs) = (cv, [])")
    case False
    with drop obtain ty l s where "(cv', effs) = insertNode ty pos l s cv"
      by (auto simp: onDrop_def split: option.splits if_splits)
    then have "cv_edges cv' = cv_edges cv" by (simp add: insertNode_def Let_def)
    then show ?thesis using assms(2) by (rule edges_ok_frame)
  qed (use assms(2) in simp)
next
  case (delete_board i)
  then have "cv' = (fst (deleteSubConsumerUnit i cv))" by (metis fst_conv)
  then show ?thesis using assms(2) by (auto simp: deleteSubConsumerUnit_removeAll intro: edges_ok_filter)
next
  case (delete_load i)
  then have "cv' = (fst (deleteLoad i cv))" by (metis fst_conv)
  then show ?thesis using assms(2) by (auto simp: deleteLoad_removeAll intro: edges_ok_filter)
next
  case (connect w)
  then have e: "cv' = fst (onConnect addEdge w cv)" "effs = snd (onConnect addEdge w cv)"
    by (metis fst_conv, metis snd_conv)
  have ok: "names_known cv (snd (onConnect addEdge w cv))" using assms(4) e(2) by simp
  have can: "canonical_ids cv" using assms(2) by (simp add: edges_ok_def)
  from lib can ok show ?thesis
  proof (cases rule: connect_cases)
    case (known f)
    then show ?thesis using assms(2) e by simp
  next
    case new
    then show ?thesis using assms(2) by (auto simp: e edges_ok_def edge_ids_ok_def canonical_ids_def)
  qed
next
  case (edge_changes cs)
  then show ?thesis using assms(2,3) by (auto simp: onEdgesChange_def library_spec_def drop_removed_def intro: edges_ok_filter)
next
  case (overlay f)
  then show ?thesis using overlay_frame [of f cv] assms(2) by (auto intro: edges_ok_frame)
qed (use assms(2) in \<open>auto simp: addSubConsumerUnit_def handleAddLoad_def handleNodeEdited_def setCircuits_def onNodeDoubleClick_def
      onNodeContextMenu_def onPaneContextMenu_def dismissToast_def insertNode_def Let_def case_prod_beta edges_ok_def edge_ids_ok_def canonical_ids_def split: option.splits if_splits\<close>)

section \<open>Opening the page\<close>

definition serveAll :: "request list \<Rightarrow> server \<Rightarrow> server" where
  "serveAll rs sv = foldl (\<lambda>s r. serve r s) sv rs"

text \<open>
  What the server may hold: ids are unique, edges join saved nodes, the consumer unit exists, the
  feed of the Unallocated node, which the page makes itself, is not saved, and every edge is saved
  under the id of its wire, as all edges are that the pages and the server create.
\<close>

definition stored_graph_ok :: "server \<Rightarrow> bool" where
  "stored_graph_ok sv \<longleftrightarrow> store_ok sv \<and> graph_ok (sv_nodes sv) (sv_edges sv)
     \<and> list_all (\<lambda>e. se_id e \<noteq> UNALLOCATED_EDGE_ID \<and> se_id e = connect_id (saved_wire e)) (sv_edges sv)"

lemma unallocated_canonical: "connect_id (e_wire unallocatedEdge) = UNALLOCATED_EDGE_ID"
  by code_simp

lemma opened_edges:
  assumes "stored_graph_ok sv"
  shows "edges_ok (fst (onInit ps (Some (map_prod id Some (getNodes sv))) cv))"
proof -
  let ?es = "cv_edges (fst (onInit ps (Some (map_prod id Some (getNodes sv))) cv))"
  have noun: "\<forall>e\<in>set (sv_edges sv). se_id e \<noteq> UNALLOCATED_EDGE_ID" and dist: "distinct (map se_id (sv_edges sv))"
    and can: "\<forall>e\<in>set (sv_edges sv). se_id e = connect_id (saved_wire e)"
    using assms unfolding stored_graph_ok_def list_all_iff store_ok_def by blast+
  have es: "map (\<lambda>e. (e_id e, e_wire e)) ?es = map (\<lambda>e. (se_id e, saved_wire e)) (sv_edges sv)
      @ [(UNALLOCATED_EDGE_ID, e_wire unallocatedEdge)]"
    unfolding getNodes_def map_prod_simp id_apply onInit_Some derivedFlows.wiring using noun by (simp add: restoredEdges_def comp_def)
  then have "map fst (map (\<lambda>e. (e_id e, e_wire e)) ?es) = map se_id (sv_edges sv) @ [UNALLOCATED_EDGE_ID]" by (simp add: comp_def)
  then have "map e_id ?es = map se_id (sv_edges sv) @ [UNALLOCATED_EDGE_ID]" by (simp add: comp_def)
  moreover have "UNALLOCATED_EDGE_ID \<notin> set (map se_id (sv_edges sv))" using noun by force
  ultimately have "edge_ids_ok (fst (onInit ps (Some (map_prod id Some (getNodes sv))) cv))"
    using dist unfolding edge_ids_ok_def by simp
  moreover have "\<forall>p\<in>set (map (\<lambda>e. (e_id e, e_wire e)) ?es). fst p = connect_id (snd p)"
    unfolding es using can unallocated_canonical by auto
  then have "canonical_ids (fst (onInit ps (Some (map_prod id Some (getNodes sv))) cv))"
    by (simp add: canonical_ids_def)
  ultimately show ?thesis by (simp add: edges_ok_def)
qed

lemma opened_canvas:
  assumes "stored_graph_ok sv"
  shows "canvas_ok (fst (onInit ps (Some (map_prod id Some (getNodes sv))) cv))"
proof -
  let ?ns = "map (\<lambda>n. n\<lparr>n_values := served_values n\<rparr>) (sv_nodes sv)"
  have "graph_ok ?ns (default_to [] (Some (sv_edges sv)))"
    using assms by (simp add: stored_graph_ok_def graph_ok_def comp_def image_image)
  from load_canvas_ok [OF this refl, of ps cv] show ?thesis by (simp add: getNodes_def)
qed

section \<open>The session\<close>

text \<open>
  \<open>lost\<close> are the nodes React Flow took off the canvas by itself, which the page has not deleted on
  the server.  The server merges or replaces the settings it is sent.
\<close>

inductive session :: "(edge \<Rightarrow> edge list \<Rightarrow> edge list) \<Rightarrow> (edge_change list \<Rightarrow> edge list \<Rightarrow> edge list) \<Rightarrow> bool
    \<Rightarrow> canvas \<Rightarrow> server \<Rightarrow> string set \<Rightarrow> bool" for addEdge base merging where
  opened: "stored_graph_ok sv \<Longrightarrow> onInit ps (Some (map_prod id Some (getNodes sv))) cv0 = (cv, effs)
    \<Longrightarrow> session addEdge base merging cv (serveAs merging (requests effs) sv) {}"
| acted: "session addEdge base merging cv sv lost \<Longrightarrow> canvas_step addEdge base cv (cv', effs) \<Longrightarrow> names_known cv effs
    \<Longrightarrow> session addEdge base merging cv' (serveAs merging (requests effs) sv) (lost - deleted effs)"
| flow_removed: "session addEdge base merging cv sv lost \<Longrightarrow> flow_removes gone cv cv'
    \<Longrightarrow> session addEdge base merging cv' sv (lost \<union> (gone \<inter> node_ids cv))"

definition session_inv :: "canvas \<Rightarrow> server \<Rightarrow> string set \<Rightarrow> bool" where
  "session_inv cv sv lost \<longleftrightarrow> agrees_but lost cv (server_nodes sv) (server_edges sv) \<and> canvas_ok cv \<and> edges_ok cv
     \<and> store_ok sv \<and> ids_below (cv_nodeIdCounter cv) lost"

lemma store_ok_serveAll: "store_ok sv \<Longrightarrow> store_ok (serveAll rs sv)"
  unfolding serveAll_def by (induction rs arbitrary: sv) (auto intro: store_ok_serve)

lemma store_ok_serve_as: "store_ok sv \<Longrightarrow> store_ok (serve_as merging r sv)"
proof (cases "merging \<or> (\<forall>i s. r \<noteq> PutSettings i s)")
  case True
  moreover have "serve_as merging r sv = serve r sv" using True by (auto simp: serve_as_def split: request.split)
  ultimately show "store_ok sv \<Longrightarrow> ?thesis" by (simp add: store_ok_serve)
next
  case False
  then obtain i s where r: "r = PutSettings i s" "\<not> merging" by blast
  assume "store_ok sv"
  moreover have "sv_edges (serve_as False (PutSettings i s) sv) = sv_edges sv" by (simp add: serve_as_def)
  moreover have "distinct (map n_id (sv_nodes (serve_as False (PutSettings i s) sv)))"
    using \<open>store_ok sv\<close> unfolding replaced_ids by (auto simp: store_ok_def has_node_def)
  ultimately show ?thesis using r by (simp add: store_ok_def)
qed

lemma store_ok_serveAs: "store_ok sv \<Longrightarrow> store_ok (serveAs merging rs sv)"
  by (induction rs arbitrary: sv) (simp_all add: store_ok_serve_as)

text \<open>Opening the page sends no settings alone.\<close>

lemma opened_serveAs:
  assumes "onInit ps (Some (map_prod id Some (getNodes sv))) cv0 = (cv, effs)"
  shows "serveAs merging (requests effs) t = serveAll (requests effs) t"
proof -
  have "effs = snd (onInit ps (Some (map_prod id Some (getNodes sv))) cv0)" using assms by simp
  then have "effs = [] \<or> (\<exists>i x y s. effs = [Fetch (PutNode i x y s)])"
    unfolding getNodes_def map_prod_simp id_apply onInit_Some by (simp add: restoredNodes_def Let_def)
  then show ?thesis by (auto simp: serveAll_def)
qed

lemma opened_deletes:
  assumes "onInit ps (Some (map_prod id Some (getNodes sv))) cv0 = (cv, effs)"
  shows "deleted effs = {}"
proof -
  have "effs = snd (onInit ps (Some (map_prod id Some (getNodes sv))) cv0)" using assms by simp
  then show ?thesis unfolding getNodes_def map_prod_simp id_apply onInit_Some by (simp add: restoredNodes_def Let_def)
qed

lemma session_inv_opened:
  assumes "stored_graph_ok sv" and "onInit ps (Some (map_prod id Some (getNodes sv))) cv0 = (cv, effs)"
  shows "session_inv cv (serveAs merging (requests effs) sv) {}"
proof -
  have noun: "\<forall>e\<in>set (sv_edges sv). se_id e \<noteq> UNALLOCATED_EDGE_ID"
    using assms(1) unfolding stored_graph_ok_def list_all_iff by blast
  have "agrees cv (server_nodes (serveAll (requests effs) sv)) (server_edges (serveAll (requests effs) sv))"
    using load_synced [OF noun assms(2) [symmetric]] by (simp add: serveAll_def)
  moreover have "store_ok (serveAll (requests effs) sv)"
    using assms(1) by (simp add: stored_graph_ok_def store_ok_serveAll)
  ultimately show ?thesis
    using opened_canvas [OF assms(1), of ps cv0] opened_edges [OF assms(1), of ps cv0] assms(2)
    by (simp add: session_inv_def opened_serveAs [OF assms(2)] ids_below_def)
qed

lemma session_inv_acted:
  assumes "session_inv cv sv lost" and "canvas_step addEdge base cv (cv', effs)" and "names_known cv effs"
    and lib: "library_spec addEdge base"
  shows "session_inv cv' (serveAs merging (requests effs) sv) (lost - deleted effs)"
proof -
  note inv = assms(1) [unfolded session_inv_def edges_ok_def edge_ids_ok_def]
  have "agrees_but (lost - deleted effs) cv' (server_nodes (serveAs merging (requests effs) sv))
      (server_edges (serveAs merging (requests effs) sv))"
    unfolding serveAs_def using inv graph_server.step_synced [OF assms(2) _ _ _ lib assms(3)] by blast
  moreover have "canvas_ok cv'"
    using canvas_ok_step [OF assms(2) library_facts [OF lib]] inv by simp
  moreover have "edges_ok cv'"
    using edges_ok_step [OF assms(2) _ lib assms(3)] assms(1) by (simp add: session_inv_def)
  moreover have "ids_below (cv_nodeIdCounter cv') (lost - deleted effs)"
    using inv counter_step [OF assms(2)] ids_below_mono [of "cv_nodeIdCounter cv" lost] by simp
  ultimately show ?thesis using inv store_ok_serveAs by (simp add: session_inv_def)
qed

lemma session_inv_flow_removed:
  assumes "session_inv cv sv lost" and "flow_removes gone cv cv'"
  shows "session_inv cv' sv (lost \<union> (gone \<inter> node_ids cv))"
proof -
  note inv = assms(1) [unfolded session_inv_def] and rm = flow_removes_simps [OF assms(2)]
  have "agrees_but (lost \<union> (gone \<inter> node_ids cv)) cv' (server_nodes sv) (server_edges sv)"
    using inv rm by (auto simp: agrees_but_def savedEdges_def)
  moreover have "edges_ok cv'" using inv edges_ok_frame [OF rm(2)] by simp
  moreover have "ids_below (cv_nodeIdCounter cv') (lost \<union> (gone \<inter> node_ids cv))"
    using inv rm(3) ids_below_mono [of "cv_nodeIdCounter cv" "node_ids cv"]
    by (simp add: canvas_ok_def counter_above_ids)
  ultimately show ?thesis using inv canvas_ok_flow_removes [OF assms(2)] by (simp add: session_inv_def)
qed

lemma session_keeps_inv:
  assumes "session addEdge base merging cv sv lost" and "library_spec addEdge base"
  shows "session_inv cv sv lost"
  using assms(1)
proof induction
  case (opened sv ps cv0 cv effs)
  then show ?case by (rule session_inv_opened)
next
  case (acted cv sv lost cv' effs)
  then show ?case using session_inv_acted assms(2) by blast
next
  case (flow_removed cv sv lost gone cv')
  then show ?case using session_inv_flow_removed by blast
qed

lemma session_fresh:
  assumes "session_inv cv sv lost"
  shows "node_name (Suc (cv_nodeIdCounter cv)) \<notin> server_nodes sv"
proof (rule fresh_name)
  have "server_nodes sv = node_ids cv \<union> lost" using assms by (simp add: session_inv_def agrees_but_def)
  then show "ids_below (cv_nodeIdCounter cv) (server_nodes sv)"
    using assms by (simp add: session_inv_def canvas_ok_def counter_above_ids)
qed

text \<open>An example: the page is opened on the seeded store, and a sub consumer unit is added.\<close>

lemma seed_stored_graph_ok: "stored_graph_ok seed"
proof -
  have "list_all (\<lambda>e. se_id e \<noteq> UNALLOCATED_EDGE_ID \<and> se_id e = connect_id (saved_wire e)) seed_edges" by code_simp
  then have "list_all (\<lambda>e. se_id e \<noteq> UNALLOCATED_EDGE_ID \<and> se_id e = connect_id (saved_wire e)) (sv_edges seed)"
    by (simp add: seed_def)
  moreover have "graph_ok (sv_nodes seed) (sv_edges seed)"
    by (simp add: seed_def seed_nodes_def seed_edges_def config_def edge_config_def graph_ok_def CU_ID_def)
  ultimately show ?thesis by (simp add: stored_graph_ok_def seed_store_ok)
qed

definition opened_seed :: "canvas \<times> effect list" where
  "opened_seed = onInit None (Some (map_prod id Some (getNodes seed))) initial_canvas"

definition extended_seed :: "canvas \<times> effect list" where
  "extended_seed = addSubConsumerUnit (0, 0) (fst opened_seed)"

lemma example_session:
  "session flow_addEdge drop_removed merging (fst extended_seed)
     (serveAs merging (requests (snd extended_seed)) (serveAs merging (requests (snd opened_seed)) seed)) {}"
proof -
  have "session flow_addEdge drop_removed merging (fst opened_seed) (serveAs merging (requests (snd opened_seed)) seed) {}"
    by (rule opened [OF seed_stored_graph_ok, of None initial_canvas]) (simp add: opened_seed_def)
  moreover have "canvas_step flow_addEdge drop_removed (fst opened_seed) (fst extended_seed, snd extended_seed)"
    using canvas_step.add_board [of flow_addEdge drop_removed "fst opened_seed" "(0, 0)"] by (simp add: extended_seed_def)
  moreover have "names_known (fst opened_seed) (snd extended_seed)"
    by (auto simp: names_known_def extended_seed_def addSubConsumerUnit_def insertNode_def Let_def case_prod_beta)
  ultimately show ?thesis using acted by fastforce
qed

end
