(* ===== verification/FlowProps.thy ===== *)
theory FlowProps
  imports FlowFacts
begin

text \<open>
  The properties of the derived flows.  \<open>E\<close> are the canvas edges, \<open>S\<close> the ids of the sub
  consumer units in the order of the nodes.
\<close>

section \<open>An example canvas\<close>

definition mk_edge :: "string \<Rightarrow> string \<Rightarrow> string \<Rightarrow> string \<Rightarrow> rat option \<Rightarrow> edge" where
  "mk_edge s sh t th kw =
     \<lparr>e_id = join ''-'' [s, sh, t, th],
      e_wire = \<lparr>w_source = s, w_target = t, w_sourceHandle = Some sh, w_targetHandle = Some th\<rparr>,
      e_look = PowerFlow, e_deletable = True, e_selectable = True,
      e_data = Some \<lparr>d_kw = Some (default_to 0 kw), d_meteredKw = kw, d_idle = Some False, d_rawKw = None\<rparr>\<rparr>"

text \<open>A grid meter feeding the consumer unit and a sub board \<open>s\<close> with two loads.\<close>

definition demo_edges :: "edge list" where
  "demo_edges =
     [mk_edge ''g'' ''power-out'' ''consumer_unit'' ''grid'' (Some (- 5)),
      mk_edge ''g'' ''power-out'' ''s'' ''power-in'' None,
      mk_edge ''s'' ''circuit_1'' ''a'' ''power-in'' (Some (- 1)),
      mk_edge ''s'' ''circuit_2'' ''b'' ''power-in'' (Some (- 2)),
      mk_edge ''consumer_unit'' ''circuit_1'' ''c'' ''power-in'' (Some (- 1 / 2)),
      mk_edge ''consumer_unit'' ''unallocated'' ''unallocated'' ''power-in'' None]"

lemmas demo_defs = demo_edges_def mk_edge_def feedsAt_def endKey_def handleKey_def
  default_to_def kw_of_def metered_of_def idle_of_def edgeFlow_def

text \<open>
  C3.  The memoised, cycle-guarded recursion totalFor computes the recursive sum of the
  specification boardSpec for every board of an acyclic wiring: the flow of a board is the sum
  of the flows of its circuits, a nested board counting with its own total, and the board is
  idle exactly when every circuit is idle or carries nothing.
\<close>

theorem totalFor_refines_board_sum:
  assumes "board_rank r E S" and "c \<in> set S"
  shows "fst (totalFor E S [] Map.empty c) = boardSpec r E S c
    \<and> fst (boardSpec r E S c) = sum_list (map (\<lambda>e. fst (shareOf r E S e)) (filter (\<lambda>e. e_source e = c) E))
    \<and> (snd (boardSpec r E S c) \<longleftrightarrow>
         (\<forall>e\<in>set (filter (\<lambda>e. e_source e = c) E). snd (shareOf r E S e) \<or> fst (shareOf r E S e) = 0))"
  using totalFor_spec [OF assms memo_ok_empty]
  by (simp add: boardSpec_unfold [OF assms] foldl_addFlow_fst foldl_addFlow_snd comp_def)

theorem totalFor_refines_board_sum_witness:
  "fst (totalFor demo_edges [''s''] [] Map.empty ''s'') = boardSpec (\<lambda>_. 0) demo_edges [''s''] ''s''
   \<and> fst (boardSpec (\<lambda>_. 0) demo_edges [''s''] ''s'') = - 3"
proof -
  have "board_rank (\<lambda>_. 0) demo_edges [''s'']"
    by (simp add: board_rank_def demo_defs)
  from totalFor_refines_board_sum [OF this, of "''s''"] show ?thesis
    by (simp add: shareOf_def demo_defs)
qed

text \<open>
  C15.  After withSubCuFeeds the feed of a sub consumer unit carries exactly the sum of what the
  edges leaving the board carry, provided none of its loads shares a circuit handle with a board
  feed and the wiring is acyclic.
\<close>

theorem subCu_feed_balances:
  assumes rank: "board_rank r E S" and c: "c \<in> set S" and ids: "distinct (map e_id E)"
    and untapped: "\<And>e b. e \<in> set E \<Longrightarrow> e_source e = c \<Longrightarrow> e_target e \<notin> set S \<Longrightarrow> feedsAt S (endKey e b) E = []"
    and f: "f \<in> set (withSubCuFeeds E S)" "e_target f = c"
  shows "kw_of f = Some (sum_list (map kw0 (filter (\<lambda>e. e_source e = c) (withSubCuFeeds E S))))"
proof -
  have S: "S \<noteq> []" using c by auto
  note map = withSubCuFeeds_map [OF rank S]
  have kw: "kw0 (feedEdge r E S e) = fst (shareOf r E S e)" if "e \<in> set E" "e_source e = c" for e
    using that untapped [of e] feedEdge_untapped [OF ids, of e S r]
    by (cases "e_target e \<in> set S") (simp_all add: shareOf_def edgeFlow_def feedEdge_feed)
  have "filter (\<lambda>e. e_source e = c) (map (feedEdge r E S) E) = map (feedEdge r E S) (filter (\<lambda>e. e_source e = c) E)"
    by (simp add: filter_map comp_def)
  then have "sum_list (map kw0 (filter (\<lambda>e. e_source e = c) (withSubCuFeeds E S)))
      = sum_list (map (\<lambda>e. kw0 (feedEdge r E S e)) (filter (\<lambda>e. e_source e = c) E))"
    by (simp add: map comp_def)
  also have "\<dots> = sum_list (map (\<lambda>e. fst (shareOf r E S e)) (filter (\<lambda>e. e_source e = c) E))"
    using kw by (intro sum_list_cong) auto
  also have "\<dots> = fst (boardSpec r E S c)"
    by (simp add: boardSpec_unfold [OF rank c] foldl_addFlow_fst comp_def)
  finally show ?thesis using f c by (auto simp: map feedEdge_feed)
qed

theorem subCu_feed_balances_witness:
  "kw_of (withSubCuFeeds demo_edges [''s''] ! 1)
     = Some (sum_list (map kw0 (filter (\<lambda>e. e_source e = ''s'') (withSubCuFeeds demo_edges [''s'']))))
   \<and> kw_of (withSubCuFeeds demo_edges [''s''] ! 1) = Some (- 3)"
proof
  have rank: "board_rank (\<lambda>_. 0) demo_edges [''s'']" by code_simp
  have ids: "distinct (map e_id demo_edges)" by code_simp
  have "list_all (\<lambda>e. e_source e = ''s'' \<longrightarrow> e_target e \<notin> set [''s''] \<longrightarrow>
      feedsAt [''s''] (endKey e True) demo_edges = [] \<and> feedsAt [''s''] (endKey e False) demo_edges = [])
      demo_edges" by code_simp
  then have untapped: "feedsAt [''s''] (endKey e b) demo_edges = []"
    if "e \<in> set demo_edges" "e_source e = ''s''" "e_target e \<notin> set [''s'']" for e b
    using that by (cases b) (auto simp: list_all_iff)
  have "1 < length (withSubCuFeeds demo_edges [''s''])" by code_simp
  then have mem: "withSubCuFeeds demo_edges [''s''] ! 1 \<in> set (withSubCuFeeds demo_edges [''s''])"
    by (rule nth_mem)
  have tgt: "e_target (withSubCuFeeds demo_edges [''s''] ! 1) = ''s''" by code_simp
  show "kw_of (withSubCuFeeds demo_edges [''s''] ! 1)
     = Some (sum_list (map kw0 (filter (\<lambda>e. e_source e = ''s'') (withSubCuFeeds demo_edges [''s'']))))"
    by (rule subCu_feed_balances [OF rank _ ids untapped mem tgt]) auto
  show "kw_of (withSubCuFeeds demo_edges [''s''] ! 1) = Some (- 3)" by code_simp
qed

section \<open>A shared metered handle\<close>

text \<open>Flow leaving a handle along an edge that meets it at its source or at its target.\<close>

definition away :: "edge \<Rightarrow> bool \<Rightarrow> rat" where
  "away e atSource = (if atSource then - kw0 e else kw0 e)"

lemma filter_own_id: "distinct (map e_id E) \<Longrightarrow> e \<in> set E \<Longrightarrow> filter (\<lambda>x. e_id x = e_id e) E = [e]"
proof (induction E)
  case (Cons x E)
  then show ?case by (cases "x = e") (auto simp: filter_empty_conv, metis image_eqI)
qed simp

text \<open>
  C36.  Where a metered handle feeds sub consumer units (with no cycle among them) and exactly
  one other edge, which shares no handle with board feeds at its other end, withSubCuFeeds
  redraws that edge with the remainder: in its output the flow leaving the handle along that
  edge and along the board feeds adds up to the reading stamped on the edge.
\<close>

theorem shared_handle_balances:
  assumes rank: "board_rank r E S" and ids: "distinct (map e_id E)"
    and e: "e \<in> set E" "e_target e \<notin> set S"
    and fed: "feedsAt S (endKey e b) E \<noteq> []"
    and sole: "tapsAt S (endKey e b) E = [(e, b)]"
    and other: "feedsAt S (endKey e (\<not> b)) E = []"
    and m: "metered_of e = Some m"
  shows "\<exists>e'. filter (\<lambda>x. e_id x = e_id e) (withSubCuFeeds E S) = [e'] \<and> e_wire e' = e_wire e
    \<and> away e' b + sum_list (map (\<lambda>f. away f True) (feedsAt S (endKey e b) (withSubCuFeeds E S))) = (if b then - m else m)"
proof (intro exI conjI)
  let ?F = "feedsAt S (endKey e b) E"
  have S: "S \<noteq> []" using fed by (auto simp: feedsAt_def)
  note out = withSubCuFeeds_map [OF rank S]
  have "drawnAt r E S (endKey e b) = Some (- sum_list (map (\<lambda>f. fst (boardSpec r E S (e_target f))) ?F))"
    using fed by (simp add: drawnAt_def)
  then have "kw0 (feedEdge r E S e)
      = (if b then m - sum_list (map (\<lambda>f. fst (boardSpec r E S (e_target f))) ?F)
         else m + sum_list (map (\<lambda>f. fst (boardSpec r E S (e_target f))) ?F))"
    using remainderKw_single [OF ids e(1) sole, of "drawnAt r E S" _ m] other m e(2)
    by (cases b) (simp_all add: feedEdge_def drawnAt_def)
  moreover have "feedsAt S (endKey e b) (withSubCuFeeds E S) = map (feedEdge r E S) ?F"
    by (simp add: out feedsAt_def filter_map comp_def endKey_def)
  moreover have "sum_list (map (\<lambda>f. away (feedEdge r E S f) True) ?F)
      = sum_list (map (\<lambda>f. - fst (boardSpec r E S (e_target f))) ?F)"
    by (rule sum_list_cong) (auto simp: away_def feedsAt_def feedEdge_feed)
  moreover have "sum_list (map (\<lambda>f. - fst (boardSpec r E S (e_target f))) ?F)
      = - sum_list (map (\<lambda>f. fst (boardSpec r E S (e_target f))) ?F)"
    by (simp add: uminus_sum_list_map comp_def)
  ultimately show "away (feedEdge r E S e) b
      + sum_list (map (\<lambda>f. away f True) (feedsAt S (endKey e b) (withSubCuFeeds E S))) = (if b then - m else m)"
    by (cases b) (simp_all add: away_def comp_def)
  have "filter (\<lambda>x. e_id x = e_id e) E = [e]" using ids e(1) by (rule filter_own_id)
  then show "filter (\<lambda>x. e_id x = e_id e) (withSubCuFeeds E S) = [feedEdge r E S e]"
    by (simp add: out filter_map comp_def)
qed simp

theorem shared_handle_balances_witness:
  "away (withSubCuFeeds demo_edges [''s''] ! 0) True + away (withSubCuFeeds demo_edges [''s''] ! 1) True = 5"
proof -
  let ?E = demo_edges and ?S = "[''s'']" and ?r = "\<lambda>_::string. 0::nat"
  let ?e = "demo_edges ! 0"
  have rank: "board_rank ?r ?E ?S" by code_simp
  have ids: "distinct (map e_id ?E)" by code_simp
  have "0 < length ?E" by code_simp
  then have mem: "?e \<in> set ?E" by (rule nth_mem)
  have tgt: "e_target ?e \<notin> set ?S" by code_simp
  have fed: "feedsAt ?S (endKey ?e True) ?E = [?E ! 1]" by code_simp
  have sole: "tapsAt ?S (endKey ?e True) ?E = [(?e, True)]" by code_simp
  have other: "feedsAt ?S (endKey ?e (\<not> True)) ?E = []" by code_simp
  have m: "metered_of ?e = Some (- 5)" by code_simp
  obtain e' where e': "filter (\<lambda>x. e_id x = e_id ?e) (withSubCuFeeds ?E ?S) = [e']"
    and bal: "away e' True + sum_list (map (\<lambda>f. away f True) (feedsAt ?S (endKey ?e True) (withSubCuFeeds ?E ?S))) = 5"
    using shared_handle_balances [OF rank ids mem tgt _ sole other m] by (auto simp: fed)
  have "filter (\<lambda>x. e_id x = e_id ?e) (withSubCuFeeds ?E ?S) = [withSubCuFeeds ?E ?S ! 0]" by code_simp
  moreover have "feedsAt ?S (endKey ?e True) (withSubCuFeeds ?E ?S) = [withSubCuFeeds ?E ?S ! 1]" by code_simp
  ultimately show ?thesis using e' bal by simp
qed

text \<open>
  A load with a meter of its own that shares a circuit handle with a board feed is redrawn
  with its own reading less the draw of the boards, although its meter measures only the load
  itself.
\<close>

theorem sibling_load_misreported:
  assumes rank: "board_rank r E S" and ids: "distinct (map e_id E)"
    and e: "e \<in> set E" "e_target e \<notin> set S" "edgePowerNodeId (e_wire e) = e_target e"
    and fed: "feedsAt S (endKey e True) E \<noteq> []"
    and sole: "tapsAt S (endKey e True) E = [(e, True)]"
    and other: "feedsAt S (endKey e False) E = []"
    and m: "metered_of e = Some m" "kw_of e = Some m"
  shows "kw_of (feedEdge r E S e)
       = Some (m - sum_list (map (\<lambda>f. fst (boardSpec r E S (e_target f))) (feedsAt S (endKey e True) E)))"
  using remainderKw_single [OF ids e(1) sole, of "drawnAt r E S" _ m] other m fed e(2)
  by (simp add: feedEdge_def drawnAt_def)

text \<open>
  The witness: circuit 1 feeds a 2 kW load and a board drawing 0.5 kW.  The load's own meter says
  2 kW out of the circuit (\<open>-2\<close> along the edge); the canvas draws 1.5 kW.
\<close>

definition shared_circuit :: "edge list" where
  "shared_circuit =
     [mk_edge ''consumer_unit'' ''circuit_1'' ''oven'' ''power-in'' (Some (- 2)),
      mk_edge ''consumer_unit'' ''circuit_1'' ''s'' ''power-in'' None,
      mk_edge ''s'' ''circuit_1'' ''lamp'' ''power-in'' (Some (- 1 / 2))]"

theorem sibling_load_misreported_witness:
  "kw_of (withSubCuFeeds shared_circuit [''s''] ! 0) = Some (- 3 / 2)
   \<and> metered_of (shared_circuit ! 0) = Some (- 2)"
proof
  let ?E = shared_circuit and ?S = "[''s'']" and ?r = "\<lambda>_::string. 0::nat"
  let ?e = "shared_circuit ! 0"
  have rank: "board_rank ?r ?E ?S" by code_simp
  have ids: "distinct (map e_id ?E)" by code_simp
  have "0 < length ?E" by code_simp
  then have mem: "?e \<in> set ?E" by (rule nth_mem)
  have tgt: "e_target ?e \<notin> set ?S" by code_simp
  have own: "edgePowerNodeId (e_wire ?e) = e_target ?e" by code_simp
  have fed: "feedsAt ?S (endKey ?e True) ?E = [?E ! 1]" by code_simp
  then have fed': "feedsAt ?S (endKey ?e True) ?E \<noteq> []" by simp
  have sole: "tapsAt ?S (endKey ?e True) ?E = [(?e, True)]" by code_simp
  have other: "feedsAt ?S (endKey ?e False) ?E = []" by code_simp
  have m: "metered_of ?e = Some (- 2)" "kw_of ?e = Some (- 2)" by code_simp+
  have tot: "fst (boardSpec ?r ?E ?S (e_target (?E ! 1))) = - 1 / 2" by code_simp
  have "withSubCuFeeds ?E ?S = map (feedEdge ?r ?E ?S) ?E"
    by (rule withSubCuFeeds_map [OF rank]) simp
  with \<open>0 < length ?E\<close> have "withSubCuFeeds ?E ?S ! 0 = feedEdge ?r ?E ?S ?e" by simp
  with sibling_load_misreported [OF rank ids mem tgt own fed' sole other m]
  show "kw_of (withSubCuFeeds shared_circuit [''s''] ! 0) = Some (- 3 / 2)"
    using tot by (simp add: fed)
  show "metered_of (shared_circuit ! 0) = Some (- 2)" by (rule m(1))
qed

section \<open>The main consumer unit and the whole pass\<close>

definition tariff_edge :: "edge \<Rightarrow> bool" where
  "tariff_edge e \<longleftrightarrow> isTariffEdge (e_sourceHandle e) (e_targetHandle e)"

text \<open>Net power into a node over the edges that carry power.\<close>

definition netInto :: "string \<Rightarrow> edge list \<Rightarrow> rat" where
  "netInto n E = sum_list (map (\<lambda>e. inflow n (e_wire e) (kw0 e)) (filter (\<lambda>e. \<not> tariff_edge e) E))"

lemma netInto_split:
  "netInto CU_ID E = unallocatedRaw E
     + sum_list (map (\<lambda>e. inflow CU_ID (e_wire e) (kw0 e))
         (filter (\<lambda>e. e_id e = UNALLOCATED_EDGE_ID \<and> \<not> tariff_edge e) E))"
proof -
  have "filter countsForCu E = filter (\<lambda>e. e_id e \<noteq> UNALLOCATED_EDGE_ID) (filter (\<lambda>e. \<not> tariff_edge e) E)"
    by (induction E) (auto simp: countsForCu_def tariff_edge_def)
  moreover have "filter (\<lambda>e. e_id e = UNALLOCATED_EDGE_ID \<and> \<not> tariff_edge e) E
      = filter (\<lambda>e. \<not> e_id e \<noteq> UNALLOCATED_EDGE_ID) (filter (\<lambda>e. \<not> tariff_edge e) E)"
    by (induction E) auto
  ultimately show ?thesis
    unfolding netInto_def unallocatedRaw_sum by (simp only: sum_list_filter_split [symmetric])
qed

text \<open>
  C14.  After withUnallocated the main consumer unit balances: the net power into it over the
  power edges is zero, or the negative raw remainder when the metered loads exceed the supply;
  the Unallocated feed carries the remainder clamped at zero and keeps the raw value for the
  metering warning.
\<close>

theorem unallocated_balances:
  assumes u: "filter (\<lambda>e. e_id e = UNALLOCATED_EDGE_ID) E = [u]"
    and wire: "e_source u = CU_ID" "e_target u \<noteq> CU_ID" "\<not> tariff_edge u"
  shows "netInto CU_ID (withUnallocated E) = min 0 (unallocatedRaw E)
    \<and> (\<forall>e\<in>set (withUnallocated E). e_id e = UNALLOCATED_EDGE_ID \<longrightarrow>
         kw_of e = Some (- max 0 (unallocatedRaw E)) \<and> raw_of e = Some (unallocatedRaw E))"
proof
  let ?raw = "unallocatedRaw E"
  let ?f = "setUnallocated (- max 0 ?raw) ?raw"
  have w: "withUnallocated E = map ?f E" by (simp add: withUnallocated_def Let_def)
  have "filter (\<lambda>e. e_id e = UNALLOCATED_EDGE_ID \<and> \<not> tariff_edge e) (withUnallocated E)
      = map ?f (filter (\<lambda>e. \<not> tariff_edge e) (filter (\<lambda>e. e_id e = UNALLOCATED_EDGE_ID) E))"
    by (simp add: w filter_map comp_def tariff_edge_def conj_commute)
  also have "\<dots> = [?f u]" using wire(3) by (simp add: u)
  finally have un: "filter (\<lambda>e. e_id e = UNALLOCATED_EDGE_ID \<and> \<not> tariff_edge e) (withUnallocated E) = [?f u]" .
  have "e_id u = UNALLOCATED_EDGE_ID"
    using filter_eq_singleD [OF u] by blast
  then have "inflow CU_ID (e_wire (?f u)) (kw0 (?f u)) = - max 0 ?raw"
    using wire by (simp add: inflow_def setUnallocated_values)
  then show "netInto CU_ID (withUnallocated E) = min 0 ?raw"
    by (simp add: netInto_split un)
  show "\<forall>e\<in>set (withUnallocated E). e_id e = UNALLOCATED_EDGE_ID \<longrightarrow>
         kw_of e = Some (- max 0 ?raw) \<and> raw_of e = Some ?raw"
    by (auto simp: w setUnallocated_values)
qed

theorem unallocated_balances_witness:
  "netInto CU_ID (withUnallocated (withSubCuFeeds demo_edges [''s''])) = 0
   \<and> kw_of (withUnallocated (withSubCuFeeds demo_edges [''s'']) ! 5) = Some (- 3 / 2)"
proof
  let ?E = "withSubCuFeeds demo_edges [''s'']"
  have u: "filter (\<lambda>e. e_id e = UNALLOCATED_EDGE_ID) ?E = [?E ! 5]" by code_simp
  have wire: "e_source (?E ! 5) = CU_ID" "e_target (?E ! 5) \<noteq> CU_ID" "\<not> tariff_edge (?E ! 5)"
    by code_simp+
  have "unallocatedRaw ?E = 3 / 2" by code_simp
  with unallocated_balances [OF u wire]
  show "netInto CU_ID (withUnallocated ?E) = 0" by simp
  show "kw_of (withUnallocated ?E ! 5) = Some (- 3 / 2)" by code_simp
qed

text \<open>
  Deriving flows never changes the graph: ids and wiring of all edges stay in place and in
  order, the meter readings stamped on the edges survive, and the unallocated pass is
  idempotent.
\<close>

theorem derived_flows_keep_wiring:
  "map (\<lambda>e. (e_id e, e_wire e)) (withDerivedFlows E S) = map (\<lambda>e. (e_id e, e_wire e)) E
   \<and> map (\<lambda>e. metered_of e) (withUnallocated E) = map metered_of E
   \<and> withUnallocated (withUnallocated E) = withUnallocated E"
proof (intro conjI)
  show "map (\<lambda>e. (e_id e, e_wire e)) (withDerivedFlows E S) = map (\<lambda>e. (e_id e, e_wire e)) E"
    by (rule derivedFlows.wiring)
  show "map (\<lambda>e. metered_of e) (withUnallocated E) = map metered_of E"
    by (simp add: withUnallocated_def Let_def setUnallocated_values)
  show "withUnallocated (withUnallocated E) = withUnallocated E"
    by (simp add: withUnallocated_def Let_def unallocatedRaw_map setUnallocated_idem)
qed

section \<open>Readings\<close>

text \<open>
  A grid edge may be saved in either orientation: the reading of the grid meter (positive =
  import) is power flowing into the consumer unit in both.
\<close>

theorem grid_reading_orientation_independent:
  assumes "w_targetHandle e = Some ''grid''" "w_target e = cu" "w_source e = meter"
    and "w_sourceHandle e' = Some ''grid''" "w_source e' = cu" "w_target e' = meter" "meter \<noteq> cu"
    and "w_targetHandle e' \<noteq> Some ''grid''"
  shows "inflow cu e (edgeKw e (edgePowerNodeId e) p) = p / 1000000
    \<and> inflow cu e' (edgeKw e' (edgePowerNodeId e') p) = p / 1000000"
  using assms by (simp add: edgeKw_grid_inflow)

theorem grid_reading_orientation_independent_witness:
  "inflow ''consumer_unit'' \<lparr>w_source = ''grid_meter'', w_target = ''consumer_unit'',
      w_sourceHandle = Some ''power-out'', w_targetHandle = Some ''grid''\<rparr>
     (edgeKw \<lparr>w_source = ''grid_meter'', w_target = ''consumer_unit'',
      w_sourceHandle = Some ''power-out'', w_targetHandle = Some ''grid''\<rparr> ''grid_meter'' 1500000) = 3 / 2"
  using grid_reading_orientation_independent
    [of "\<lparr>w_source = ''grid_meter'', w_target = ''consumer_unit'',
         w_sourceHandle = Some ''power-out'', w_targetHandle = Some ''grid''\<rparr>"
        "''consumer_unit''" "''grid_meter''"
        "\<lparr>w_source = ''consumer_unit'', w_target = ''grid_meter'',
         w_sourceHandle = Some ''grid'', w_targetHandle = Some ''power-in''\<rparr>" 1500000]
  by (simp add: edgePowerNodeId_def)

text \<open>
  The derived running state is monotone in the draw (Off below Standby below Running), an
  appliance without a learned standby never shows Standby, and Running means the draw is above
  the top of the learned standby band.
\<close>

theorem loadStatus_monotone:
  assumes "p \<le> q"
  shows "the (loadStatus (Some p) standbyW) \<le> the (loadStatus (Some q) standbyW)
    \<and> (standbyW \<le> 0 \<longrightarrow> loadStatus (Some p) standbyW \<noteq> Some Standby)
    \<and> (loadStatus (Some p) standbyW = Some Running \<longrightarrow> standbyW + STANDBY_BAND_HALF_W < p / 1000)"
  using loadStatus_mono_aux [OF assms]
  by (auto simp: loadStatus_def Let_def STANDBY_BAND_HALF_W_def split: if_splits)

theorem loadStatus_monotone_witness:
  "the (loadStatus (Some 6000) (15/2)) \<le> the (loadStatus (Some 1150000) (15/2))
   \<and> loadStatus (Some 6000) (15/2) = Some Standby \<and> loadStatus (Some 1150000) (15/2) = Some Running"
proof (intro conjI)
  have "(6000::rat) \<le> 1150000" by simp
  from loadStatus_monotone [OF this, of "15/2"]
  show "the (loadStatus (Some 6000) (15/2)) \<le> the (loadStatus (Some 1150000) (15/2))" by blast
qed code_simp+

end
