(* ===== verification/HomeProps.thy ===== *)
theory HomeProps
  imports Home
begin

text \<open>Facts and properties of the appliance slots on the Home page.\<close>

section \<open>Slots\<close>

definition somes :: "'a option list \<Rightarrow> 'a list" where
  "somes xs = map the (filter (\<lambda>x. x \<noteq> None) xs)"

lemma somes_simps [simp]:
  "somes [] = []" "somes (None # xs) = somes xs" "somes (Some x # xs) = x # somes xs"
  "somes (xs @ ys) = somes xs @ somes ys"
  by (simp_all add: somes_def)

lemma somes_replicate [simp]: "somes (replicate n None) = []"
  by (simp add: somes_def)

lemma set_somes: "set (somes xs) = {x. Some x \<in> set xs}"
  by (force simp: somes_def)

lemma somes_update_None:
  "i < length xs \<Longrightarrow> xs ! i = None \<Longrightarrow> mset (somes (xs[i := Some x])) = mset (somes xs) + {#x#}"
  by (simp add: upd_conv_take_nth_drop id_take_nth_drop [of i xs, symmetric])
     (metis (no_types, lifting) add_mset_add_single id_take_nth_drop mset_append somes_simps(2,4) union_mset_add_mset_right)

lemma indexOfNull_Some:
  assumes "indexOfNull xs = Some k"
  shows "k < length xs \<and> xs ! k = None \<and> None \<notin> set (take k xs)"
  using assms
proof (induction xs arbitrary: k rule: indexOfNull.induct)
  case (3 x xs)
  then show ?case by (cases "indexOfNull xs") auto
qed auto

lemma indexOfNull_None: "indexOfNull xs = None \<longleftrightarrow> None \<notin> set xs"
  by (induction xs rule: indexOfNull.induct) (auto split: option.splits)

text \<open>
  While the remaining loads are filled in, the slots split into a full part and a part that holds
  none of them.
\<close>

definition filling :: "('a \<Rightarrow> bool) \<Rightarrow> 'a option list \<Rightarrow> 'a option list \<Rightarrow> 'a option list \<Rightarrow> bool" where
  "filling P xs A B \<longleftrightarrow> xs = A @ B \<and> None \<notin> set A \<and> (\<forall>x. Some x \<in> set B \<longrightarrow> \<not> P x)
     \<and> (None \<in> set B \<longrightarrow> length xs \<le> APPLIANCE_SLOTS)"

lemma filter_somes_Nil: "\<forall>x. Some x \<in> set B \<longrightarrow> \<not> P x \<Longrightarrow> filter P (somes B) = []"
  by (auto simp: filter_empty_conv set_somes)

lemma fillStep_filling:
  assumes f: "filling P xs A B" and x: "P x"
  shows "\<exists>A' B'. filling P (fillStep xs x) A' B'
    \<and> filter P (somes (fillStep xs x)) = filter P (somes xs) @ [x]
    \<and> mset (somes (fillStep xs x)) = mset (somes xs) + {#x#}
    \<and> length xs \<le> length (fillStep xs x)
    \<and> (\<forall>i<length xs. xs ! i \<noteq> None \<longrightarrow> fillStep xs x ! i = xs ! i)"
proof (cases "None \<in> set B")
  case False
  with f have "indexOfNull xs = None" by (auto simp: indexOfNull_None filling_def)
  then have eq: "fillStep xs x = xs @ [Some x]" by (simp add: fillStep_def)
  have "filling P (fillStep xs x) (xs @ [Some x]) []"
    using f False unfolding eq by (auto simp: filling_def)
  then show ?thesis using x by (intro exI [of _ "xs @ [Some x]"] exI [of _ "[]"]) (simp add: eq nth_append)
next
  case True
  with f have "None \<in> set xs" by (auto simp: filling_def)
  then obtain k where k: "indexOfNull xs = Some k" using indexOfNull_None [of xs] by auto
  note kp = indexOfNull_Some [OF k]
  have len: "length xs \<le> APPLIANCE_SLOTS" using f True unfolding filling_def by blast
  then have eq: "fillStep xs x = xs[k := Some x]" using k kp by (simp add: fillStep_def)
  have kA: "length A \<le> k"
  proof (rule ccontr)
    assume "\<not> length A \<le> k"
    then have "xs ! k = A ! k" "k < length A" using f by (simp_all add: filling_def nth_append)
    then show False using kp f by (metis filling_def nth_mem)
  qed
  let ?A = "take k xs @ [Some x]" and ?B = "drop (Suc k) xs"
  have upd: "xs[k := Some x] = ?A @ ?B" using kp by (simp add: upd_conv_take_nth_drop)
  have xsd: "xs = take k xs @ None # ?B" using kp by (metis id_take_nth_drop)
  have B: "set ?B \<subseteq> set B"
  proof -
    have "?B = drop (Suc k - length A) B" using f kA by (simp add: filling_def)
    then show ?thesis by (metis set_drop_subset)
  qed
  then have "\<forall>y. Some y \<in> set ?B \<longrightarrow> \<not> P y" using f by (auto simp: filling_def)
  then have fill: "filling P (fillStep xs x) ?A ?B" and nil: "filter P (somes ?B) = []"
    using kp len unfolding filling_def eq upd by (auto simp: filter_somes_Nil simp flip: upd)
  have "filter P (somes xs) = filter P (somes (take k xs))"
    by (subst xsd) (simp add: nil)
  then have "filter P (somes (fillStep xs x)) = filter P (somes xs) @ [x]"
    unfolding eq upd using x nil by simp
  moreover have "mset (somes (fillStep xs x)) = mset (somes xs) + {#x#}"
    unfolding eq using kp by (intro somes_update_None) simp_all
  ultimately show ?thesis using fill kp by (auto simp: eq nth_list_update)
qed

lemma fill_all:
  assumes "filling P xs A B" and "\<forall>x\<in>set os. P x"
  shows "filter P (somes (foldl fillStep xs os)) = filter P (somes xs) @ os
    \<and> mset (somes (foldl fillStep xs os)) = mset (somes xs) + mset os
    \<and> length xs \<le> length (foldl fillStep xs os)
    \<and> (\<forall>i<length xs. xs ! i \<noteq> None \<longrightarrow> foldl fillStep xs os ! i = xs ! i)"
  using assms
proof (induction os arbitrary: xs A B)
  case (Cons y ys)
  from fillStep_filling [OF Cons.prems(1), of y] Cons.prems(2)
  obtain A' B' where 1: "filling P (fillStep xs y) A' B'"
    and 2: "filter P (somes (fillStep xs y)) = filter P (somes xs) @ [y]"
      "mset (somes (fillStep xs y)) = mset (somes xs) + {#y#}"
      "length xs \<le> length (fillStep xs y)"
      "\<forall>i<length xs. xs ! i \<noteq> None \<longrightarrow> fillStep xs y ! i = xs ! i"
    by auto
  from Cons.IH [OF 1] Cons.prems(2) 2 show ?case by (auto simp: add.assoc)
qed simp

section \<open>Placing the appliances that keep their slot\<close>

text \<open>Ids of the form \<open>appliance_N\<close> are written without leading zeros.\<close>

definition canonical :: "string \<Rightarrow> bool" where
  "canonical i \<longleftrightarrow> (\<forall>k. id_number ''appliance_'' i = Some k \<longrightarrow> i = ''appliance_'' @ dec k)"

definition is_other :: "appliance_slot \<Rightarrow> bool" where
  "is_other s \<longleftrightarrow> ownIndex (as_graphId s) APPLIANCE_SLOTS = None"

lemma slotOf_graphId: "slotOf S n = Some s \<Longrightarrow> as_graphId s = hn_id n"
  by (auto simp: slotOf_def split: option.splits if_splits)

lemma ownIndex_Some:
  "ownIndex i len = Some k \<Longrightarrow> canonical i \<Longrightarrow> k < len \<and> i = applianceNodeId k"
  by (auto simp: ownIndex_def canonical_def applianceNodeId_def split: option.splits if_splits)

lemma ownIndex_applianceNodeId: "k < len \<Longrightarrow> ownIndex (applianceNodeId k) len = Some k"
  unfolding ownIndex_def applianceNodeId_def id_number_dec by simp

definition placed :: "string list \<Rightarrow> home_node list \<Rightarrow> appliance_slot option list \<Rightarrow> appliance_slot list \<Rightarrow> bool" where
  "placed S N slots others \<longleftrightarrow>
     length slots = APPLIANCE_SLOTS
     \<and> mset (somes slots) + mset others = mset (somes (map (slotOf S) N))
     \<and> others = filter is_other (somes (map (slotOf S) N))
     \<and> (\<forall>i<APPLIANCE_SLOTS. \<forall>s. slots ! i = Some s \<longrightarrow> as_graphId s = applianceNodeId i \<and> \<not> is_other s)
     \<and> (\<forall>n\<in>set N. \<forall>s i. slotOf S n = Some s \<longrightarrow> ownIndex (hn_id n) APPLIANCE_SLOTS = Some i \<longrightarrow> slots ! i = Some s)"

lemma placed_all:
  assumes "distinct (map hn_id N)" and "\<forall>n\<in>set N. canonical (hn_id n)"
  shows "\<exists>slots others. foldl (placeStep S) (replicate APPLIANCE_SLOTS None, []) N = (slots, others)
    \<and> placed S N slots others"
  using assms
proof (induction N rule: rev_induct)
  case Nil
  show ?case by (simp add: placed_def)
next
  case (snoc n N)
  then obtain slots others where st: "foldl (placeStep S) (replicate APPLIANCE_SLOTS None, []) N = (slots, others)"
    and p: "placed S N slots others" by auto
  have len: "length slots = APPLIANCE_SLOTS" using p by (simp add: placed_def)
  show ?case
  proof (cases "slotOf S n")
    case None
    then have "foldl (placeStep S) (replicate APPLIANCE_SLOTS None, []) (N @ [n]) = (slots, others)"
      using st by (simp add: placeStep_def)
    moreover have "placed S (N @ [n]) slots others" using p None by (auto simp: placed_def)
    ultimately show ?thesis by blast
  next
    case (Some s)
    note gid = slotOf_graphId [OF Some]
    show ?thesis
    proof (cases "ownIndex (hn_id n) APPLIANCE_SLOTS")
      case None
      then have "is_other s" by (simp add: is_other_def gid)
      moreover have "foldl (placeStep S) (replicate APPLIANCE_SLOTS None, []) (N @ [n]) = (slots, others @ [s])"
        using st None Some len by (simp add: placeStep_def)
      ultimately show ?thesis using p None Some by (auto simp: placed_def)
    next
      case own: (Some i)
      have i: "i < APPLIANCE_SLOTS" "hn_id n = applianceNodeId i"
        using ownIndex_Some [OF own] snoc.prems(2) by auto
      have other: "\<not> is_other s" using own by (simp add: is_other_def gid)
      have step: "foldl (placeStep S) (replicate APPLIANCE_SLOTS None, []) (N @ [n]) = (slots[i := Some s], others)"
        using st own Some len by (simp add: placeStep_def)
      have empty: "slots ! i = None"
      proof (rule ccontr)
        assume "slots ! i \<noteq> None"
        then obtain t where t: "slots ! i = Some t" by auto
        with p i(1) have "as_graphId t = hn_id n" by (auto simp: placed_def i(2))
        moreover have "t \<in> set (somes slots)" using t i(1) len by (metis mem_Collect_eq nth_mem set_somes)
        then have "t \<in> set (somes (map (slotOf S) N))"
          using p unfolding placed_def by (metis UnCI set_mset_mset set_mset_union)
        then obtain m where "m \<in> set N" "slotOf S m = Some t" by (auto simp: set_somes)
        ultimately show False
          using snoc.prems(1) slotOf_graphId [of S m t] by (auto simp: image_iff)
      qed
      have m: "mset (somes (slots[i := Some s])) = mset (somes slots) + {#s#}"
        using empty i(1) len by (intro somes_update_None) simp_all
      have ne: "j \<noteq> i" if "m \<in> set N" "ownIndex (hn_id m) APPLIANCE_SLOTS = Some j" for m j
      proof
        assume "j = i"
        then have "hn_id m = hn_id n" using ownIndex_Some [OF that(2)] snoc.prems(2) that(1) i(2) by simp
        then show False using snoc.prems(1) that(1) by (auto simp: image_iff)
      qed
      have rest: "somes (map (slotOf S) (N @ [n])) = somes (map (slotOf S) N) @ [s]" using Some by simp
      have "mset (somes (slots[i := Some s])) + mset others = mset (somes (map (slotOf S) (N @ [n])))"
      proof -
        have "mset (somes slots) + mset others = mset (somes (map (slotOf S) N))"
          using p unfolding placed_def by blast
        then have "mset (somes slots) + {#s#} + mset others = mset (somes (map (slotOf S) N)) + {#s#}"
          by (metis add.assoc add.commute)
        then show ?thesis unfolding rest m mset_append by simp
      qed
      moreover have "others = filter is_other (somes (map (slotOf S) (N @ [n])))"
        using p other unfolding rest placed_def by simp
      moreover have "\<forall>j<APPLIANCE_SLOTS. \<forall>t. slots[i := Some s] ! j = Some t
          \<longrightarrow> as_graphId t = applianceNodeId j \<and> \<not> is_other t"
        using p other gid i len by (simp add: placed_def nth_list_update)
      moreover have "\<forall>m\<in>set (N @ [n]). \<forall>t j. slotOf S m = Some t
          \<longrightarrow> ownIndex (hn_id m) APPLIANCE_SLOTS = Some j \<longrightarrow> slots[i := Some s] ! j = Some t"
      proof (intro ballI allI impI)
        fix m t j
        assume m: "m \<in> set (N @ [n])" "slotOf S m = Some t" "ownIndex (hn_id m) APPLIANCE_SLOTS = Some j"
        show "slots[i := Some s] ! j = Some t"
        proof (cases "m \<in> set N")
          case True
          then have "slots ! j = Some t" using p m(2,3) by (auto simp: placed_def)
          then show ?thesis using ne [OF True m(3)] by simp
        next
          case False
          then have "m = n" using m(1) by simp
          then show ?thesis using m own Some i(1) len by simp
        qed
      qed
      ultimately have "placed S (N @ [n]) (slots[i := Some s]) others"
        unfolding placed_def length_list_update using len by blast
      with step show ?thesis by blast
    qed
  qed
qed

lemma applianceSlots_layout:
  assumes "distinct (map hn_id N)" and "\<forall>n\<in>set N. canonical (hn_id n)"
  shows "mset (somes (applianceSlots N E)) = mset (somes (map (slotOf (supplyIds E)) N))
    \<and> filter is_other (somes (applianceSlots N E))
      = sort_key (\<lambda>s. order (as_graphId s)) (filter is_other (somes (map (slotOf (supplyIds E)) N)))
    \<and> (\<forall>n\<in>set N. \<forall>s i. slotOf (supplyIds E) n = Some s \<longrightarrow> ownIndex (hn_id n) APPLIANCE_SLOTS = Some i
         \<longrightarrow> applianceSlots N E ! i = Some s)
    \<and> APPLIANCE_SLOTS \<le> length (applianceSlots N E)"
proof -
  let ?S = "supplyIds E"
  from placed_all [OF assms, of ?S]
  obtain slots others where st: "foldl (placeStep ?S) (replicate APPLIANCE_SLOTS None, []) N = (slots, others)"
    and p: "placed ?S N slots others" by auto
  let ?os = "sort_key (\<lambda>s. order (as_graphId s)) others"
  have eq: "applianceSlots N E = foldl fillStep slots ?os" by (simp add: applianceSlots_def st)
  have len: "length slots = APPLIANCE_SLOTS" using p by (simp add: placed_def)
  have no: "\<not> is_other x" if "Some x \<in> set slots" for x
    using that p len by (metis in_set_conv_nth placed_def)
  have "filling is_other slots [] slots" using len no by (auto simp: filling_def)
  moreover have "\<forall>x\<in>set ?os. is_other x" using p by (simp add: placed_def)
  ultimately have f: "filter is_other (somes (applianceSlots N E)) = filter is_other (somes slots) @ ?os"
    "mset (somes (applianceSlots N E)) = mset (somes slots) + mset ?os"
    "length slots \<le> length (applianceSlots N E)"
    "\<forall>i<length slots. slots ! i \<noteq> None \<longrightarrow> applianceSlots N E ! i = slots ! i"
    unfolding eq by (metis fill_all)+
  have "filter is_other (somes slots) = []" using no by (auto simp: filter_empty_conv set_somes)
  with f p len show ?thesis
    using ownIndex_Some assms(2) by (auto simp: placed_def)
qed

section \<open>Properties\<close>

definition load_node :: "string \<Rightarrow> string \<Rightarrow> nat \<Rightarrow> home_node" where
  "load_node i ty k = \<lparr>hn_id = i, hn_x = None, hn_y = None, hn_settings =
     Some (no_settings\<lparr>s_label := Some ''Plug'', s_type := Some ty, s_nodeId := Some k, s_endpointId := Some 1\<rparr>)\<rparr>"

definition demo_home :: "home_node list" where
  "demo_home = [load_node ''node_12'' ''device'' 12, load_node ''appliance_2'' ''appliance'' 2,
     load_node ''node_11'' ''device'' 11, load_node ''node_13'' ''device'' 13]"

definition demo_home_edges :: "saved_edge list" where
  "demo_home_edges = [\<lparr>se_id = ''g'', se_source = ''node_13'', se_target = ''consumer_unit'',
     se_sourceHandle = Some ''power-out'', se_targetHandle = Some ''grid''\<rparr>,
    \<lparr>se_id = ''c'', se_source = ''consumer_unit'', se_target = ''node_11'',
     se_sourceHandle = Some ''circuit_1'', se_targetHandle = Some ''power-in''\<rparr>]"

lemma id_number_None: "\<not> starts_with p i \<Longrightarrow> id_number p i = None"
  by (simp add: id_number_def)

lemma demo_home_ok: "distinct (map hn_id demo_home)" "\<forall>n\<in>set demo_home. canonical (hn_id n)"
proof -
  show "distinct (map hn_id demo_home)" by code_simp
  have "id_number ''appliance_'' ''appliance_2'' = Some 2" "''appliance_'' @ dec 2 = ''appliance_2''"
    by code_simp+
  moreover have "id_number ''appliance_'' ''node_12'' = None" "id_number ''appliance_'' ''node_11'' = None"
    "id_number ''appliance_'' ''node_13'' = None"
    by code_simp+
  ultimately have "canonical ''appliance_2''" "canonical ''node_12''" "canonical ''node_11''" "canonical ''node_13''"
    by (auto simp: canonical_def)
  then show "\<forall>n\<in>set demo_home. canonical (hn_id n)"
    by (simp add: demo_home_def load_node_def)
qed

text \<open>
  C9.  Laying the loads of a graph with unique node ids, written without leading zeros, over the
  appliance slots of the Home page loses and duplicates none: the slots hold exactly the loads
  of the graph, a load with a slot of its own stands in it, and the others follow in the order
  of their ids.
\<close>

theorem no_load_lost:
  assumes "distinct (map hn_id N)" and "\<forall>n\<in>set N. canonical (hn_id n)"
  shows "mset (somes (applianceSlots N E)) = mset (somes (map (slotOf (supplyIds E)) N))
    \<and> filter is_other (somes (applianceSlots N E))
      = sort_key (\<lambda>s. order (as_graphId s)) (filter is_other (somes (map (slotOf (supplyIds E)) N)))
    \<and> (\<forall>n\<in>set N. \<forall>s i. slotOf (supplyIds E) n = Some s \<longrightarrow> ownIndex (hn_id n) APPLIANCE_SLOTS = Some i
         \<longrightarrow> applianceSlots N E ! i = Some s)"
  using applianceSlots_layout [OF assms] by blast

theorem no_load_lost_witness:
  "mset (map as_graphId (somes (applianceSlots demo_home demo_home_edges)))
     = {#''appliance_2'', ''node_11'', ''node_12''#}
   \<and> map (map_option as_graphId) (take 4 (applianceSlots demo_home demo_home_edges))
     = [Some ''node_11'', Some ''appliance_2'', Some ''node_12'', None]"
proof
  have "mset (somes (applianceSlots demo_home demo_home_edges))
      = mset (somes (map (slotOf (supplyIds demo_home_edges)) demo_home))"
    using no_load_lost [OF demo_home_ok] by blast
  then have "image_mset as_graphId (mset (somes (applianceSlots demo_home demo_home_edges)))
      = image_mset as_graphId (mset (somes (map (slotOf (supplyIds demo_home_edges)) demo_home)))"
    by simp
  then have "mset (map as_graphId (somes (applianceSlots demo_home demo_home_edges)))
      = mset (map as_graphId (somes (map (slotOf (supplyIds demo_home_edges)) demo_home)))"
    by simp
  also have "map as_graphId (somes (map (slotOf (supplyIds demo_home_edges)) demo_home))
      = [''node_12'', ''appliance_2'', ''node_11'']" by code_simp
  finally show "mset (map as_graphId (somes (applianceSlots demo_home demo_home_edges)))
     = {#''appliance_2'', ''node_11'', ''node_12''#}" by simp
  show "map (map_option as_graphId) (take 4 (applianceSlots demo_home demo_home_edges))
     = [Some ''node_11'', Some ''appliance_2'', Some ''node_12'', None]" by code_simp
qed

lemma freeCircuitHandle_cases:
  assumes "slot < APPLIANCE_SLOTS"
  shows "(\<exists>k<APPLIANCE_SLOTS. freeCircuitHandle E slot = applianceCircuitHandle k)
    \<and> ((\<exists>k<APPLIANCE_SLOTS. \<forall>e\<in>set E. se_source e = HOME_CU \<longrightarrow> se_sourceHandle e \<noteq> Some (applianceCircuitHandle k))
       \<longrightarrow> (\<forall>e\<in>set E. se_source e = HOME_CU \<longrightarrow> se_sourceHandle e \<noteq> Some (freeCircuitHandle E slot)))"
proof -
  let ?used = "map se_sourceHandle (filter (\<lambda>e. se_source e = HOME_CU) E)"
  let ?hs = "map applianceCircuitHandle [0..<APPLIANCE_SLOTS]"
  have used: "Some h \<in> set ?used \<longleftrightarrow> (\<exists>e\<in>set E. se_source e = HOME_CU \<and> se_sourceHandle e = Some h)" for h
    by (auto simp: image_iff)
  show ?thesis
  proof (cases "Some (applianceCircuitHandle slot) \<notin> set ?used")
    case True
    then have "freeCircuitHandle E slot = applianceCircuitHandle slot" by (simp add: freeCircuitHandle_def)
    with True assms show ?thesis unfolding used by auto
  next
    case False
    then have eq: "freeCircuitHandle E slot
        = default_to (applianceCircuitHandle slot) (find (\<lambda>h. Some h \<notin> set ?used) ?hs)"
      by (simp add: freeCircuitHandle_def)
    show ?thesis
    proof (cases "find (\<lambda>h. Some h \<notin> set ?used) ?hs")
      case None
      then have "\<forall>h\<in>set ?hs. Some h \<in> set ?used" by (metis (mono_tags, lifting) find_None_iff)
      then have "\<forall>k<APPLIANCE_SLOTS. \<exists>e\<in>set E. se_source e = HOME_CU \<and> se_sourceHandle e = Some (applianceCircuitHandle k)"
        unfolding used by auto
      with eq None assms show ?thesis by auto
    next
      case (Some h)
      then have "h \<in> set ?hs" "Some h \<notin> set ?used" by (auto simp: find_Some_iff)
      with eq Some show ?thesis unfolding used by auto
    qed
  qed
qed

text \<open>
  A device assigned to an empty slot gets a graph id that no load of the graph has and one
  of the circuits of the consumer unit, a free one whenever there is one.
\<close>

theorem new_appliance_takes_free_id_and_circuit:
  assumes ids: "distinct (map hn_id N)" "\<forall>n\<in>set N. canonical (hn_id n)"
    and page: "hm_appliances h = applianceSlots N E" "hm_edges h = E"
    and slot: "slot < APPLIANCE_SLOTS" "applianceSlots N E ! slot = None"
    and p: "p = editProps slot h"
  shows "ep_wire p \<and> ep_initialSelected p = None
    \<and> (\<forall>n\<in>set N. slotOf (supplyIds E) n \<noteq> None \<longrightarrow> hn_id n \<noteq> ep_topologyNodeId p)
    \<and> (\<exists>k<APPLIANCE_SLOTS. ep_sourceHandle p = applianceCircuitHandle k)
    \<and> ((\<exists>k<APPLIANCE_SLOTS. \<forall>e\<in>set E. se_source e = HOME_CU \<longrightarrow> se_sourceHandle e \<noteq> Some (applianceCircuitHandle k))
       \<longrightarrow> (\<forall>e\<in>set E. se_source e = HOME_CU \<longrightarrow> se_sourceHandle e \<noteq> Some (ep_sourceHandle p)))"
proof -
  note lay = applianceSlots_layout [OF ids, of E]
  then have len: "slot < length (hm_appliances h)" using slot(1) page(1) by simp
  then have ex: "(if slot < length (hm_appliances h) then hm_appliances h ! slot else None) = None"
    using slot(2) page(1) by simp
  have pf: "ep_wire p" "ep_initialSelected p = None" "ep_topologyNodeId p = applianceNodeId slot"
    "ep_sourceHandle p = freeCircuitHandle E slot"
    unfolding p editProps_def Let_def ex by (simp_all add: page(2))
  have "hn_id n \<noteq> applianceNodeId slot" if n: "n \<in> set N" "slotOf (supplyIds E) n \<noteq> None" for n
  proof
    assume "hn_id n = applianceNodeId slot"
    then have "ownIndex (hn_id n) APPLIANCE_SLOTS = Some slot"
      using ownIndex_applianceNodeId slot(1) by simp
    with n lay have "applianceSlots N E ! slot \<noteq> None" by auto
    with slot(2) show False by simp
  qed
  with pf freeCircuitHandle_cases [OF slot(1), of E] show ?thesis by simp
qed

theorem new_appliance_takes_free_id_and_circuit_witness:
  "ep_topologyNodeId (editProps 3 (initial_home\<lparr>hm_appliances := applianceSlots demo_home demo_home_edges,
       hm_edges := demo_home_edges\<rparr>)) = ''appliance_4''
   \<and> ep_wire (editProps 3 (initial_home\<lparr>hm_appliances := applianceSlots demo_home demo_home_edges,
       hm_edges := demo_home_edges\<rparr>))"
proof
  let ?h = "initial_home\<lparr>hm_appliances := applianceSlots demo_home demo_home_edges, hm_edges := demo_home_edges\<rparr>"
  show "ep_topologyNodeId (editProps 3 ?h) = ''appliance_4''" by code_simp
  have "hm_appliances ?h = applianceSlots demo_home demo_home_edges" "hm_edges ?h = demo_home_edges" by simp_all
  moreover have "3 < APPLIANCE_SLOTS" by (simp add: APPLIANCE_SLOTS_def)
  moreover have "applianceSlots demo_home demo_home_edges ! 3 = None" by code_simp
  ultimately show "ep_wire (editProps 3 ?h)"
    using new_appliance_takes_free_id_and_circuit [OF demo_home_ok _ _ _ _ refl] by blast
qed

theorem appliance_delete_order:
  assumes slot: "slot < length (hm_appliances h)" "hm_appliances h ! slot = Some a" "as_graphId a \<noteq> []"
    and run: "run_plan fails (handleApplianceDelete reload slot h) h = (h', reqs)"
  shows "(\<forall>e\<in>set (hm_edges h). se_source e = as_graphId a \<or> se_target e = as_graphId a
            \<longrightarrow> DeleteEdge (se_id e) \<in> set reqs)
    \<and> (DeleteNode (as_graphId a) \<in> set reqs \<longleftrightarrow>
        (\<forall>e\<in>set (hm_edges h). se_source e = as_graphId a \<or> se_target e = as_graphId a
            \<longrightarrow> \<not> fails (DeleteEdge (se_id e))))
    \<and> (DeleteNode (as_graphId a) \<in> set reqs \<longrightarrow> last reqs = DeleteNode (as_graphId a))
    \<and> (h' = h \<or> h' = reload h \<and> DeleteNode (as_graphId a) \<in> set reqs)"
  using run slot by (auto simp: run_plan_def handleApplianceDelete_def Let_def split: if_splits)

theorem appliance_delete_order_witness:
  "DeleteNode ''node_11'' \<in> set (snd (run_plan (\<lambda>_. False)
     (handleApplianceDelete id 0 (initial_home\<lparr>hm_appliances := applianceSlots demo_home demo_home_edges,
        hm_edges := demo_home_edges\<rparr>))
     (initial_home\<lparr>hm_appliances := applianceSlots demo_home demo_home_edges, hm_edges := demo_home_edges\<rparr>)))"
proof -
  let ?h = "initial_home\<lparr>hm_appliances := applianceSlots demo_home demo_home_edges, hm_edges := demo_home_edges\<rparr>"
  let ?a = "the (hm_appliances ?h ! 0)"
  have "0 < length (hm_appliances ?h)" "hm_appliances ?h ! 0 = Some ?a" "as_graphId ?a \<noteq> []"
    "as_graphId ?a = ''node_11''"
    by code_simp+
  with appliance_delete_order [OF _ _ _ prod.collapse [symmetric], of 0 ?h ?a "\<lambda>_. False" id]
  show ?thesis by auto
qed

end
