(* ===== verification/HomeSlots.thy ===== *)
theory HomeSlots
  imports Home
begin

text \<open>
  What the Home page draws (\<open>Home.tsx\<close>): the slot cards of the inputs and loads, the dialogs that
  are open, and the confirmation a card asks for before its device is removed.  A click is delivered
  to the element under the pointer and then to the elements around it until a handler stops it.
\<close>

section \<open>Slot cards\<close>

datatype slot_card =
    UnconfiguredSlot string string
  | ConfiguredSlot string string string

text \<open>Label, name of the device, and its address.\<close>

definition configuredSlot :: "string \<Rightarrow> simple_device \<Rightarrow> slot_card" where
  "configuredSlot label d =
     ConfiguredSlot label (or_opt (sd_name d) (sd_label d))
       (''Node 0x'' @ hex_upper (sd_nodeId d) @ '' '' @ middot @ '' EP '' @ dec (sd_endpointId d))"

definition slotCard :: "string \<Rightarrow> string \<Rightarrow> simple_device option \<Rightarrow> slot_card" where
  "slotCard label description d =
     (case d of Some x \<Rightarrow> configuredSlot label x | None \<Rightarrow> UnconfiguredSlot label description)"

text \<open>The pointer over a card and over its bin, and the colours it changes.\<close>

record slot_hover =
  hv_hovered :: bool
  hv_trashHovered :: bool

definition slot_hover_open :: slot_hover where
  "slot_hover_open = \<lparr>hv_hovered = False, hv_trashHovered = False\<rparr>"

definition hoverCard :: "bool \<Rightarrow> slot_hover \<Rightarrow> slot_hover" where
  "hoverCard on h = h\<lparr>hv_hovered := on\<rparr>"

definition hoverTrash :: "bool \<Rightarrow> slot_hover \<Rightarrow> slot_hover" where
  "hoverTrash on h = h\<lparr>hv_trashHovered := on\<rparr>"

record slot_style =
  sy_border :: string
  sy_background :: string
  sy_cursor :: string
  sy_action :: "(string \<times> string) option"
  sy_trash :: "string option"

text \<open>The card offers to configure the slot only with a handler (\<open>configurable\<close>).\<close>

definition unconfiguredStyle :: "bool \<Rightarrow> slot_hover \<Rightarrow> slot_style" where
  "unconfiguredStyle configurable h =
     \<lparr>sy_border = ''2px dashed '' @ (if hv_hovered h then ''#64748b'' else ''#cbd5e1''),
      sy_background = (if hv_hovered h then ''#f8fafc'' else ''#fff''),
      sy_cursor = (if configurable then ''pointer'' else ''default''),
      sy_action = (if configurable then Some (''+ Configure'', if hv_hovered h then ''#3b82f6'' else ''#cbd5e1'') else None),
      sy_trash = None\<rparr>"

definition pencil :: string where "pencil = [CHR 0xE2, CHR 0x9C, CHR 0x8E]"

definition configuredStyle :: "slot_hover \<Rightarrow> slot_style" where
  "configuredStyle h =
     \<lparr>sy_border = ''2px solid '' @ (if hv_hovered h then ''#3b82f6'' else ''#86efac''), sy_background = ''#f0fdf4'',
      sy_cursor = ''pointer'', sy_action = Some (pencil @ '' Edit'', if hv_hovered h then ''#3b82f6'' else ''#94a3b8''),
      sy_trash = Some (if hv_trashHovered h then ''#ef4444'' else ''#cbd5e1'')\<rparr>"

text \<open>The pointer reaches the bin through the card, so a red bin is on a highlighted card.\<close>

inductive hover_run :: "slot_hover \<Rightarrow> bool" where
  drawn: "hover_run slot_hover_open"
| enter: "hover_run h \<Longrightarrow> hover_run (hoverCard True h)"
| leave: "hover_run h \<Longrightarrow> \<not> hv_trashHovered h \<Longrightarrow> hover_run (hoverCard False h)"
| enter_trash: "hover_run h \<Longrightarrow> hv_hovered h \<Longrightarrow> hover_run (hoverTrash True h)"
| leave_trash: "hover_run h \<Longrightarrow> hover_run (hoverTrash False h)"

lemma red_bin_on_highlighted_card:
  "hover_run h \<Longrightarrow> sy_trash (configuredStyle h) = Some ''#ef4444'' \<Longrightarrow> sy_border (configuredStyle h) = ''2px solid #3b82f6''"
proof -
  assume r: "hover_run h" and "sy_trash (configuredStyle h) = Some ''#ef4444''"
  have "hv_trashHovered h \<longrightarrow> hv_hovered h"
    using r by induction (simp_all add: slot_hover_open_def hoverCard_def hoverTrash_def)
  then show ?thesis using \<open>sy_trash (configuredStyle h) = Some ''#ef4444''\<close>
    by (simp add: configuredStyle_def split: if_splits)
qed

section \<open>Removing a device\<close>

datatype element = Card | TrashButton | Overlay | Panel | CancelButton | RemoveButton

datatype slot_effect = Reconfigure | Delete

text \<open>The element clicked and those around it, inside out.\<close>

fun clickPath :: "element \<Rightarrow> element list" where
  "clickPath Card = [Card]"
| "clickPath TrashButton = [TrashButton, Card]"
| "clickPath Overlay = [Overlay, Card]"
| "clickPath Panel = [Panel, Overlay, Card]"
| "clickPath CancelButton = [CancelButton, Panel, Overlay, Card]"
| "clickPath RemoveButton = [RemoveButton, Panel, Overlay, Card]"

text \<open>The handler of an element: the new \<open>confirmOpen\<close>, what it calls, and whether it stops the click.\<close>

fun onClick :: "element \<Rightarrow> bool \<Rightarrow> bool \<times> slot_effect list \<times> bool" where
  "onClick Card c = (c, [Reconfigure], False)"
| "onClick TrashButton c = (True, [], True)"
| "onClick Overlay c = (False, [], True)"
| "onClick Panel c = (c, [], True)"
| "onClick CancelButton c = (False, [], False)"
| "onClick RemoveButton c = (False, [Delete], False)"

fun dispatchClick :: "element list \<Rightarrow> bool \<Rightarrow> bool \<times> slot_effect list" where
  "dispatchClick [] c = (c, [])"
| "dispatchClick (e # es) c =
     (case onClick e c of
        (c1, out, stop) \<Rightarrow>
          if stop then (c1, out) else (case dispatchClick es c1 of (c2, out2) \<Rightarrow> (c2, out @ out2)))"

text \<open>The title of the dialog and what it says.\<close>

definition confirmTexts :: "string \<Rightarrow> simple_device \<Rightarrow> string \<times> string" where
  "confirmTexts label d =
     (''Remove '' @ label @ ''?'',
      or_opt (sd_name d) (sd_label d) @ '' will be unassigned from '' @ label
        @ ''. The device stays commissioned and can be assigned again later.'')"

text \<open>The dialog is there while \<open>confirmOpen\<close> holds; Escape cancels it.\<close>

definition present :: "element \<Rightarrow> bool \<Rightarrow> bool" where
  "present e c \<longleftrightarrow> e \<in> {Card, TrashButton} \<or> c"

datatype slot_event = Click element | EscapeKey

definition slotEvent :: "slot_event \<Rightarrow> bool \<Rightarrow> bool \<times> slot_effect list" where
  "slotEvent ev c = (case ev of Click e \<Rightarrow> dispatchClick (clickPath e) c | EscapeKey \<Rightarrow> (False, []))"

definition possible :: "slot_event \<Rightarrow> bool \<Rightarrow> bool" where
  "possible ev c = (case ev of Click e \<Rightarrow> present e c | EscapeKey \<Rightarrow> c)"

text \<open>A card in use, from the moment it is drawn: the events so far and what they called.\<close>

inductive slot_run :: "slot_event list \<Rightarrow> slot_effect list \<Rightarrow> bool \<Rightarrow> bool" where
  drawn: "slot_run [] [] False"
| event: "slot_run evs out c \<Longrightarrow> possible ev c
    \<Longrightarrow> slot_run (evs @ [ev]) (out @ snd (slotEvent ev c)) (fst (slotEvent ev c))"

section \<open>The page\<close>

datatype home_modal = GridSensorModal "simple_device option" | SolarInverterModal "simple_device option"
  | TariffModal "simple_device option" | EditApplianceModal nat

definition homeModals :: "home \<Rightarrow> home_modal list" where
  "homeModals h =
     (if hm_gridModalOpen h then [GridSensorModal (hm_gridSensor h)] else [])
     @ (if hm_solarModalOpen h then [SolarInverterModal (hm_solarInverter h)] else [])
     @ (if hm_tariffModalOpen h then [TariffModal (hm_tariff h)] else [])
     @ (case hm_applianceModalSlot h of None \<Rightarrow> [] | Some slot \<Rightarrow> [EditApplianceModal slot])"

definition inputCards :: "home \<Rightarrow> slot_card list" where
  "inputCards h =
     [slotCard ''Grid'' ''Device measuring power imported from or exported to the grid'' (hm_gridSensor h),
      slotCard ''Solar Inverter'' ''Device measuring power generated by your solar panels'' (hm_solarInverter h),
      slotCard ''Tariff'' ''Device publishing your electricity prices'' (hm_tariff h)]"

definition loadCards :: "home \<Rightarrow> slot_card list" where
  "loadCards h =
     map (\<lambda>(slot, a). slotCard (slotLabel slot) ''Assign a device to monitor this load'' (map_option as_device a))
       (enumerate 0 (hm_appliances h))"

text \<open>The page from top to bottom: headed groups of cards around the consumer unit.\<close>

datatype home_part = Cards string "slot_card list" | BoardBox string string | FlowArrow

definition Home :: "home \<Rightarrow> home_part list" where
  "Home h = [Cards ''Inputs'' (inputCards h), FlowArrow, BoardBox ''Consumer Unit'' ''Main distribution board'',
     FlowArrow, Cards ''Loads'' (loadCards h)]"

definition openGridModal :: "home \<Rightarrow> home" where "openGridModal h = h\<lparr>hm_gridModalOpen := True\<rparr>"
definition closeGridModal :: "home \<Rightarrow> home" where "closeGridModal h = h\<lparr>hm_gridModalOpen := False\<rparr>"
definition openSolarModal :: "home \<Rightarrow> home" where "openSolarModal h = h\<lparr>hm_solarModalOpen := True\<rparr>"
definition closeSolarModal :: "home \<Rightarrow> home" where "closeSolarModal h = h\<lparr>hm_solarModalOpen := False\<rparr>"
definition openTariffModal :: "home \<Rightarrow> home" where "openTariffModal h = h\<lparr>hm_tariffModalOpen := True\<rparr>"
definition closeTariffModal :: "home \<Rightarrow> home" where "closeTariffModal h = h\<lparr>hm_tariffModalOpen := False\<rparr>"
definition openAppliance :: "nat \<Rightarrow> home \<Rightarrow> home" where "openAppliance slot h = h\<lparr>hm_applianceModalSlot := Some slot\<rparr>"
definition closeAppliance :: "home \<Rightarrow> home" where "closeAppliance h = h\<lparr>hm_applianceModalSlot := None\<rparr>"

section \<open>A removal is asked for\<close>

lemma slotEvent_simps [simp]:
  "slotEvent (Click Card) c = (c, [Reconfigure])"
  "slotEvent (Click TrashButton) c = (True, [])"
  "slotEvent (Click Overlay) c = (False, [])"
  "slotEvent (Click Panel) c = (c, [])"
  "slotEvent (Click CancelButton) c = (False, [])"
  "slotEvent (Click RemoveButton) c = (False, [Delete])"
  "slotEvent EscapeKey c = (False, [])"
  by (simp_all add: slotEvent_def)

definition opens :: "slot_event list \<Rightarrow> nat" where
  "opens evs = length (filter (\<lambda>e. e = Click TrashButton) evs)"

text \<open>The dialog was asked for and nothing has closed it since.\<close>

definition asked :: "slot_event list \<Rightarrow> bool" where
  "asked evs \<longleftrightarrow> (\<exists>pre post. evs = pre @ Click TrashButton # post
     \<and> Click RemoveButton \<notin> set post \<and> Click CancelButton \<notin> set post \<and> Click Overlay \<notin> set post \<and> EscapeKey \<notin> set post)"

lemma asked_trash: "asked (evs @ [Click TrashButton])"
  unfolding asked_def by (intro exI [of _ evs] exI [of _ "[]"]) simp

lemma asked_snoc: "asked evs \<Longrightarrow> e \<notin> {RemoveButton, CancelButton, Overlay} \<Longrightarrow> asked (evs @ [Click e])"
  unfolding asked_def by (elim exE, rule_tac x = pre in exI, rule_tac x = "post @ [Click e]" in exI) auto

lemma slot_run_inv:
  "slot_run evs out c \<Longrightarrow>
     length (filter (\<lambda>x. x = Delete) out) + (if c then 1 else 0) \<le> opens evs \<and> (c \<longrightarrow> asked evs)"
proof (induction rule: slot_run.induct)
  case drawn
  show ?case by (simp add: opens_def)
next
  case (event evs out c ev)
  show ?case
  proof (cases ev)
    case (Click e)
    then show ?thesis
      using event asked_trash [of evs] asked_snoc [of evs e]
      by (cases e; cases c) (auto simp: opens_def possible_def present_def)
  next
    case EscapeKey
    with event.IH show ?thesis by (auto simp: opens_def)
  qed
qed

text \<open>
  C38.  A slot card removes its device only by the Remove button of a dialog that was asked for
  with the bin and not closed since; it removes at most as often as it was asked, and no click
  in the dialog opens the editor of the card behind it.
\<close>

theorem removal_is_confirmed:
  assumes "slot_run evs out c"
  shows "(Delete \<in> set (snd (slotEvent ev c)) \<and> possible ev c \<longleftrightarrow> ev = Click RemoveButton \<and> c)
    \<and> (Reconfigure \<in> set (snd (slotEvent ev c)) \<longleftrightarrow> ev = Click Card)
    \<and> length (filter (\<lambda>x. x = Delete) out) \<le> opens evs
    \<and> (c \<longrightarrow> (\<exists>pre post. evs = pre @ Click TrashButton # post \<and> Click RemoveButton \<notin> set post
          \<and> Click CancelButton \<notin> set post \<and> Click Overlay \<notin> set post \<and> EscapeKey \<notin> set post))"
proof -
  have eff: "(Delete \<in> set (snd (slotEvent ev c)) \<longleftrightarrow> ev = Click RemoveButton)
      \<and> (Reconfigure \<in> set (snd (slotEvent ev c)) \<longleftrightarrow> ev = Click Card)"
  proof (cases ev)
    case (Click e)
    then show ?thesis by (cases e) simp_all
  qed simp
  have "c \<Longrightarrow> asked evs" using slot_run_inv [OF assms] by simp
  moreover have "possible (Click RemoveButton) c \<longleftrightarrow> c" by (simp add: possible_def present_def)
  moreover have "length (filter (\<lambda>x. x = Delete) out) \<le> opens evs" using slot_run_inv [OF assms] by linarith
  ultimately show ?thesis using eff unfolding asked_def by blast
qed

theorem removal_is_confirmed_witness:
  "\<exists>evs. slot_run evs [Reconfigure, Delete] False \<and> length (filter (\<lambda>x. x = Delete) [Reconfigure, Delete]) \<le> opens evs"
proof -
  have "slot_run [Click Card] [Reconfigure] False" using event [OF drawn, of "Click Card"] by (simp add: possible_def present_def)
  then have "slot_run [Click Card, Click TrashButton] [Reconfigure] True"
    using event [of "[Click Card]" "[Reconfigure]" False "Click TrashButton"] by (simp add: possible_def present_def)
  then have r: "slot_run [Click Card, Click TrashButton, Click RemoveButton] [Reconfigure, Delete] False"
    using event [of "[Click Card, Click TrashButton]" "[Reconfigure]" True "Click RemoveButton"] by (simp add: possible_def present_def)
  with removal_is_confirmed [OF r, of EscapeKey] show ?thesis by blast
qed

end
