(* ===== verification/PickerProps.thy ===== *)
theory PickerProps
  imports Pickers
begin

text \<open>Facts and properties of the endpoint pickers.\<close>

lemma dec_no_dash [simp]: "CHR ''-'' \<notin> set (dec n)"
  using dec_digits by fastforce

lemma split_sensorKey: "split_on CHR ''-'' (sensorKey n e) = [dec n, dec e]"
  by (simp add: sensorKey_def split_on_append split_on_no_sep)

lemma numberField_dec [simp]: "numberField (dec n) = JNum (of_nat n)"
  by (simp add: numberField_def)

lemma trim_ne_or_str: "l \<noteq> [] \<Longrightarrow> or_str t l \<noteq> []"
  by (simp add: or_str_def)

lemma so_key_toSensor [simp]: "so_key (toSensor ep) = en_key ep"
  by (simp add: so_key_def en_key_def toSensor_def)

theorem grid_choice_round_trip:
  "snd (gridModal_save (gridModal_select (so_key s) m))
     = PutSettings ''grid'' (no_settings\<lparr>s_rest := [(''gridSensorNodeId'', JNum (of_nat (so_nodeId s))),
         (''gridSensorEndpointId'', JNum (of_nat (so_endpointId s)))]\<rparr>)
   \<and> snd (gridModal_save (gridModal_select [] m))
     = PutSettings ''grid'' (no_settings\<lparr>s_rest := [(''gridSensorNodeId'', JNum 0), (''gridSensorEndpointId'', JNum 0)]\<rparr>)"
  by (simp add: gridModal_save_def gridModal_select_def gridModal_fields_def so_key_def split_sensorKey)

theorem grid_modal_closes_on_http_error:
  assumes "st < 200 \<or> 299 < st"
  shows "gridModal_saved (Answer st ()) g = None
    \<and> editModal_saved s (Answer st ()) e = Inl (e\<lparr>em_saving := False, em_error := True\<rparr>)
    \<and> (\<exists>p'. rolePicker_saved d (Answer st ()) p = Inl p' \<and> rp_error p' \<noteq> None)"
  using assms by (auto simp: gridModal_saved_def editModal_saved_def rolePicker_saved_def checked_def is_ok_def)

theorem grid_modal_closes_on_http_error_witness:
  "gridModal_saved (Answer 500 ()) gridModal_open = None"
proof -
  have "(500::nat) < 200 \<or> 299 < (500::nat)" by simp
  from grid_modal_closes_on_http_error [OF this, of gridModal_open] show ?thesis by blast
qed

section \<open>Editing a node\<close>

lemma editModal_loaded_sensors:
  assumes "hasDevice"
  shows "em_sensors (editModal_loaded s hasDevice (Some es) m) = list_of_opt (currentSensor s True)
      @ map toSensor (filter (\<lambda>ep. \<forall>c. currentSensor s True = Some c
          \<longrightarrow> (en_nodeId ep, en_endpointId ep) \<noteq> (so_nodeId c, so_endpointId c)) es)"
  using assms by (simp add: editModal_loaded_def Let_def) (auto intro!: filter_cong split: option.split)

lemma distinct_sensors:
  assumes "distinct (map (\<lambda>e. (en_nodeId e, en_endpointId e)) es)"
  shows "distinct (map (\<lambda>s. (so_nodeId s, so_endpointId s)) (em_sensors (editModal_loaded st True (Some es) m)))"
proof -
  let ?P = "\<lambda>ep. \<forall>c. currentSensor st True = Some c
          \<longrightarrow> (en_nodeId ep, en_endpointId ep) \<noteq> (so_nodeId c, so_endpointId c)"
  have "distinct (map (\<lambda>e. (en_nodeId e, en_endpointId e)) (filter ?P es))"
    using assms by (rule distinct_map_filter_key)
  moreover have "(\<lambda>s. (so_nodeId s, so_endpointId s)) \<circ> toSensor = (\<lambda>e. (en_nodeId e, en_endpointId e))"
    by (auto simp: toSensor_def)
  ultimately show ?thesis
    by (cases "currentSensor st True") (auto simp: editModal_loaded_sensors list_of_opt_def)
qed

theorem configured_endpoint_stays_selectable:
  assumes cur: "s_nodeId s = Some n" "s_endpointId s = Some e"
    and es: "distinct (map (\<lambda>ep. (en_nodeId ep, en_endpointId ep)) es)"
    and m: "m = editModal_loaded s True (Some es) (editModal_open s True)"
  shows "distinct (map so_key (em_sensors m))
    \<and> canSave True m
    \<and> s_nodeId (nextSettings s True m) = Some n \<and> s_endpointId (nextSettings s True m) = Some e
    \<and> (\<forall>ep\<in>set es. \<exists>x\<in>set (em_sensors m). so_nodeId x = en_nodeId ep \<and> so_endpointId x = en_endpointId ep)"
proof -
  obtain c where c: "currentSensor s True = Some c" "so_nodeId c = n" "so_endpointId c = e"
    using cur by (simp add: currentSensor_def)
  have mem: "c \<in> set (em_sensors m)" by (simp add: m editModal_loaded_sensors c list_of_opt_def)
  have dist: "distinct (map (\<lambda>x. (so_nodeId x, so_endpointId x)) (em_sensors m))"
    unfolding m by (rule distinct_sensors [OF es])
  have "inj_on so_key (set (em_sensors m))"
    using dist sensors.key_ident by (auto simp: distinct_map inj_on_def)
  then have keys: "distinct (map so_key (em_sensors m))"
    using dist by (simp add: distinct_map)
  have key: "em_selectedKey m = so_key c" "em_loading m = False" "em_saving m = False"
    by (simp_all add: m editModal_loaded_def editModal_open_def Let_def c)
  have sel: "editModal_selected m = Some c"
    unfolding editModal_selected_def key using sensors.find_key_unique [OF mem dist] .
  have all: "\<exists>x\<in>set (em_sensors m). so_nodeId x = en_nodeId ep \<and> so_endpointId x = en_endpointId ep"
    if "ep \<in> set es" for ep
  proof (cases "en_nodeId ep = n \<and> en_endpointId ep = e")
    case True
    with mem c show ?thesis by (intro bexI [of _ c]) simp_all
  next
    case False
    then have "toSensor ep \<in> set (em_sensors m)"
      using that c by (simp add: m editModal_loaded_sensors list_of_opt_def)
    then show ?thesis by (intro bexI [of _ "toSensor ep"]) (simp_all add: toSensor_def)
  qed
  show ?thesis
    using keys sel key c all by (simp add: canSave_def nextSettings_def)
qed

definition demo_endpoints :: "endpoint list" where
  "demo_endpoints = [\<lparr>en_nodeId = 12, en_endpointId = 1, en_label = '''', en_deviceName = ''Plug S''\<rparr>,
                     \<lparr>en_nodeId = 13, en_endpointId = 2, en_label = ''CT clamp'', en_deviceName = ''''\<rparr>]"

theorem configured_endpoint_stays_selectable_witness:
  "canSave True (editModal_loaded (no_settings\<lparr>s_nodeId := Some 11, s_endpointId := Some 1\<rparr>) True (Some demo_endpoints)
     (editModal_open (no_settings\<lparr>s_nodeId := Some 11, s_endpointId := Some 1\<rparr>) True))"
proof -
  have "distinct (map (\<lambda>ep. (en_nodeId ep, en_endpointId ep)) demo_endpoints)" by code_simp
  then show ?thesis
    using configured_endpoint_stays_selectable
      [of "no_settings\<lparr>s_nodeId := Some 11, s_endpointId := Some 1\<rparr>" 11 1 demo_endpoints, OF _ _ _ refl]
    by simp
qed

text \<open>
  Saving the edit dialog puts the same settings on the canvas as it sends to the server;
  the type, the circuits and the fields the dialog does not know survive, and the endpoint
  changes only for a node that has a device.
\<close>

theorem edit_keeps_canvas_and_store_in_step:
  assumes save: "editModal_save i s hasDevice m = (m', Some r)"
    and ok: "editModal_saved (nextSettings s hasDevice m) a m' = Inr s'"
  shows "r = PutSettings i s'
    \<and> (\<forall>n\<in>set (cv_nodes (handleNodeEdited i s' cv)). c_id n = i \<longrightarrow> nd_settings (c_data n) = Some s')
    \<and> s_type s' = s_type s \<and> s_circuits s' = s_circuits s \<and> s_rest s' = s_rest s
    \<and> (if hasDevice
       then \<exists>x\<in>set (em_sensors m). s_nodeId s' = Some (so_nodeId x) \<and> s_endpointId s' = Some (so_endpointId x)
              \<and> s_label s' = Some (so_label x)
       else s_nodeId s' = s_nodeId s \<and> s_endpointId s' = s_endpointId s \<and> s_label s' \<noteq> Some [])"
proof -
  have can: "canSave hasDevice m" and r: "r = PutSettings i (nextSettings s hasDevice m)"
    using save by (auto simp: editModal_save_def split: if_splits)
  have s': "s' = nextSettings s hasDevice m"
    using ok by (simp add: editModal_saved_def split: if_splits)
  have canvas: "nd_settings (c_data n) = Some s'" if "n \<in> set (cv_nodes (handleNodeEdited i s' cv))" "c_id n = i" for n
  proof -
    have ed: "nd_settings (c_data (editedNode s' x)) = Some s'" "c_id (editedNode s' x) = c_id x" for x
      by (simp_all add: editedNode_def Let_def)
    from that(1) have "n \<in> (\<lambda>x. if c_id x \<noteq> i then x else editedNode s' x) ` set (cv_nodes cv)"
      by (simp add: handleNodeEdited_def)
    then obtain x where "n = (if c_id x \<noteq> i then x else editedNode s' x)" by blast
    with that(2) show ?thesis by (cases "c_id x = i") (simp_all add: ed)
  qed
  show ?thesis
  proof (cases hasDevice)
    case True
    then obtain x where x: "editModal_selected m = Some x" using can by (auto simp: canSave_def)
    then have "x \<in> set (em_sensors m)"
      unfolding editModal_selected_def by (blast dest: sensors.find_key_only)
    with x True s' r canvas show ?thesis by (auto simp: nextSettings_def)
  next
    case False
    with can s' r canvas show ?thesis by (auto simp: canSave_def nextSettings_def)
  qed
qed

theorem edit_keeps_canvas_and_store_in_step_witness:
  "snd (editModal_save ''node_11'' (no_settings\<lparr>s_type := Some ''subConsumerUnit'', s_circuits := Some 4\<rparr>) False
      ((editModal_open (no_settings\<lparr>s_circuits := Some 4\<rparr>) False)\<lparr>em_name := ''Garage ''\<rparr>))
   = Some (PutSettings ''node_11'' (no_settings\<lparr>s_type := Some ''subConsumerUnit'', s_circuits := Some 4, s_label := Some ''Garage''\<rparr>))"
proof -
  let ?s = "no_settings\<lparr>s_type := Some ''subConsumerUnit'', s_circuits := Some 4\<rparr>"
  let ?m = "(editModal_open (no_settings\<lparr>s_circuits := Some 4\<rparr>) False)\<lparr>em_name := ''Garage ''\<rparr>"
  let ?t = "no_settings\<lparr>s_type := Some ''subConsumerUnit'', s_circuits := Some 4, s_label := Some ''Garage''\<rparr>"
  obtain m' r where sv: "editModal_save ''node_11'' ?s False ?m = (m', Some r)"
  proof -
    have "snd (editModal_save ''node_11'' ?s False ?m) \<noteq> None" by code_simp
    then show ?thesis using that by (metis not_None_eq prod.collapse)
  qed
  moreover have "nextSettings ?s False ?m = ?t" by code_simp
  then have "editModal_saved (nextSettings ?s False ?m) (Answer 200 ()) m' = Inr ?t"
    by (simp add: editModal_saved_def is_ok_def)
  ultimately have "r = PutSettings ''node_11'' ?t"
    using edit_keeps_canvas_and_store_in_step by blast
  with sv show ?thesis by simp
qed

section \<open>Roles\<close>

lemma withConfigured_mem:
  "\<exists>e\<in>set (withConfigured (Some d) es). en_nodeId e = sd_nodeId d \<and> en_endpointId e = sd_endpointId d"
  by (auto simp: withConfigured_def)

lemma withConfigured_distinct:
  "distinct (map en_key es) \<Longrightarrow> distinct (map en_key (withConfigured initial es))"
  by (auto simp: withConfigured_def en_key_def split: option.split)

theorem role_can_be_reconfirmed:
  assumes "distinct (map en_key es)"
    and p: "p = rolePicker_loaded (Some d) (Inr es) (rolePicker_open (Some d))"
  shows "vw_value (rolePicker_view t x p) \<in> set (map fst (vw_options (rolePicker_view t x p)))
    \<and> distinct (map fst (vw_options (rolePicker_view t x p)))
    \<and> vw_enabled (rolePicker_view t x p)
    \<and> snd (rolePicker_save role p) = Some (PutRole role (sd_nodeId d) (sd_endpointId d) (sd_label d))
    \<and> rolePicker_saved d (Answer 200 ()) q = Inr d"
proof -
  from withConfigured_mem [of d es]
  obtain e where e: "e \<in> set (withConfigured (Some d) es)" "en_nodeId e = sd_nodeId d" "en_endpointId e = sd_endpointId d"
    by blast
  have key: "sensorKey (sd_nodeId d) (sd_endpointId d) = en_key e"
    by (simp add: en_key_def e(2,3))
  from e(1) have "en_key e \<in> en_key ` set (withConfigured (Some d) es)" by (rule imageI)
  moreover have ne: "withConfigured (Some d) es \<noteq> []" using e(1) by auto
  moreover have "[] \<notin> en_key ` X" for X by (auto simp: en_key_def)
  ultimately show ?thesis
    using withConfigured_distinct [OF assms(1), of "Some d"] key
    by (simp add: p rolePicker_loaded_def rolePicker_open_def rolePicker_view_def rolePicker_save_def
          rolePicker_saved_def checked_def is_ok_def comp_def image_image)
qed

theorem role_can_be_reconfirmed_witness:
  "snd (rolePicker_save ''grid'' (rolePicker_loaded
      (Some \<lparr>sd_nodeId = 30001, sd_endpointId = 1, sd_label = ''Meter'', sd_name = None, sd_hasElectricalSensor = True,
             sd_hasSolarPower = False, sd_excludeFromScheduling = None\<rparr>) (Inr demo_endpoints)
      (rolePicker_open (Some \<lparr>sd_nodeId = 30001, sd_endpointId = 1, sd_label = ''Meter'', sd_name = None,
         sd_hasElectricalSensor = True, sd_hasSolarPower = False, sd_excludeFromScheduling = None\<rparr>))))
   = Some (PutRole ''grid'' 30001 1 ''Meter'')"
proof -
  have "distinct (map en_key demo_endpoints)" by code_simp
  from role_can_be_reconfirmed [OF this refl] show ?thesis by simp
qed

section \<open>Appliances\<close>

text \<open>
  Saving an appliance sends its node first and wires it only when that succeeded; the
  dialog reports success exactly when every request did, and stays open with an error message
  otherwise.
\<close>

theorem appliance_wired_after_saved:
  assumes run: "applianceModal_save fails p m = (res, out)" and sel: "ap_selected m = Some d"
  shows "hd out = PutNode (ep_topologyNodeId p) (fst (ep_position p)) (snd (ep_position p)) (Some (applianceSettings p d m))
    \<and> (PostEdge (applianceEdge p) \<in> set out \<longleftrightarrow> ep_wire p \<and> fails (hd out) = None)
    \<and> ((\<exists>d'. res = Inr d') \<longleftrightarrow> (\<forall>r\<in>set (applianceModal_requests p m). fails r = None))
    \<and> (\<forall>d'. res = Inr d' \<longrightarrow> out = applianceModal_requests p m
         \<and> sd_name d' = s_name (applianceSettings p d m)
         \<and> sd_excludeFromScheduling d' = s_excludeFromScheduling (applianceSettings p d m))
    \<and> (\<forall>m'. res = Inl m' \<longrightarrow> ap_error m' \<noteq> None \<and> \<not> ap_saving m')
    \<and> (sd_label d \<noteq> [] \<longrightarrow> s_name (applianceSettings p d m) \<noteq> Some [])"
  using run sel
  by (auto simp: applianceModal_save_def applianceModal_requests_def applianceSettings_def trim_ne_or_str
        split: option.splits if_splits)

theorem appliance_wired_after_saved_witness:
  "PostEdge (applianceEdge (editProps 3 initial_home)) \<in>
     set (snd (applianceModal_save (\<lambda>_. None) (editProps 3 initial_home)
       (applianceModal_pick (hd demo_endpoints) (applianceModal_open (editProps 3 initial_home)))))"
proof -
  let ?p = "editProps 3 initial_home"
  let ?m = "applianceModal_pick (hd demo_endpoints) (applianceModal_open ?p)"
  obtain d where "ap_selected ?m = Some d" by (simp add: applianceModal_pick_def Let_def)
  moreover have "ep_wire ?p" by code_simp
  ultimately show ?thesis
    using appliance_wired_after_saved [where fails = "\<lambda>_. None", OF prod.collapse [symmetric], of ?m d ?p] by simp
qed

end
