(* ===== verification/DevicesProps.thy ===== *)
theory DevicesProps
  imports DevicesPage
begin

text \<open>Facts and properties of the device pages.\<close>

section \<open>The endpoint tree shows every endpoint\<close>

text \<open>Parts point to endpoints of a smaller rank: the part lists have no cycle.\<close>

definition parts_ranked :: "(nat \<Rightarrow> nat) \<Rightarrow> device_endpoint list \<Rightarrow> bool" where
  "parts_ranked r eps \<longleftrightarrow>
     distinct (map de_endpointId eps)
     \<and> (\<forall>e\<in>set eps. \<forall>i\<in>set (de_parts e). r i < r (de_endpointId e))"

lemma epMap_eq:
  assumes "distinct (map de_endpointId eps)"
  shows "epMap eps i = Some e \<longleftrightarrow> e \<in> set eps \<and> de_endpointId e = i"
proof -
  have "distinct (map fst (rev (map (\<lambda>e. (de_endpointId e, e)) eps)))"
    using assms by (simp add: comp_def rev_map [symmetric])
  then have "epMap eps i = Some e \<longleftrightarrow> (i, e) \<in> set (rev (map (\<lambda>e. (de_endpointId e, e)) eps))"
    unfolding epMap_def by (rule map_of_eq_Some_iff)
  then show ?thesis by auto
qed

lemma set_allChildren: "set (allChildren M ep) = {c. \<exists>i\<in>set (de_parts ep). M i = Some c}"
  by (force simp: allChildren_def map_filter_def)

lemma rowChildren_sub: "set (rowChildren M ep) \<subseteq> set (allChildren M ep)"
  by (auto simp: rowChildren_def Let_def)

lemma allChildren_known:
  assumes "parts_ranked r eps" and "ep \<in> set eps" and "c \<in> set (allChildren (epMap eps) ep)"
  shows "c \<in> set eps \<and> r (de_endpointId c) < r (de_endpointId ep)"
  using assms epMap_eq [of eps] by (auto simp: parts_ranked_def set_allChildren)

lemma rows_ids:
  "endpointRows fuel M d cs = Some rs \<Longrightarrow>
     \<forall>c\<in>set cs. \<exists>l x. endpointRow fuel M l d c = Some x \<and> set (rowIds x) \<subseteq> set (concat (map rowIds rs))"
proof (induction cs arbitrary: rs)
  case (Cons c cs)
  then obtain x xs where x: "endpointRow fuel M (cs = []) d c = Some x" "endpointRows fuel M d cs = Some xs" "rs = x # xs"
    by (auto split: option.splits)
  with Cons.IH [OF x(2)] show ?case by auto blast+
qed simp

lemma rows_terminate:
  assumes "\<And>c d l. c \<in> set cs \<Longrightarrow> endpointRow fuel M l d c \<noteq> None"
  shows "endpointRows fuel M d cs \<noteq> None"
  using assms by (induction cs) (auto split: option.splits)

lemma row_terminates:
  assumes "parts_ranked r eps" and "ep \<in> set eps" and "r (de_endpointId ep) < fuel"
  shows "endpointRow fuel (epMap eps) l d ep \<noteq> None"
  using assms(2,3)
proof (induction fuel arbitrary: ep l d)
  case (Suc fuel)
  have "endpointRow fuel (epMap eps) l' d' c \<noteq> None" if "c \<in> set (rowChildren (epMap eps) ep)" for c d' l'
  proof -
    have "c \<in> set (allChildren (epMap eps) ep)" using that rowChildren_sub by blast
    from allChildren_known [OF assms(1) Suc.prems(1) this] Suc.prems(2)
    show ?thesis by (intro Suc.IH) auto
  qed
  then have "endpointRows fuel (epMap eps) (Suc d) (rowChildren (epMap eps) ep) \<noteq> None"
    by (rule rows_terminate)
  then show ?case by auto
qed simp

text \<open>A child hidden behind a sibling that owns it is drawn under that sibling.\<close>

definition closed_ids :: "device_endpoint list \<Rightarrow> nat set \<Rightarrow> bool" where
  "closed_ids eps D \<longleftrightarrow>
     (\<forall>e\<in>set eps. de_endpointId e \<in> D \<longrightarrow> (\<forall>c\<in>set (allChildren (epMap eps) e). de_endpointId c \<in> D))"

lemma closed_ids_Union: "(\<And>D. D \<in> F \<Longrightarrow> closed_ids eps D) \<Longrightarrow> closed_ids eps (\<Union>F)"
  unfolding closed_ids_def by blast

lemma rows_closed:
  assumes "endpointRows fuel M d cs = Some rs"
    and "\<And>c l x. c \<in> set cs \<Longrightarrow> endpointRow fuel M l d c = Some x
        \<Longrightarrow> closed_ids eps (set (rowIds x)) \<and> de_endpointId c \<in> set (rowIds x)"
  shows "closed_ids eps (set (concat (map rowIds rs)))
    \<and> (\<forall>c\<in>set cs. de_endpointId c \<in> set (concat (map rowIds rs)))"
  using assms
proof (induction cs arbitrary: rs)
  case Nil
  then show ?case by (simp add: closed_ids_def)
next
  case (Cons c cs)
  then obtain x xs where x: "endpointRow fuel M (cs = []) d c = Some x" "endpointRows fuel M d cs = Some xs" "rs = x # xs"
    by (auto split: option.splits)
  have 1: "closed_ids eps (set (rowIds x))" "de_endpointId c \<in> set (rowIds x)"
    using Cons.prems(2) [OF _ x(1)] by auto
  have 2: "closed_ids eps (set (concat (map rowIds xs)))
      \<and> (\<forall>c\<in>set cs. de_endpointId c \<in> set (concat (map rowIds xs)))"
    by (rule Cons.IH [OF x(2)]) (use Cons.prems(2) in auto)
  from 1 2 show ?case
    using closed_ids_Union [of "{set (rowIds x), set (concat (map rowIds xs))}" eps] x(3) by auto
qed

lemma hidden_child_drawn:
  assumes ranked: "parts_ranked r eps" and ep: "ep \<in> set eps" and closed: "closed_ids eps D"
    and drawn: "\<And>c. c \<in> set (rowChildren (epMap eps) ep) \<Longrightarrow> de_endpointId c \<in> D"
    and c: "c \<in> set (allChildren (epMap eps) ep)"
  shows "de_endpointId c \<in> D"
  using c
proof (induction "r (de_endpointId ep) - r (de_endpointId c)" arbitrary: c rule: less_induct)
  case less
  note known = allChildren_known [OF ranked ep]
  show ?case
  proof (cases "c \<in> set (rowChildren (epMap eps) ep)")
    case False
    then obtain c' where c': "c' \<in> set (allChildren (epMap eps) ep)" "de_endpointId c \<in> set (de_parts c')"
      using less.prems by (auto simp: rowChildren_def Let_def)
    have "r (de_endpointId c) < r (de_endpointId c')"
      using ranked known [OF c'(1)] c'(2) by (auto simp: parts_ranked_def)
    then have "de_endpointId c' \<in> D"
      using less.hyps [of c'] c'(1) known [OF less.prems] known [OF c'(1)] by linarith
    moreover have "c \<in> set (allChildren (epMap eps) c')"
      using c'(2) known [OF less.prems] epMap_eq ranked by (auto simp: set_allChildren parts_ranked_def)
    ultimately show ?thesis using closed known [OF c'(1)] by (auto simp: closed_ids_def)
  qed (rule drawn)
qed

lemma row_closed:
  assumes ranked: "parts_ranked r eps"
  shows "ep \<in> set eps \<Longrightarrow> endpointRow fuel (epMap eps) l d ep = Some x
    \<Longrightarrow> closed_ids eps (set (rowIds x)) \<and> de_endpointId ep \<in> set (rowIds x)"
proof (induction fuel arbitrary: ep l d x)
  case (Suc fuel)
  let ?M = "epMap eps"
  from Suc.prems(2) obtain rs where rs: "endpointRows fuel ?M (Suc d) (rowChildren ?M ep) = Some rs"
    and x: "x = Row (EndpointBox ep) (de_endpointId ep) l d rs"
    by (auto split: option.splits)
  have below: "closed_ids eps (set (concat (map rowIds rs)))
    \<and> (\<forall>c\<in>set (rowChildren ?M ep). de_endpointId c \<in> set (concat (map rowIds rs)))"
  proof (rule rows_closed [OF rs])
    fix c l' y assume "c \<in> set (rowChildren ?M ep)" "endpointRow fuel ?M l' (Suc d) c = Some y"
    moreover from this(1) have "c \<in> set eps"
      using allChildren_known [OF ranked Suc.prems(1)] rowChildren_sub by blast
    ultimately show "closed_ids eps (set (rowIds y)) \<and> de_endpointId c \<in> set (rowIds y)"
      using Suc.IH by blast
  qed
  then have "de_endpointId c \<in> set (concat (map rowIds rs))" if "c \<in> set (allChildren ?M ep)" for c
    using hidden_child_drawn [OF ranked Suc.prems(1) _ _ that] by blast
  moreover have "e = ep" if "e \<in> set eps" "de_endpointId e = de_endpointId ep" for e
    using that Suc.prems(1) ranked epMap_eq [of eps "de_endpointId ep"] unfolding parts_ranked_def by (metis option.inject)
  ultimately show ?case using below unfolding x closed_ids_def by auto
qed simp

definition rank_bound :: "(nat \<Rightarrow> nat) \<Rightarrow> device_endpoint list \<Rightarrow> nat" where
  "rank_bound r eps = Suc (sum_list (map (\<lambda>e. r (de_endpointId e)) eps))"

lemma rank_below: "e \<in> set eps \<Longrightarrow> r (de_endpointId e) < rank_bound r eps"
  unfolding rank_bound_def by (induction eps) auto

lemma all_endpoints_drawn:
  assumes ranked: "parts_ranked r eps" and closed: "closed_ids eps D"
    and roots: "\<And>e. e \<in> set (rootEndpoints eps) \<Longrightarrow> de_endpointId e \<in> D" and e: "e \<in> set eps"
  shows "de_endpointId e \<in> D"
  using e
proof (induction "rank_bound r eps - r (de_endpointId e)" arbitrary: e rule: less_induct)
  case less
  show ?case
  proof (cases "e \<in> set (rootEndpoints eps)")
    case False
    then obtain p where p: "p \<in> set eps" "de_endpointId e \<in> set (de_parts p)"
      using less.prems by (auto simp: rootEndpoints_def Let_def)
    then have "r (de_endpointId e) < r (de_endpointId p)" using ranked by (auto simp: parts_ranked_def)
    then have "de_endpointId p \<in> D"
      using less.hyps [OF _ p(1)] rank_below [OF p(1), of r] by linarith
    moreover have "e \<in> set (allChildren (epMap eps) p)"
      using p less.prems epMap_eq ranked by (auto simp: set_allChildren parts_ranked_def)
    ultimately show ?thesis using closed p(1) by (auto simp: closed_ids_def)
  qed (rule roots)
qed

text \<open>
  C33.  For a device whose parts lists have no cycle the recursion that draws its endpoint tree
  returns, and every endpoint of the device is drawn.
\<close>

theorem every_endpoint_is_drawn:
  assumes ranked: "parts_ranked r (dv_endpoints d)" and fuel: "rank_bound r (dv_endpoints d) \<le> fuel"
  shows "\<exists>rs. deviceRows fuel d = Some rs
    \<and> (\<forall>e\<in>set (dv_endpoints d). de_endpointId e \<in> set (concat (map rowIds rs)))"
proof -
  let ?eps = "dv_endpoints d" and ?roots = "rootEndpoints (dv_endpoints d)"
  have root: "c \<in> set ?eps" if "c \<in> set ?roots" for c
    using that by (auto simp: rootEndpoints_def Let_def)
  have "endpointRow fuel (epMap ?eps) l d' c \<noteq> None" if "c \<in> set ?roots" for c d' l
    using row_terminates [OF ranked root [OF that]] rank_below [OF root [OF that], of r] fuel by simp
  then have "deviceRows fuel d \<noteq> None" unfolding deviceRows_def by (rule rows_terminate)
  then obtain rs where rs: "deviceRows fuel d = Some rs" by auto
  have "closed_ids ?eps (set (concat (map rowIds rs)))
      \<and> (\<forall>c\<in>set ?roots. de_endpointId c \<in> set (concat (map rowIds rs)))"
    by (rule rows_closed [OF rs [unfolded deviceRows_def]]) (metis row_closed [OF ranked] root)
  then have "\<forall>e\<in>set ?eps. de_endpointId e \<in> set (concat (map rowIds rs))"
    using all_endpoints_drawn [OF ranked] by blast
  with rs show ?thesis by blast
qed

text \<open>A hybrid inverter: the root lists all endpoints, the solar endpoint owns the other three.\<close>

definition ep_of :: "nat \<Rightarrow> nat list \<Rightarrow> nat list \<Rightarrow> device_endpoint" where
  "ep_of i types parts = \<lparr>de_endpointId = i, de_label = [], de_included = False, de_hasDem = False,
     de_deviceTypes = types, de_parts = parts\<rparr>"

definition inverter :: device where
  "inverter = \<lparr>dv_nodeId = 10000, dv_name = None, dv_vendorName = ''Solax'', dv_productName = ''Hybrid Inverter'',
     dv_endpoints = [ep_of 0 [0x0016] [1, 2, 3], ep_of 1 [0x0017, 0x0510] [2, 3], ep_of 2 [0x0510] [], ep_of 3 [0x0510, 0x0011] []],
     dv_hasSubscription = True\<rparr>"

theorem every_endpoint_is_drawn_witness:
  "\<exists>rs. deviceRows 4 inverter = Some rs
     \<and> (\<forall>e\<in>set (dv_endpoints inverter). de_endpointId e \<in> set (concat (map rowIds rs)))"
proof (rule every_endpoint_is_drawn)
  let ?r = "\<lambda>i::nat. if i = 0 then 2 else if i = 1 then 1 else 0"
  show "parts_ranked ?r (dv_endpoints inverter)" by code_simp
  show "rank_bound ?r (dv_endpoints inverter) \<le> 4" by code_simp
qed

section \<open>Renaming\<close>

theorem rename_round_trip:
  assumes "handleSaveName i p = [Rename i name]" and "200 \<le> st" "st \<le> 299"
    and p': "p' = nameSaved i name (Answer st ()) p"
  shows "name = trim (dp_draftName p) \<and> name \<noteq> []
    \<and> (\<forall>d\<in>set (dp_devices p'). dv_nodeId d = i \<longrightarrow> dc_title (deviceCard p' d) = name \<and> \<not> dc_editing (deviceCard p' d))
    \<and> filter (\<lambda>d. dv_nodeId d \<noteq> i) (dp_devices p') = filter (\<lambda>d. dv_nodeId d \<noteq> i) (dp_devices p)
    \<and> map dv_nodeId (dp_devices p') = map dv_nodeId (dp_devices p)"
proof -
  let ?u = "\<lambda>d. if dv_nodeId d = i then d\<lparr>dv_name := Some name\<rparr> else d"
  have name: "name = trim (dp_draftName p)" "name \<noteq> []"
    using assms(1) by (auto simp: handleSaveName_def Let_def split: if_splits)
  have eq: "p' = cancelEdit (p\<lparr>dp_devices := map ?u (dp_devices p)\<rparr>)"
    using assms(2,3) by (simp add: p' nameSaved_def checked_def is_ok_def)
  have "filter (\<lambda>d. dv_nodeId d \<noteq> i) (map ?u ds) = filter (\<lambda>d. dv_nodeId d \<noteq> i) ds" for ds
    by (induction ds) auto
  moreover have "map dv_nodeId (map ?u ds) = map dv_nodeId ds" for ds
    by (induction ds) auto
  ultimately have rest: "filter (\<lambda>d. dv_nodeId d \<noteq> i) (map ?u ds) = filter (\<lambda>d. dv_nodeId d \<noteq> i) ds
      \<and> map dv_nodeId (map ?u ds) = map dv_nodeId ds" for ds by simp
  have fields: "dp_devices p' = map ?u (dp_devices p)" "dp_editingNodeId p' = None"
    by (simp_all add: eq cancelEdit_def)
  have "dc_title (deviceCard p' d) = name \<and> \<not> dc_editing (deviceCard p' d)"
    if "d \<in> set (dp_devices p')" "dv_nodeId d = i" for d
  proof -
    from that(1) have "d \<in> ?u ` set (dp_devices p)" by (simp only: fields set_map)
    then obtain x where "d = ?u x" by blast
    with that(2) have "dv_name d = Some name" by (cases "dv_nodeId x = i") simp_all
    then show ?thesis using name(2) by (simp add: deviceCard_def Let_def fields)
  qed
  then have titles: "\<forall>d\<in>set (dp_devices p'). dv_nodeId d = i
      \<longrightarrow> dc_title (deviceCard p' d) = name \<and> \<not> dc_editing (deviceCard p' d)" by simp
  show ?thesis
    using name titles rest [of "dp_devices p"] by (simp only: fields simp_thms)
qed

theorem rename_round_trip_witness:
  "map (\<lambda>d. dc_title (deviceCard (nameSaved 10000 ''Roof'' (Answer 200 ()) (devices_open\<lparr>dp_devices := [inverter], dp_draftName := '' Roof''\<rparr>)) d))
     (dp_devices (nameSaved 10000 ''Roof'' (Answer 200 ()) (devices_open\<lparr>dp_devices := [inverter], dp_draftName := '' Roof''\<rparr>))) = [''Roof'']"
proof -
  let ?p = "devices_open\<lparr>dp_devices := [inverter], dp_draftName := '' Roof''\<rparr>"
  let ?q = "nameSaved 10000 ''Roof'' (Answer 200 ()) ?p"
  have "handleSaveName 10000 ?p = [Rename 10000 ''Roof'']" by code_simp
  then have "\<forall>d\<in>set (dp_devices ?q). dv_nodeId d = 10000 \<longrightarrow> dc_title (deviceCard ?q d) = ''Roof''"
    and "map dv_nodeId (dp_devices ?q) = map dv_nodeId (dp_devices ?p)"
    using rename_round_trip [of 10000 ?p "''Roof''" 200 ?q] by simp_all
  moreover have "map dv_nodeId (dp_devices ?p) = [10000]" by (simp add: inverter_def)
  ultimately show ?thesis by (auto simp: map_eq_Cons_conv)
qed

text \<open>
  The answer to a rename closes whichever name field is open when it arrives: a name that is being
  typed for another device is thrown away.
\<close>

theorem late_rename_closes_other_editor:
  assumes "dp_editingNodeId p = Some j" "j \<noteq> i" and "200 \<le> st" "st \<le> 299"
  shows "dp_editingNodeId (nameSaved i name (Answer st ()) p) = None \<and> dp_draftName (nameSaved i name (Answer st ()) p) = []"
  using assms(3,4) by (simp add: nameSaved_def checked_def is_ok_def cancelEdit_def)

section \<open>The commissioning window\<close>

lemma digits_val_pad: "digits_val (pad_start 2 CHR ''0'' (dec n)) = n"
proof -
  have "digits_val (replicate k CHR ''0'' @ s) = digits_val s" for k s
    by (induction k) (simp_all add: digits_val_def digit_val_def)
  then show ?thesis by (simp add: pad_start_def)
qed

theorem countdown_is_readable:
  "digits_val (takeWhile (\<lambda>c. c \<noteq> CHR '':'') (formatRemaining s)) * 60
     + digits_val (tl (dropWhile (\<lambda>c. c \<noteq> CHR '':'') (formatRemaining s))) = s
   \<and> digits_val (tl (dropWhile (\<lambda>c. c \<noteq> CHR '':'') (formatRemaining s))) < 60
   \<and> filter (\<lambda>c. c \<noteq> CHR ''-'') (formatManualCode code) = filter (\<lambda>c. c \<noteq> CHR ''-'') code"
proof (intro conjI)
  have ne: "c \<noteq> CHR '':''" if "c \<in> set (dec n)" for c n
    using dec_digits [OF that] by (auto simp: is_digit_def)
  have tw: "takeWhile (\<lambda>c. c \<noteq> CHR '':'') (formatRemaining s) = dec (s div 60)"
    and dw: "tl (dropWhile (\<lambda>c. c \<noteq> CHR '':'') (formatRemaining s)) = pad_start 2 CHR ''0'' (dec (s mod 60))"
    using ne by (simp_all add: formatRemaining_def)
  show "digits_val (takeWhile (\<lambda>c. c \<noteq> CHR '':'') (formatRemaining s)) * 60
     + digits_val (tl (dropWhile (\<lambda>c. c \<noteq> CHR '':'') (formatRemaining s))) = s"
    "digits_val (tl (dropWhile (\<lambda>c. c \<noteq> CHR '':'') (formatRemaining s))) < 60"
    unfolding tw dw digits_val_pad by simp_all
  let ?P = "\<lambda>c. c \<noteq> CHR ''-''"
  have "filter ?P (take 4 code @ ''-'' @ take 3 (drop 4 code) @ ''-'' @ drop 7 code)
      = filter ?P (take 4 code @ take 3 (drop 4 code) @ drop 7 code)"
    by (simp only: filter_append) simp
  also have "take 4 code @ take 3 (drop 4 code) @ drop 7 code = code"
    using append_take_drop_id [of 3 "drop 4 code"] append_take_drop_id [of 4 code] by simp
  finally show "filter ?P (formatManualCode code) = filter ?P code"
    by (simp only: formatManualCode_def split: if_split) simp
qed

lemma remaining_rounds:
  "remainingSeconds w t = nat (math_round ((of_nat (ws_openedAt w) + of_nat (ws_timeout w) * 1000 - of_nat t) / 1000))"
  by (simp add: remainingSeconds_def)

lemma window_expired_iff:
  assumes "ws_manualCode w \<noteq> []" and v: "commissioningWindow (Some w) now = Some v"
  shows "wv_expired v \<longleftrightarrow> ws_openedAt w + ws_timeout w * 1000 < now + 500"
proof -
  let ?x = "(of_nat (ws_openedAt w) + of_nat (ws_timeout w) * 1000 - of_nat now) / 1000 :: rat"
  have "wv_expired v \<longleftrightarrow> math_round ?x \<le> 0"
    using v assms(1) by (auto simp: commissioningWindow_def remaining_rounds split: if_splits)
  also have "\<dots> \<longleftrightarrow> ?x + 1 / 2 < 1" by (simp add: math_round_def floor_le_iff del: of_nat_add)
  also have "\<dots> \<longleftrightarrow> (of_nat (ws_openedAt w + ws_timeout w * 1000) :: rat) < of_nat (now + 500)"
    by (simp add: field_simps)
  also have "\<dots> \<longleftrightarrow> ws_openedAt w + ws_timeout w * 1000 < now + 500" by (rule of_nat_less_iff)
  finally show ?thesis .
qed

lemma remaining_bound:
  assumes "ws_openedAt w \<le> now"
  shows "remainingSeconds w now \<le> ws_timeout w"
proof -
  let ?x = "(of_nat (ws_openedAt w) + of_nat (ws_timeout w) * 1000 - of_nat now) / 1000 :: rat"
  have "(of_nat (ws_openedAt w) :: rat) \<le> of_nat now" using assms by simp
  then have "?x \<le> of_nat (ws_timeout w)" by (simp add: field_simps)
  then have "?x + 1 / 2 < of_nat (ws_timeout w) + 1" by linarith
  then have "?x + 1 / 2 < of_int (int (ws_timeout w)) + 1" by (simp only: of_int_of_nat_eq)
  then have "math_round ?x \<le> int (ws_timeout w)"
    unfolding math_round_def by (simp only: floor_le_iff)
  then show ?thesis by (simp add: remaining_rounds)
qed

lemma remaining_antimono:
  assumes "now \<le> later"
  shows "remainingSeconds w later \<le> remainingSeconds w now"
proof -
  let ?x = "\<lambda>t. (of_nat (ws_openedAt w) + of_nat (ws_timeout w) * 1000 - of_nat t) / 1000 :: rat"
  have "(of_nat now :: rat) \<le> of_nat later" using assms by simp
  then have "?x later \<le> ?x now" by (simp add: divide_right_mono)
  then have "math_round (?x later) \<le> math_round (?x now)"
    unfolding math_round_def by (intro floor_mono) simp
  then show ?thesis by (simp add: remaining_rounds nat_mono)
qed

theorem window_expires:
  assumes "ws_manualCode w \<noteq> []" and v: "commissioningWindow (Some w) now = Some v"
  shows "(wv_expired v \<longleftrightarrow> ws_openedAt w + ws_timeout w * 1000 < now + 500)
    \<and> (ws_openedAt w \<le> now \<longrightarrow> remainingSeconds w now \<le> ws_timeout w)
    \<and> (now \<le> later \<longrightarrow> remainingSeconds w later \<le> remainingSeconds w now)"
  using window_expired_iff [OF assms] remaining_bound remaining_antimono by blast

definition demo_window :: window_state where
  "demo_window = \<lparr>ws_manualCode = ''34970112332'', ws_qrCode = ''MT:Y'', ws_timeout = 900, ws_openedAt = 1000000\<rparr>"

theorem window_expires_witness:
  "wv_expired (the (commissioningWindow (Some demo_window) 1900000))
   \<and> wv_code (the (commissioningWindow (Some demo_window) 1900000)) = ''3497-011-2332''"
proof
  have m: "ws_manualCode demo_window \<noteq> []" by (simp add: demo_window_def)
  then obtain v where v: "commissioningWindow (Some demo_window) 1900000 = Some v"
    by (simp add: commissioningWindow_def)
  from window_expires [OF m v] v show "wv_expired (the (commissioningWindow (Some demo_window) 1900000))"
    by (simp add: demo_window_def)
  show "wv_code (the (commissioningWindow (Some demo_window) 1900000)) = ''3497-011-2332''"
    using v by (auto simp: commissioningWindow_def demo_window_def formatManualCode_def)
qed

end
