(* ===== verification/FetchQueue.thy ===== *)
theory FetchQueue
  imports Graph
begin

text \<open>
  The request queue (\<open>fetchQueue.ts\<close>).  \<open>tail.then(run, run)\<close> chains each call onto the previous
  one: a call waits until the one before it has settled, either way, then it runs; a call whose
  signal was aborted meanwhile is rejected without being sent.  The chain is a list of calls in the
  order they were made.
\<close>

section \<open>Calls\<close>

datatype outcome = Response nat | NetworkError | AbortError

datatype status = Waiting | Running | Settled outcome

record call =
  q_input :: string
  q_aborted :: bool
  q_status :: status

record queue =
  q_calls :: "call list"
  q_sent :: "nat list"

text \<open>\<open>tail\<close> starts out resolved: nothing is queued, nothing was sent.\<close>

definition empty_queue :: queue where
  "empty_queue = \<lparr>q_calls = [], q_sent = []\<rparr>"

definition queuedFetch :: "string \<Rightarrow> bool \<Rightarrow> queue \<Rightarrow> queue" where
  "queuedFetch input aborted q =
     q\<lparr>q_calls := q_calls q @ [\<lparr>q_input = input, q_aborted = aborted, q_status = Waiting\<rparr>]\<rparr>"

definition is_settled :: "call \<Rightarrow> bool" where
  "is_settled c \<longleftrightarrow> (case q_status c of Settled _ \<Rightarrow> True | _ \<Rightarrow> False)"

text \<open>\<open>run\<close>: call \<open>k\<close> takes its turn.\<close>

definition run_call :: "nat \<Rightarrow> queue \<Rightarrow> queue" where
  "run_call k q =
     (let c = q_calls q ! k in
      if q_aborted c then q\<lparr>q_calls := (q_calls q)[k := c\<lparr>q_status := Settled AbortError\<rparr>]\<rparr>
      else q\<lparr>q_calls := (q_calls q)[k := c\<lparr>q_status := Running\<rparr>], q_sent := q_sent q @ [k]\<rparr>)"

definition turn_of :: "nat \<Rightarrow> queue \<Rightarrow> bool" where
  "turn_of k q \<longleftrightarrow>
     k < length (q_calls q) \<and> q_status (q_calls q ! k) = Waiting
     \<and> (k = 0 \<or> is_settled (q_calls q ! (k - 1)))"

text \<open>The caller aborts its signal.\<close>

definition abort_call :: "nat \<Rightarrow> queue \<Rightarrow> queue" where
  "abort_call k q = q\<lparr>q_calls := (q_calls q)[k := (q_calls q ! k)\<lparr>q_aborted := True\<rparr>]\<rparr>"

definition settle_call :: "nat \<Rightarrow> outcome \<Rightarrow> queue \<Rightarrow> queue" where
  "settle_call k r q = q\<lparr>q_calls := (q_calls q)[k := (q_calls q ! k)\<lparr>q_status := Settled r\<rparr>]\<rparr>"

definition isAbortError :: "outcome \<Rightarrow> bool" where
  "isAbortError r \<longleftrightarrow> r = AbortError"

section \<open>Steps\<close>

inductive queue_step :: "queue \<Rightarrow> queue \<Rightarrow> bool" where
  made: "queue_step q (queuedFetch input aborted q)"
| turn: "turn_of k q \<Longrightarrow> queue_step q (run_call k q)"
| abort: "k < length (q_calls q) \<Longrightarrow> queue_step q (abort_call k q)"
| settle: "k < length (q_calls q) \<Longrightarrow> q_status (q_calls q ! k) = Running
    \<Longrightarrow> (r = AbortError \<longrightarrow> q_aborted (q_calls q ! k)) \<Longrightarrow> queue_step q (settle_call k r q)"

inductive reachable :: "queue \<Rightarrow> bool" where
  start: "reachable empty_queue"
| later: "reachable q \<Longrightarrow> queue_step q q' \<Longrightarrow> reachable q'"

inductive_cases queue_stepE: "queue_step q q'"

section \<open>The contract of a serial queue\<close>

text \<open>
  What a page relies on: of the calls made, one at most is with the server, it is the oldest that
  has not settled, and the calls went out in the order they were made.
\<close>

locale serial_queue =
  fixes reach :: "'q \<Rightarrow> bool" and calls :: "'q \<Rightarrow> 'c list" and running settled waiting :: "'c \<Rightarrow> bool"
    and sent :: "'q \<Rightarrow> nat list"
  assumes serial: "reach q \<Longrightarrow> i < j \<Longrightarrow> j < length (calls q) \<Longrightarrow> settled (calls q ! i) \<or> waiting (calls q ! j)"
    and exclusive: "running c \<Longrightarrow> \<not> settled c \<and> \<not> waiting c" "settled c \<Longrightarrow> \<not> waiting c"
    and sent_sorted: "reach q \<Longrightarrow> sorted_wrt (<) (sent q)"
    and sent_started: "reach q \<Longrightarrow> k \<in> set (sent q) \<Longrightarrow> k < length (calls q) \<and> \<not> waiting (calls q ! k)"
    and running_sent: "reach q \<Longrightarrow> k < length (calls q) \<Longrightarrow> running (calls q ! k) \<Longrightarrow> k \<in> set (sent q)"
begin

lemma running_is_oldest:
  assumes "reach q" "i < length (calls q)" "running (calls q ! i)"
  shows "\<forall>j<i. settled (calls q ! j)" and "\<forall>j<length (calls q). i < j \<longrightarrow> waiting (calls q ! j)"
  using serial [OF assms(1)] exclusive(1) [OF assms(3)] assms(2) by blast+

lemma running_unique:
  assumes "reach q" "i < length (calls q)" "running (calls q ! i)" "j < length (calls q)" "running (calls q ! j)"
  shows "j = i"
  using running_is_oldest [OF assms(1-3)] exclusive(1) [OF assms(5)] assms(4) by (meson linorder_neqE_nat)

lemma sent_up_to_running:
  assumes "reach q" "i < length (calls q)" "running (calls q ! i)" "j \<in> set (sent q)"
  shows "j \<le> i"
  using running_is_oldest(2) [OF assms(1-3)] sent_started [OF assms(1,4)] not_le by blast

lemma running_sent_last:
  assumes "reach q" "i < length (calls q)" "running (calls q ! i)"
  shows "sent q \<noteq> [] \<and> last (sent q) = i"
proof -
  have i: "i \<in> set (sent q)" using running_sent assms by blast
  then obtain xs ys where xy: "sent q = xs @ i # ys" by (meson split_list)
  have "ys = []"
  proof (cases ys)
    case (Cons y zs)
    then have "i < y" using sent_sorted [OF assms(1)] xy by (simp add: sorted_wrt_append)
    moreover have "y \<le> i" using sent_up_to_running [OF assms] xy Cons by simp
    ultimately show ?thesis by simp
  qed simp
  with xy show ?thesis by simp
qed

end

section \<open>The queue of the source keeps the contract\<close>

definition is_waiting :: "call \<Rightarrow> bool" where "is_waiting c \<longleftrightarrow> q_status c = Waiting"
definition is_running :: "call \<Rightarrow> bool" where "is_running c \<longleftrightarrow> q_status c = Running"

lemmas status_defs = is_waiting_def is_running_def is_settled_def

lemma status_cases:
  "is_settled c \<Longrightarrow> \<not> is_waiting c" "is_settled c \<Longrightarrow> \<not> is_running c" "is_running c \<Longrightarrow> \<not> is_waiting c"
  "is_settled c \<or> is_running c \<or> is_waiting c"
  by (auto simp: status_defs split: status.splits)

definition serial_calls :: "call list \<Rightarrow> bool" where
  "serial_calls cs \<longleftrightarrow> (\<forall>j<length cs. \<forall>i<j. is_settled (cs ! i) \<or> is_waiting (cs ! j))"

definition sent_inv :: "call list \<Rightarrow> nat list \<Rightarrow> bool" where
  "sent_inv cs ks \<longleftrightarrow> sorted_wrt (<) ks \<and> (\<forall>k\<in>set ks. k < length cs \<and> \<not> is_waiting (cs ! k))
     \<and> (\<forall>k<length cs. is_running (cs ! k) \<longrightarrow> k \<in> set ks)"

definition queue_inv :: "queue \<Rightarrow> bool" where
  "queue_inv q \<longleftrightarrow> serial_calls (q_calls q) \<and> sent_inv (q_calls q) (q_sent q)"

text \<open>A change of one call that keeps or advances its phase keeps the invariant.\<close>

lemma queue_inv_update:
  assumes "queue_inv q" and "j < length (q_calls q)"
    and "is_settled (q_calls q ! j) \<Longrightarrow> is_settled c" "is_waiting (q_calls q ! j) \<longleftrightarrow> is_waiting c"
    and "is_running c \<Longrightarrow> is_running (q_calls q ! j)"
  shows "queue_inv (q\<lparr>q_calls := (q_calls q)[j := c]\<rparr>)"
proof -
  have "serial_calls ((q_calls q)[j := c])"
    using assms unfolding queue_inv_def serial_calls_def length_list_update
    by (metis nth_list_update_eq nth_list_update_neq)
  moreover have "sent_inv ((q_calls q)[j := c]) (q_sent q)"
    using assms unfolding queue_inv_def sent_inv_def length_list_update
    by (metis nth_list_update_eq nth_list_update_neq)
  ultimately show ?thesis by (simp add: queue_inv_def)
qed

lemma queue_inv_made:
  assumes "queue_inv q"
  shows "queue_inv (queuedFetch input aborted q)"
proof -
  let ?c = "\<lparr>q_input = input, q_aborted = aborted, q_status = Waiting\<rparr>"
  have w: "is_waiting ?c" "\<not> is_running ?c" by (simp_all add: status_defs)
  have "serial_calls (q_calls q @ [?c])"
    using assms w by (auto simp: queue_inv_def serial_calls_def nth_append less_Suc_eq)
  moreover have "sent_inv (q_calls q @ [?c]) (q_sent q)"
    using assms w by (auto simp: queue_inv_def sent_inv_def nth_append less_Suc_eq)
  ultimately show ?thesis by (simp add: queue_inv_def queuedFetch_def)
qed

lemma turn_is_front:
  assumes "queue_inv q" and "turn_of k q"
  shows "i < k \<Longrightarrow> is_settled (q_calls q ! i)"
    and "i < length (q_calls q) \<Longrightarrow> k < i \<Longrightarrow> is_waiting (q_calls q ! i)"
    and "i \<in> set (q_sent q) \<Longrightarrow> i < k"
proof -
  have ser: "serial_calls (q_calls q)" and sent: "sent_inv (q_calls q) (q_sent q)"
    using assms(1) by (simp_all add: queue_inv_def)
  have w: "k < length (q_calls q)" "is_waiting (q_calls q ! k)" "k = 0 \<or> is_settled (q_calls q ! (k - 1))"
    using assms(2) by (simp_all add: turn_of_def is_waiting_def)
  show "is_settled (q_calls q ! i)" if "i < k"
  proof (cases "i = k - 1")
    case False
    then have "i < k - 1" "k - 1 < length (q_calls q)" using that w(1) by auto
    then have "is_settled (q_calls q ! i) \<or> is_waiting (q_calls q ! (k - 1))" using ser by (simp add: serial_calls_def)
    then show ?thesis using w(3) that status_cases(1) by auto
  qed (use w(3) that in auto)
  have behind: "is_waiting (q_calls q ! i)" if "i < length (q_calls q)" "k < i" for i
    using ser that w(2) status_cases(1) unfolding serial_calls_def by blast
  then show "is_waiting (q_calls q ! i)" if "i < length (q_calls q)" "k < i"
    using that by blast
  show "i < k" if "i \<in> set (q_sent q)"
  proof (rule ccontr)
    assume "\<not> i < k"
    moreover have "i < length (q_calls q)" "\<not> is_waiting (q_calls q ! i)" using sent that by (simp_all add: sent_inv_def)
    ultimately show False using w(2) behind by (metis linorder_neqE_nat)
  qed
qed

lemma queue_inv_turn:
  assumes "queue_inv q" and "turn_of k q"
  shows "queue_inv (run_call k q)"
proof -
  define c where "c = (q_calls q ! k)\<lparr>q_status := if q_aborted (q_calls q ! k) then Settled AbortError else Running\<rparr>"
  have k: "k < length (q_calls q)" using assms(2) by (simp add: turn_of_def)
  have calls: "q_calls (run_call k q) = (q_calls q)[k := c]" by (simp add: run_call_def Let_def c_def)
  have sent: "q_sent (run_call k q) = (if is_running c then q_sent q @ [k] else q_sent q)"
    by (simp add: run_call_def Let_def c_def is_running_def)
  have c: "\<not> is_waiting c" by (simp add: c_def is_waiting_def)
  note f = turn_is_front [OF assms]
  have "serial_calls ((q_calls q)[k := c])"
    unfolding serial_calls_def length_list_update
  proof (intro allI impI)
    fix j i assume ij: "j < length (q_calls q)" "i < j"
    consider "j = k" | "i = k" | "j \<noteq> k" "i \<noteq> k" by blast
    then show "is_settled ((q_calls q)[k := c] ! i) \<or> is_waiting ((q_calls q)[k := c] ! j)"
      using ij f(1) [of i] f(2) [of j] assms(1) by cases (auto simp: queue_inv_def serial_calls_def)
  qed
  moreover have "sent_inv ((q_calls q)[k := c]) (if is_running c then q_sent q @ [k] else q_sent q)"
    using assms(1) k c f(3) by (auto simp: queue_inv_def sent_inv_def nth_list_update sorted_wrt_append)
  ultimately show ?thesis by (simp add: queue_inv_def calls sent)
qed

lemma queue_inv_abort: "queue_inv q \<Longrightarrow> k < length (q_calls q) \<Longrightarrow> queue_inv (abort_call k q)"
  unfolding abort_call_def by (rule queue_inv_update) (simp_all add: status_defs)

lemma queue_inv_settle:
  "queue_inv q \<Longrightarrow> k < length (q_calls q) \<Longrightarrow> q_status (q_calls q ! k) = Running \<Longrightarrow> queue_inv (settle_call k r q)"
  unfolding settle_call_def by (rule queue_inv_update) (simp_all add: status_defs)

lemma queue_inv_step: "queue_step q q' \<Longrightarrow> queue_inv q \<Longrightarrow> queue_inv q'"
  by (induction rule: queue_step.induct) (simp_all add: queue_inv_made queue_inv_turn queue_inv_abort queue_inv_settle)

lemma reachable_queue_inv: "reachable q \<Longrightarrow> queue_inv q"
proof (induction rule: reachable.induct)
  case start then show ?case by (simp add: queue_inv_def empty_queue_def serial_calls_def sent_inv_def)
next
  case (later q q') then show ?case by (simp add: queue_inv_step)
qed

interpretation fetches: serial_queue reachable q_calls is_running is_settled is_waiting q_sent
proof
  fix q i j assume "reachable q" "i < j" "j < length (q_calls q)"
  then show "is_settled (q_calls q ! i) \<or> is_waiting (q_calls q ! j)"
    using reachable_queue_inv by (simp add: queue_inv_def serial_calls_def)
qed (use reachable_queue_inv in \<open>auto simp: queue_inv_def sent_inv_def status_defs split: status.splits\<close>)

section \<open>Nothing waits for ever\<close>

text \<open>What is left to do: two steps for a call that waits, one for a call in flight.\<close>

definition todo :: "call \<Rightarrow> nat" where
  "todo c = (case q_status c of Waiting \<Rightarrow> 2 | Running \<Rightarrow> 1 | Settled _ \<Rightarrow> 0)"

definition backlog :: "queue \<Rightarrow> nat" where
  "backlog q = sum_list (map todo (q_calls q))"

lemma backlog_0: "backlog q = 0 \<longleftrightarrow> (\<forall>c\<in>set (q_calls q). is_settled c)"
  by (auto simp: backlog_def todo_def is_settled_def split: status.splits)

lemma todo_update:
  assumes "k < length cs" and "todo c < todo (cs ! k)"
  shows "sum_list (map todo (cs[k := c])) < sum_list (map todo cs)"
  using assms
proof (induction cs arbitrary: k)
  case (Cons a cs) then show ?case by (cases k) auto
qed simp

lemma backlog_turn: "turn_of k q \<Longrightarrow> backlog (run_call k q) < backlog q"
  by (auto simp: turn_of_def run_call_def backlog_def Let_def todo_def intro!: todo_update)

lemma backlog_settle:
  "k < length (q_calls q) \<Longrightarrow> q_status (q_calls q ! k) = Running \<Longrightarrow> backlog (settle_call k r q) < backlog q"
  by (auto simp: settle_call_def backlog_def todo_def intro!: todo_update)

lemma first_unsettled:
  "c \<in> set cs \<Longrightarrow> \<not> is_settled c \<Longrightarrow> \<exists>k<length cs. \<not> is_settled (cs ! k) \<and> (\<forall>i<k. is_settled (cs ! i))"
proof (induction cs)
  case (Cons d cs)
  show ?case
  proof (cases "is_settled d")
    case True
    then obtain k where "k < length cs" "\<not> is_settled (cs ! k)" "\<forall>i<k. is_settled (cs ! i)"
      using Cons by auto
    then show ?thesis using True by (intro exI [of _ "Suc k"]) (auto simp: less_Suc_eq_0_disj)
  next
    case False
    then show ?thesis by (intro exI [of _ 0]) simp
  qed
qed simp

text \<open>The oldest unsettled call is in flight, or it is its turn.\<close>

lemma queue_moves:
  assumes "c \<in> set (q_calls q)" and "\<not> is_settled c"
  shows "\<exists>k<length (q_calls q). turn_of k q \<or> q_status (q_calls q ! k) = Running"
proof -
  obtain k where k: "k < length (q_calls q)" "\<not> is_settled (q_calls q ! k)" "\<forall>i<k. is_settled (q_calls q ! i)"
    using first_unsettled [OF assms] by blast
  then have "q_status (q_calls q ! k) = Waiting \<or> q_status (q_calls q ! k) = Running"
    using status_cases(4) by (auto simp: is_waiting_def is_running_def)
  moreover have "k = 0 \<or> is_settled (q_calls q ! (k - 1))" using k(3) by (cases k) auto
  ultimately show ?thesis using k(1) unfolding turn_of_def by blast
qed

text \<open>The events that are not the caller's: turns, and answers of the server.\<close>

inductive serve_step :: "queue \<Rightarrow> queue \<Rightarrow> bool" where
  serve_turn: "turn_of k q \<Longrightarrow> serve_step q (run_call k q)"
| serve_answer: "k < length (q_calls q) \<Longrightarrow> q_status (q_calls q ! k) = Running \<Longrightarrow> r \<noteq> AbortError
    \<Longrightarrow> serve_step q (settle_call k r q)"

lemma serve_step_queue_step: "serve_step q q' \<Longrightarrow> queue_step q q'"
  by (induction rule: serve_step.induct) (auto intro: queue_step.intros)

lemma serve_step_backlog: "serve_step q q' \<Longrightarrow> backlog q' < backlog q"
  by (induction rule: serve_step.induct) (auto intro: backlog_turn backlog_settle)

lemma serve_step_length: "serve_step q q' \<Longrightarrow> length (q_calls q') = length (q_calls q)"
  by (induction rule: serve_step.induct) (auto simp: run_call_def settle_call_def Let_def)

lemma serve_stuck: "(\<nexists>q'. serve_step q q') \<Longrightarrow> list_all is_settled (q_calls q)"
  unfolding list_all_iff by (metis queue_moves outcome.distinct(5) serve_step.intros)

section \<open>A call that was aborted before its turn\<close>

definition doomed :: "nat \<Rightarrow> queue \<Rightarrow> bool" where
  "doomed k q \<longleftrightarrow> k < length (q_calls q) \<and> k \<notin> set (q_sent q) \<and> q_aborted (q_calls q ! k)
     \<and> (is_waiting (q_calls q ! k) \<or> q_status (q_calls q ! k) = Settled AbortError)"

lemma doomed_step: "queue_step q q' \<Longrightarrow> doomed k q \<Longrightarrow> doomed k q'"
proof (induction rule: queue_step.induct)
  case (made q input aborted) then show ?case by (auto simp: doomed_def queuedFetch_def nth_append)
next
  case (turn j q) then show ?case
    by (cases "j = k") (auto simp: doomed_def run_call_def turn_of_def Let_def)
next
  case (abort j q) then show ?case
    by (cases "j = k") (auto simp: doomed_def abort_call_def is_waiting_def)
next
  case (settle j q r) then show ?case
    by (cases "j = k") (auto simp: doomed_def settle_call_def is_waiting_def)
qed

lemma doomed_steps: "queue_step\<^sup>*\<^sup>* q q' \<Longrightarrow> doomed k q \<Longrightarrow> doomed k q'"
  by (induction rule: rtranclp_induct) (auto intro: doomed_step)

section \<open>What the pages get from the queue\<close>

definition example_queue :: queue where
  "example_queue = queuedFetch ''/api/appliances'' False (run_call 0 (queuedFetch ''/api/devices'' False empty_queue))"

lemma example_queue_reachable: "reachable example_queue"
proof -
  let ?q = "queuedFetch ''/api/devices'' False empty_queue"
  have "reachable ?q" by (rule reachable.later [OF reachable.start queue_step.made])
  moreover have "turn_of 0 ?q" by code_simp
  ultimately have "reachable (run_call 0 ?q)" by (rule reachable.later [OF _ queue_step.turn])
  then show ?thesis unfolding example_queue_def by (rule reachable.later [OF _ queue_step.made])
qed

text \<open>
  C7.  In every reachable state of the request queue a running request is the only one, every
  call made before it has settled, every later call is still waiting, and requests reach the
  server in the order the calls were made.
\<close>

theorem one_request_at_a_time:
  assumes "reachable q" and "i < length (q_calls q)" and "is_running (q_calls q ! i)"
  shows "(\<forall>j<length (q_calls q). is_running (q_calls q ! j) \<longrightarrow> j = i)
    \<and> (\<forall>j<i. is_settled (q_calls q ! j))
    \<and> (\<forall>j<length (q_calls q). i < j \<longrightarrow> is_waiting (q_calls q ! j))
    \<and> sorted_wrt (<) (q_sent q) \<and> q_sent q \<noteq> [] \<and> last (q_sent q) = i"
  using fetches.running_is_oldest [OF assms] fetches.running_unique [OF assms]
    fetches.running_sent_last [OF assms] fetches.sent_sorted [OF assms(1)] by blast

theorem one_request_at_a_time_witness: "last (q_sent example_queue) = 0"
proof -
  have "0 < length (q_calls example_queue)" "is_running (q_calls example_queue ! 0)" by code_simp+
  from one_request_at_a_time [OF example_queue_reachable this] show ?thesis by blast
qed

text \<open>
  C29.  A call whose signal is aborted while it waits in the queue never reaches the server,
  whatever happens afterwards, and it can only settle with an error that isAbortError
  recognises.
\<close>

theorem aborted_in_the_queue_is_never_sent:
  assumes "reachable q" and "k < length (q_calls q)" and "is_waiting (q_calls q ! k)"
    and "queue_step\<^sup>*\<^sup>* (abort_call k q) q'"
  shows "k \<notin> set (q_sent q')
    \<and> (is_settled (q_calls q' ! k) \<longrightarrow> (\<exists>r. q_status (q_calls q' ! k) = Settled r \<and> isAbortError r))"
proof -
  have "k \<notin> set (q_sent q)" using fetches.sent_started [OF assms(1)] assms(3) by blast
  then have "doomed k (abort_call k q)" using assms(2,3) by (simp add: doomed_def abort_call_def is_waiting_def)
  then have "doomed k q'" using assms(4) doomed_steps by blast
  then show ?thesis by (auto simp: doomed_def status_defs isAbortError_def)
qed

theorem aborted_in_the_queue_is_never_sent_witness:
  "1 \<notin> set (q_sent (run_call 1 (settle_call 0 (Response 200) (abort_call 1 example_queue))))"
proof -
  let ?a = "abort_call 1 example_queue" let ?b = "settle_call 0 (Response 200) ?a"
  have "queue_step ?a ?b" by (rule queue_step.settle) code_simp+
  moreover have "queue_step ?b (run_call 1 ?b)" by (rule queue_step.turn) code_simp
  ultimately have steps: "queue_step\<^sup>*\<^sup>* ?a (run_call 1 ?b)" by auto
  have "1 < length (q_calls example_queue)" "is_waiting (q_calls example_queue ! 1)" by code_simp+
  from aborted_in_the_queue_is_never_sent [OF example_queue_reachable this steps] show ?thesis by blast
qed

text \<open>
  C8.  The queue never wedges: as long as the server answers in some way, also with an error,
  every sequence of turns and answers ends, it is stuck only when all calls have settled, and
  such a state is always reached.
\<close>

theorem every_call_settles:
  "wfp (\<lambda>q' q. serve_step q q')
    \<and> ((\<nexists>q'. serve_step q q') \<longleftrightarrow> list_all is_settled (q_calls q))
    \<and> (\<exists>q'. serve_step\<^sup>*\<^sup>* q q' \<and> list_all is_settled (q_calls q') \<and> length (q_calls q') = length (q_calls q))"
proof (intro conjI)
  have "wfp (\<lambda>q' q. backlog q' < backlog q)" by (simp add: wfp_if_convertible_to_nat)
  then show wf: "wfp (\<lambda>q' q. serve_step q q')"
    by (rule wfp_subset) (auto intro: serve_step_backlog)
  show "(\<nexists>q'. serve_step q q') \<longleftrightarrow> list_all is_settled (q_calls q)"
  proof
    assume all: "list_all is_settled (q_calls q)"
    have "\<not> serve_step q q'" for q'
    proof
      assume "serve_step q q'"
      then have "\<exists>k<length (q_calls q). \<not> is_settled (q_calls q ! k)"
        by cases (auto simp: turn_of_def is_settled_def)
      then obtain k where "k < length (q_calls q)" "\<not> is_settled (q_calls q ! k)" by blast
      with all show False by (simp add: list_all_length)
    qed
    then show "\<nexists>q'. serve_step q q'" by blast
  qed (rule serve_stuck)
  show "\<exists>q'. serve_step\<^sup>*\<^sup>* q q' \<and> list_all is_settled (q_calls q') \<and> length (q_calls q') = length (q_calls q)"
  proof (induction q rule: wfp_induct_rule [OF wf])
    case (1 q)
    show ?case
    proof (cases "\<exists>q1. serve_step q q1")
      case True
      then obtain q1 where q1: "serve_step q q1" by blast
      then obtain q' where "serve_step\<^sup>*\<^sup>* q1 q'" "list_all is_settled (q_calls q')" "length (q_calls q') = length (q_calls q1)"
        using 1 by blast
      with q1 serve_step_length show ?thesis by (metis converse_rtranclp_into_rtranclp)
    next
      case False
      then show ?thesis using serve_stuck by blast
    qed
  qed
qed

end
