(* ===== verification/WebSocketHook.thy ===== *)
theory WebSocketHook
  imports Graph
begin

text \<open>
  The live connection of a page (\<open>useWebSocket.ts\<close>): one socket, reopened after a delay that
  doubles up to a limit.  The hook's refs and its state are a record, the sockets it ever opened
  and the timers that are pending stand beside it; the events are those the browser can deliver.
  A frame's text is parsed by \<open>parse\<close>, a parameter for \<open>JSON.parse\<close>: \<open>None\<close> is a throw.
\<close>

section \<open>State\<close>

datatype ws_state = SConnecting | SOpen | SClosing | SClosed

datatype WsReadyState = Connecting | Open | Closed

record 'm hook =
  ws_sockets :: "ws_state list"
  ws_timers :: "(nat \<times> nat) list"
  ws_next :: nat
  wsRef :: "nat option"
  retryMs :: nat
  retryTimer :: "nat option"
  readyState :: WsReadyState
  delivered :: "'m list"
  mounted :: bool

definition BASE_RETRY_MS :: nat where "BASE_RETRY_MS = 1000"
definition MAX_RETRY_MS :: nat where "MAX_RETRY_MS = 30000"

definition wsUrl :: "string \<Rightarrow> string \<Rightarrow> string" where
  "wsUrl protocol host = (if protocol = ''https:'' then ''wss:'' else ''ws:'') @ ''//'' @ host @ ''/ws''"

section \<open>Handlers\<close>

definition connect :: "'m hook \<Rightarrow> 'm hook" where
  "connect h = h\<lparr>ws_sockets := ws_sockets h @ [SConnecting], wsRef := Some (length (ws_sockets h))\<rparr>"

definition set_socket :: "nat \<Rightarrow> ws_state \<Rightarrow> 'm hook \<Rightarrow> 'm hook" where
  "set_socket i s h = h\<lparr>ws_sockets := (ws_sockets h)[i := s]\<rparr>"

definition onopen :: "nat \<Rightarrow> 'm hook \<Rightarrow> 'm hook" where
  "onopen i h = (set_socket i SOpen h)\<lparr>readyState := Open, retryMs := BASE_RETRY_MS\<rparr>"

definition onmessage :: "(string \<Rightarrow> 'm option) \<Rightarrow> string \<Rightarrow> 'm hook \<Rightarrow> 'm hook" where
  "onmessage parse frame h =
     (case parse frame of Some m \<Rightarrow> h\<lparr>delivered := delivered h @ [m]\<rparr> | None \<Rightarrow> h)"

definition onclose :: "nat \<Rightarrow> 'm hook \<Rightarrow> 'm hook" where
  "onclose i h =
     (set_socket i SClosed h)\<lparr>readyState := Closed,
        ws_timers := ws_timers h @ [(ws_next h, retryMs h)], retryTimer := Some (ws_next h), ws_next := Suc (ws_next h)\<rparr>"

text \<open>\<open>ws.close()\<close>: the socket starts to close; its close event comes later.\<close>

definition ws_close :: "nat \<Rightarrow> 'm hook \<Rightarrow> 'm hook" where
  "ws_close i h = (if ws_sockets h ! i = SClosed then h else set_socket i SClosing h)"

definition onerror :: "nat \<Rightarrow> 'm hook \<Rightarrow> 'm hook" where
  "onerror i h = ws_close i h"

definition drop_timer :: "nat \<Rightarrow> 'm hook \<Rightarrow> 'm hook" where
  "drop_timer t h = h\<lparr>ws_timers := filter (\<lambda>x. fst x \<noteq> t) (ws_timers h)\<rparr>"

definition onretry :: "nat \<Rightarrow> 'm hook \<Rightarrow> 'm hook" where
  "onretry t h =
     (let h1 = drop_timer t h in
      connect (h1\<lparr>retryMs := min (retryMs h1 * 2) MAX_RETRY_MS, readyState := Connecting\<rparr>))"

definition mount :: "'m hook" where
  "mount = connect \<lparr>ws_sockets = [], ws_timers = [], ws_next = 0, wsRef = None, retryMs = BASE_RETRY_MS,
     retryTimer = None, readyState = Connecting, delivered = [], mounted = True\<rparr>"

definition unmount :: "'m hook \<Rightarrow> 'm hook" where
  "unmount h =
     (let h1 = (case retryTimer h of Some t \<Rightarrow> drop_timer t h | None \<Rightarrow> h);
          h2 = (case wsRef h1 of Some i \<Rightarrow> ws_close i h1 | None \<Rightarrow> h1)
      in h2\<lparr>mounted := False\<rparr>)"

section \<open>Events\<close>

datatype ws_event = Opened nat | Frame nat string | Errored nat | CloseEvent nat | Fired nat | Unmounted

text \<open>What the browser can deliver in a state.\<close>

fun can :: "ws_event \<Rightarrow> 'm hook \<Rightarrow> bool" where
  "can (Opened i) h \<longleftrightarrow> i < length (ws_sockets h) \<and> ws_sockets h ! i = SConnecting"
| "can (Frame i t) h \<longleftrightarrow> i < length (ws_sockets h) \<and> ws_sockets h ! i = SOpen"
| "can (Errored i) h \<longleftrightarrow> i < length (ws_sockets h) \<and> ws_sockets h ! i \<noteq> SClosed"
| "can (CloseEvent i) h \<longleftrightarrow> i < length (ws_sockets h) \<and> ws_sockets h ! i \<noteq> SClosed"
| "can (Fired t) h \<longleftrightarrow> t \<in> set (map fst (ws_timers h))"
| "can Unmounted h \<longleftrightarrow> mounted h"

fun handle :: "(string \<Rightarrow> 'm option) \<Rightarrow> ws_event \<Rightarrow> 'm hook \<Rightarrow> 'm hook" where
  "handle parse (Opened i) h = onopen i h"
| "handle parse (Frame i t) h = onmessage parse t h"
| "handle parse (Errored i) h = onerror i h"
| "handle parse (CloseEvent i) h = onclose i h"
| "handle parse (Fired t) h = onretry t h"
| "handle parse Unmounted h = unmount h"

inductive ws_step :: "(string \<Rightarrow> 'm option) \<Rightarrow> 'm hook \<Rightarrow> 'm hook \<Rightarrow> bool" for parse where
  event: "can e h \<Longrightarrow> ws_step parse h (handle parse e h)"

inductive ws_reachable :: "(string \<Rightarrow> 'm option) \<Rightarrow> 'm hook \<Rightarrow> bool" for parse where
  fresh: "ws_reachable parse mount"
| stepped: "ws_reachable parse h \<Longrightarrow> ws_step parse h h' \<Longrightarrow> ws_reachable parse h'"

definition useWebSocket :: "'m hook \<Rightarrow> WsReadyState" where
  "useWebSocket h = readyState h"

lemmas hook_defs = connect_def set_socket_def onopen_def onmessage_def onclose_def ws_close_def onerror_def
  drop_timer_def onretry_def mount_def unmount_def Let_def

section \<open>The connection while the page is mounted\<close>

text \<open>
  What a mounted hook looks like: every socket but the newest is closed; the newest is alive and no
  timer is pending, or it is closed and the one pending timer will open the next.
\<close>

definition backoff :: "nat \<Rightarrow> nat" where
  "backoff n = min (BASE_RETRY_MS * 2 ^ n) MAX_RETRY_MS"

definition newest :: "'m hook \<Rightarrow> nat" where
  "newest h = length (ws_sockets h) - 1"

definition ws_inv :: "'m hook \<Rightarrow> bool" where
  "ws_inv h \<longleftrightarrow>
     ws_sockets h \<noteq> [] \<and> wsRef h = Some (newest h) \<and> list_all (\<lambda>s. s = SClosed) (butlast (ws_sockets h))
     \<and> (\<exists>n. retryMs h = backoff n)
     \<and> (case last (ws_sockets h) of
          SConnecting \<Rightarrow> ws_timers h = [] \<and> readyState h = Connecting
        | SOpen \<Rightarrow> ws_timers h = [] \<and> readyState h = Open \<and> retryMs h = BASE_RETRY_MS
        | SClosing \<Rightarrow> ws_timers h = []
        | SClosed \<Rightarrow> readyState h = Closed \<and> (\<exists>t. retryTimer h = Some t \<and> ws_timers h = [(t, retryMs h)]))"

lemma backoff_0: "backoff 0 = BASE_RETRY_MS" by (simp add: backoff_def BASE_RETRY_MS_def MAX_RETRY_MS_def)

lemma base_backoff [simp]: "\<exists>n. BASE_RETRY_MS = backoff n" using backoff_0 by metis

lemma backoff_Suc: "min (backoff n * 2) MAX_RETRY_MS = backoff (Suc n)"
  by (simp add: backoff_def min_def)

lemma backoff_bounds: "BASE_RETRY_MS \<le> backoff n" "backoff n \<le> MAX_RETRY_MS"
  by (simp_all add: backoff_def BASE_RETRY_MS_def MAX_RETRY_MS_def)

lemma alive_is_newest:
  assumes "ws_inv h" and "i < length (ws_sockets h)" and "ws_sockets h ! i \<noteq> SClosed"
  shows "i = newest h"
proof (rule ccontr)
  assume "i \<noteq> newest h"
  then have "i < length (butlast (ws_sockets h))" using assms(2) by (simp add: newest_def)
  then have "ws_sockets h ! i = SClosed" using assms(1) by (auto simp: ws_inv_def list_all_length nth_butlast)
  with assms(3) show False by simp
qed

lemma ws_inv_split:
  assumes "ws_inv h"
  obtains xs s where "ws_sockets h = xs @ [s]" "newest h = length xs"
proof -
  have "ws_sockets h = butlast (ws_sockets h) @ [last (ws_sockets h)]" using assms by (simp add: ws_inv_def)
  then show ?thesis using that by (simp add: newest_def)
qed

lemma ws_inv_mount: "ws_inv mount"
  by (auto simp: ws_inv_def mount_def connect_def newest_def)

lemma ws_inv_onopen:
  assumes "ws_inv h" and "ws_sockets h ! newest h = SConnecting"
  shows "ws_inv (onopen (newest h) h)"
proof -
  obtain xs s where h: "ws_sockets h = xs @ [s]" "newest h = length xs" by (rule ws_inv_split [OF assms(1)])
  then show ?thesis using assms by (auto simp: ws_inv_def onopen_def set_socket_def newest_def)
qed

lemma ws_inv_ws_close:
  assumes "ws_inv h"
  shows "ws_inv (ws_close (newest h) h)"
proof -
  obtain xs s where h: "ws_sockets h = xs @ [s]" "newest h = length xs" by (rule ws_inv_split [OF assms])
  then show ?thesis using assms by (cases s) (auto simp: ws_inv_def ws_close_def set_socket_def newest_def)
qed

lemma ws_inv_onclose:
  assumes "ws_inv h" and "ws_sockets h ! newest h \<noteq> SClosed"
  shows "ws_inv (onclose (newest h) h)"
proof -
  obtain xs s where h: "ws_sockets h = xs @ [s]" "newest h = length xs" by (rule ws_inv_split [OF assms(1)])
  then show ?thesis using assms by (cases s) (auto simp: ws_inv_def onclose_def set_socket_def newest_def)
qed

lemma ws_inv_onretry:
  assumes "ws_inv h" and "t \<in> set (map fst (ws_timers h))"
  shows "ws_inv (onretry t h)"
proof -
  obtain xs s where h: "ws_sockets h = xs @ [s]" "newest h = length xs" by (rule ws_inv_split [OF assms(1)])
  obtain n where n: "retryMs h = backoff n" using assms(1) by (auto simp: ws_inv_def)
  have s: "s = SClosed" "ws_timers h = [(t, retryMs h)]"
    using assms h by (auto simp: ws_inv_def split: ws_state.splits)
  then show ?thesis using assms h n backoff_Suc [of n]
    by (auto simp: ws_inv_def onretry_def drop_timer_def connect_def Let_def newest_def butlast_append intro!: exI [of _ "Suc n"])
qed

lemma ws_inv_handle:
  assumes "ws_inv h" and "can e h" and "e \<noteq> Unmounted"
  shows "ws_inv (handle parse e h)"
proof (cases e)
  case (Frame i f)
  then show ?thesis using assms(1)
    by (auto simp: onmessage_def ws_inv_def newest_def split: option.splits ws_state.splits)
next
  case (Opened i)
  then have "i = newest h" "ws_sockets h ! newest h = SConnecting" using assms alive_is_newest by fastforce+
  then show ?thesis using Opened assms(1) by (simp add: ws_inv_onopen)
next
  case (Errored i)
  then have "i = newest h" using assms alive_is_newest by auto
  then show ?thesis using Errored assms(1) by (simp add: onerror_def ws_inv_ws_close)
next
  case (CloseEvent i)
  then have "i = newest h" "ws_sockets h ! newest h \<noteq> SClosed" using assms alive_is_newest by fastforce+
  then show ?thesis using CloseEvent assms(1) by (simp add: ws_inv_onclose)
next
  case (Fired t)
  then show ?thesis using assms by (simp add: ws_inv_onretry)
qed (use assms in simp)

lemma mounted_handle: "e \<noteq> Unmounted \<Longrightarrow> mounted (handle parse e h) = mounted h"
  by (cases e) (auto simp: hook_defs split: option.splits)

lemma mounted_ws_inv: "ws_reachable parse h \<Longrightarrow> mounted h \<Longrightarrow> ws_inv h"
proof (induction rule: ws_reachable.induct)
  case fresh then show ?case by (simp add: ws_inv_mount)
next
  case (stepped h h')
  then obtain e where e: "can e h" "h' = handle parse e h" by (auto elim: ws_step.cases)
  show ?case
  proof (cases "e = Unmounted")
    case True
    then show ?thesis using e stepped.prems by (simp add: unmount_def Let_def)
  next
    case False
    then show ?thesis using e stepped mounted_handle ws_inv_handle by metis
  qed
qed

section \<open>Properties\<close>

definition alive :: "'m hook \<Rightarrow> nat list" where
  "alive h = filter (\<lambda>i. ws_sockets h ! i \<noteq> SClosed) [0..<length (ws_sockets h)]"

lemma alive_of_inv: "ws_inv h \<Longrightarrow> alive h = (if last (ws_sockets h) = SClosed then [] else [newest h])"
proof -
  assume inv: "ws_inv h"
  obtain xs s where h: "ws_sockets h = xs @ [s]" "newest h = length xs" by (rule ws_inv_split [OF inv])
  have "filter (\<lambda>i. ws_sockets h ! i \<noteq> SClosed) [0..<length xs] = []"
    using inv h by (auto simp: filter_empty_conv ws_inv_def list_all_length nth_append)
  then show ?thesis using h by (simp add: alive_def)
qed

text \<open>
  C20.  While the page is mounted the live connection is either one socket that is not closed,
  which is the one the hook refers to, or one pending retry whose delay lies between one and
  thirty seconds; never both and never two of either.
\<close>

theorem one_connection_or_one_retry:
  assumes "ws_reachable parse h" and "mounted h"
  shows "length (alive h) + length (ws_timers h) = 1
    \<and> list_all (\<lambda>(t, d). BASE_RETRY_MS \<le> d \<and> d \<le> MAX_RETRY_MS) (ws_timers h)
    \<and> (alive h \<noteq> [] \<longrightarrow> wsRef h = Some (hd (alive h)))
    \<and> (ws_timers h \<noteq> [] \<longrightarrow> retryTimer h = Some (fst (hd (ws_timers h))) \<and> useWebSocket h = Closed)"
proof -
  have inv: "ws_inv h" by (rule mounted_ws_inv [OF assms])
  then obtain n where n: "retryMs h = backoff n" by (auto simp: ws_inv_def)
  show ?thesis
    using inv backoff_bounds [of n] alive_of_inv [OF inv]
    by (cases "last (ws_sockets h)") (auto simp: ws_inv_def n useWebSocket_def)
qed

definition echo :: "string \<Rightarrow> string option" where
  "echo t = (if t = [] then None else Some t)"

lemma open_reachable: "ws_reachable echo (onopen 0 mount)"
proof -
  have "can (Opened 0) (mount :: string hook)" by code_simp
  then have "ws_step echo mount (handle echo (Opened 0) mount)" by (rule ws_step.event)
  then show ?thesis using ws_reachable.fresh ws_reachable.stepped by fastforce
qed

lemma closed_reachable: "ws_reachable echo (onclose 0 mount)"
proof -
  have "can (CloseEvent 0) (mount :: string hook)" by code_simp
  then have "ws_step echo mount (handle echo (CloseEvent 0) mount)" by (rule ws_step.event)
  then show ?thesis using ws_reachable.fresh ws_reachable.stepped by fastforce
qed

theorem one_connection_or_one_retry_witness:
  "length (alive (onclose 0 (mount :: string hook))) + length (ws_timers (onclose 0 (mount :: string hook))) = 1"
proof -
  have "mounted (onclose 0 (mount :: string hook))" by (simp add: hook_defs)
  from one_connection_or_one_retry [OF closed_reachable this] show ?thesis by blast
qed

text \<open>An outage: the newest socket closes, its timer fires, the next socket is opened.\<close>

definition failed_attempt :: "(string \<Rightarrow> 'm option) \<Rightarrow> 'm hook \<Rightarrow> 'm hook" where
  "failed_attempt parse h = handle parse (Fired (ws_next h)) (handle parse (CloseEvent (newest h)) h)"

lemma failed_attempt_step:
  assumes "ws_inv h" and "last (ws_sockets h) \<noteq> SClosed"
  shows "ws_inv (failed_attempt parse h)" "last (ws_sockets (failed_attempt parse h)) = SConnecting"
    "retryMs (failed_attempt parse h) = min (retryMs h * 2) MAX_RETRY_MS"
    "length (ws_sockets (failed_attempt parse h)) = Suc (length (ws_sockets h))"
proof -
  obtain xs s where h: "ws_sockets h = xs @ [s]" "newest h = length xs" by (rule ws_inv_split [OF assms(1)])
  have c: "can (CloseEvent (newest h)) h" using h assms(2) by simp
  have "can (Fired (ws_next h)) (handle parse (CloseEvent (newest h)) h)" by (simp add: onclose_def set_socket_def)
  with c show "ws_inv (failed_attempt parse h)"
    unfolding failed_attempt_def using assms(1) by (intro ws_inv_handle) (auto simp del: handle.simps can.simps)
qed (simp_all add: failed_attempt_def hook_defs)

text \<open>
  After n failed attempts in a row the delay before the next one is a second doubled n
  times, at most thirty seconds.
\<close>

theorem retry_backs_off:
  assumes "ws_reachable parse h" and "mounted h" and "last (ws_sockets h) = SOpen"
  shows "retryMs ((failed_attempt parse ^^ n) h) = min (1000 * 2 ^ n) 30000
    \<and> useWebSocket ((failed_attempt parse ^^ n) h) = (if n = 0 then Open else Connecting)
    \<and> length (ws_sockets ((failed_attempt parse ^^ n) h)) = length (ws_sockets h) + n"
proof -
  have inv: "ws_inv h" by (rule mounted_ws_inv [OF assms(1,2)])
  have "ws_inv ((failed_attempt parse ^^ n) h) \<and> last (ws_sockets ((failed_attempt parse ^^ n) h)) \<noteq> SClosed
    \<and> (n \<noteq> 0 \<longrightarrow> last (ws_sockets ((failed_attempt parse ^^ n) h)) = SConnecting)
    \<and> retryMs ((failed_attempt parse ^^ n) h) = backoff n
    \<and> length (ws_sockets ((failed_attempt parse ^^ n) h)) = length (ws_sockets h) + n"
  proof (induction n)
    case 0 then show ?case using inv assms(3) backoff_0 by (simp add: ws_inv_def)
  next
    case (Suc n)
    then have ih: "ws_inv ((failed_attempt parse ^^ n) h)" "last (ws_sockets ((failed_attempt parse ^^ n) h)) \<noteq> SClosed"
      by simp_all
    show ?case using Suc failed_attempt_step [OF ih, of parse] backoff_Suc [of n] by simp
  qed
  then show ?thesis using inv assms(3)
    by (auto simp: ws_inv_def useWebSocket_def backoff_def BASE_RETRY_MS_def MAX_RETRY_MS_def)
qed

theorem retry_backs_off_witness: "retryMs ((failed_attempt echo ^^ 4) (onopen 0 mount)) = 16000"
proof -
  have "mounted (onopen 0 (mount :: string hook))" "last (ws_sockets (onopen 0 (mount :: string hook))) = SOpen"
    by (simp_all add: hook_defs)
  from retry_backs_off [OF open_reachable this, of 4] show ?thesis by simp
qed

theorem unmount_while_waiting_is_final:
  assumes "ws_reachable parse h" and "mounted h" and "useWebSocket h = Closed" and "alive h = []"
    and "(ws_step parse)\<^sup>*\<^sup>* (unmount h) h'"
  shows "h' = unmount h"
proof -
  have inv: "ws_inv h" by (rule mounted_ws_inv [OF assms(1,2)])
  then have l: "last (ws_sockets h) = SClosed" using assms(4) by (auto simp: alive_of_inv split: if_splits)
  obtain xs s where h: "ws_sockets h = xs @ [s]" "newest h = length xs" by (rule ws_inv_split [OF inv])
  have all: "list_all (\<lambda>s. s = SClosed) (ws_sockets h)" using inv l h by (auto simp: ws_inv_def)
  have u: "ws_sockets (unmount h) = ws_sockets h" "ws_timers (unmount h) = []" "\<not> mounted (unmount h)"
    using inv l h by (auto simp: ws_inv_def unmount_def drop_timer_def ws_close_def Let_def)
  have stuck: "\<not> ws_step parse (unmount h) h''" for h''
  proof
    assume "ws_step parse (unmount h) h''"
    then obtain e where "can e (unmount h)" by cases
    then show False using all u by (cases e) (auto simp: list_all_length)
  qed
  show ?thesis using assms(5) by (cases rule: converse_rtranclpE) (use stuck in auto)
qed

theorem unmount_while_waiting_is_final_witness:
  "Collect ((ws_step echo)\<^sup>*\<^sup>* (unmount (onclose 0 mount))) = {unmount (onclose 0 mount)}"
proof -
  have "mounted (onclose 0 (mount :: string hook))" "useWebSocket (onclose 0 (mount :: string hook)) = Closed"
    "alive (onclose 0 (mount :: string hook)) = []"
    by (simp_all add: hook_defs useWebSocket_def alive_def)
  from unmount_while_waiting_is_final [OF closed_reachable this]
  have only: "h' = unmount (onclose 0 mount)" if "(ws_step echo)\<^sup>*\<^sup>* (unmount (onclose 0 mount)) h'" for h'
    using that .
  show ?thesis
  proof
    show "Collect ((ws_step echo)\<^sup>*\<^sup>* (unmount (onclose 0 mount))) \<subseteq> {unmount (onclose 0 mount)}"
      using only by fast
    show "{unmount (onclose 0 mount)} \<subseteq> Collect ((ws_step echo)\<^sup>*\<^sup>* (unmount (onclose 0 mount)))" by simp
  qed
qed

lemma ws_inv_unmount:
  assumes "ws_inv h" and "last (ws_sockets h) \<noteq> SClosed"
  shows "ws_inv (unmount h)" "\<not> mounted (unmount h)" "ws_sockets (unmount h) = (ws_sockets h)[newest h := SClosing]"
    "ws_next (unmount h) = ws_next h"
proof -
  obtain xs s where h: "ws_sockets h = xs @ [s]" "newest h = length xs" by (rule ws_inv_split [OF assms(1)])
  then show "ws_inv (unmount h)" "\<not> mounted (unmount h)" "ws_sockets (unmount h) = (ws_sockets h)[newest h := SClosing]"
    "ws_next (unmount h) = ws_next h"
    using assms by (cases s; auto simp: ws_inv_def unmount_def ws_close_def set_socket_def drop_timer_def Let_def newest_def
        split: option.split)+
qed

lemma unmounted_ws_inv:
  assumes "(ws_step parse)\<^sup>*\<^sup>* h h'" and "ws_inv h" and "\<not> mounted h"
  shows "ws_inv h' \<and> \<not> mounted h'"
  using assms(1)
proof induction
  case (step h1 h2)
  then obtain e where e: "can e h1" "h2 = handle parse e h1" by (auto elim: ws_step.cases)
  then have "e \<noteq> Unmounted" using step by auto
  then show ?case using e step ws_inv_handle mounted_handle by metis
qed (use assms in simp)

text \<open>
  C40.  Leaving a page whose connection is not closed does not end it: in every state that
  browser events can lead to afterwards there is one socket that is not closed or one pending
  retry, so that the hook never comes to rest. The close event of the socket that the cleanup
  closes schedules a retry, since the cleanup has cancelled the timers before, and whenever a
  retry fires, a new connection is opened for the page that is gone.
\<close>

theorem unmounted_page_reconnects:
  assumes "ws_reachable parse h" and "mounted h" and "alive h \<noteq> []" and "(ws_step parse)\<^sup>*\<^sup>* (unmount h) h'"
  shows "\<not> mounted h' \<and> length (alive h') + length (ws_timers h') = 1
    \<and> (alive h' \<noteq> [] \<longrightarrow> can (CloseEvent (hd (alive h'))) h')
    \<and> (ws_timers h' \<noteq> [] \<longrightarrow> can (Fired (fst (hd (ws_timers h')))) h'
        \<and> alive (handle parse (Fired (fst (hd (ws_timers h')))) h') = [length (ws_sockets h')]
        \<and> last (ws_sockets (handle parse (Fired (fst (hd (ws_timers h')))) h')) = SConnecting)
    \<and> ws_timers (handle parse (CloseEvent (hd (alive h))) (unmount h)) \<noteq> []"
proof -
  have inv: "ws_inv h" by (rule mounted_ws_inv [OF assms(1,2)])
  have l: "last (ws_sockets h) \<noteq> SClosed" using assms(3) by (auto simp: alive_of_inv [OF inv] split: if_splits)
  note u = ws_inv_unmount [OF inv l]
  have inv': "ws_inv h'" "\<not> mounted h'" using unmounted_ws_inv [OF assms(4) u(1,2)] by simp_all
  obtain xs s where h': "ws_sockets h' = xs @ [s]" "newest h' = length xs" by (rule ws_inv_split [OF inv'(1)])
  have one: "length (alive h') + length (ws_timers h') = 1"
    using inv'(1) alive_of_inv [OF inv'(1)] by (cases "last (ws_sockets h')") (auto simp: ws_inv_def)
  have close: "can (CloseEvent (hd (alive h'))) h'" if "alive h' \<noteq> []"
    using that h' by (auto simp: alive_of_inv [OF inv'(1)] split: if_splits)
  have fire: "can (Fired (fst (hd (ws_timers h')))) h'
        \<and> alive (handle parse (Fired (fst (hd (ws_timers h')))) h') = [length (ws_sockets h')]
        \<and> last (ws_sockets (handle parse (Fired (fst (hd (ws_timers h')))) h')) = SConnecting" if "ws_timers h' \<noteq> []"
  proof -
    have t: "fst (hd (ws_timers h')) \<in> set (map fst (ws_timers h'))" using that by simp
    have sock: "ws_sockets (onretry t h') = ws_sockets h' @ [SConnecting]" for t
      by (simp add: onretry_def drop_timer_def connect_def Let_def)
    have "alive (onretry (fst (hd (ws_timers h'))) h') = [length (ws_sockets h')]"
      unfolding alive_of_inv [OF ws_inv_onretry [OF inv'(1) t]] by (simp add: sock newest_def)
    then show ?thesis using t by (simp add: sock)
  qed
  have "ws_timers (handle parse (CloseEvent (hd (alive h))) (unmount h)) \<noteq> []" by (simp add: onclose_def)
  then show ?thesis using inv'(2) one close fire by blast
qed

theorem unmounted_page_reconnects_witness:
  "length (alive (onclose 0 (unmount (onopen 0 (mount :: string hook)))))
     + length (ws_timers (onclose 0 (unmount (onopen 0 (mount :: string hook))))) = 1"
proof -
  let ?h = "onopen 0 (mount :: string hook)"
  have "mounted ?h" "alive ?h \<noteq> []" by (simp_all add: hook_defs alive_def)
  moreover have "can (CloseEvent 0) (unmount ?h)" by (simp add: hook_defs)
  then have "ws_step echo (unmount ?h) (handle echo (CloseEvent 0) (unmount ?h))" by (rule ws_step.event)
  then have "(ws_step echo)\<^sup>*\<^sup>* (unmount ?h) (onclose 0 (unmount ?h))" by simp
  ultimately show ?thesis using unmounted_page_reconnects [OF open_reachable] by blast
qed

end
