(* ===== verification/PowerChart.thy ===== *)
theory PowerChart
  imports Prelude
begin

text \<open>
  The daily power chart (\<open>Power.tsx\<close>): axis, grid lines, the split of a day's records into
  contiguous segments and the spans without data.  The clock and the local calendar are parameters:
  \<open>midnight d\<close> is the epoch second at which day \<open>d\<close> starts, \<open>hourOf t\<close> the local hour at \<open>t\<close>.
\<close>

record power_record =
  pr_minute :: int
  pr_power :: rat

section \<open>The plot area\<close>

definition PAD_top :: rat where "PAD_top = 16"
definition PAD_right :: rat where "PAD_right = 16"
definition PAD_bottom :: rat where "PAD_bottom = 36"
definition PAD_left :: rat where "PAD_left = 56"
definition SVG_W :: rat where "SVG_W = 800"
definition SVG_H :: rat where "SVG_H = 240"
definition PLOT_W :: rat where "PLOT_W = SVG_W - PAD_left - PAD_right"
definition PLOT_H :: rat where "PLOT_H = SVG_H - PAD_top - PAD_bottom"

lemmas plot_defs = PLOT_W_def PLOT_H_def SVG_W_def SVG_H_def PAD_top_def PAD_right_def PAD_bottom_def PAD_left_def

section \<open>Axis extents and labels\<close>

definition niceExtent :: "rat \<Rightarrow> int" where
  "niceExtent value =
     (if value = 0 then 0
      else let a = \<bar>value\<bar>;
               step = (if a \<le> 2000 then 500 else if a \<le> 5000 then 1000 else 2000)
           in (if value < 0 then -1 else 1) * \<lceil>a / of_int step\<rceil> * step)"

definition minus_sign :: string where "minus_sign = [CHR 0xE2, CHR 0x88, CHR 0x92]"

definition fmtW :: "int \<Rightarrow> string" where
  "fmtW w =
     (let a = \<bar>w\<bar>; sign = (if w < 0 then minus_sign else [])
      in if a \<ge> 1000 then sign @ toFixed (if a mod 1000 \<noteq> 0 then 1 else 0) (of_int a / 1000) @ ''kW''
         else sign @ int_str a @ ''W'')"

definition GAP_THRESHOLD_S :: int where "GAP_THRESHOLD_S = 90"

definition dayBounds :: "(string \<Rightarrow> int) \<Rightarrow> int \<Rightarrow> string \<Rightarrow> int \<times> int" where
  "dayBounds midnight now date =
     (let start = midnight date; fullEnd = start + 86400
      in (start, if now > start \<and> now < fullEnd then now else fullEnd))"

text \<open>The axis of a day: \<open>yMin\<close> and \<open>yMax\<close>.\<close>

definition axisMax :: "power_record list \<Rightarrow> int" where
  "axisMax records =
     (let m = niceExtent (math_max 0 (map pr_power records)) in if m = 0 then 1000 else m)"

definition axisMin :: "power_record list \<Rightarrow> int" where
  "axisMin records = niceExtent (math_min 0 (map pr_power records))"

definition xPos :: "int \<Rightarrow> int \<Rightarrow> int \<Rightarrow> rat" where
  "xPos minT maxT t =
     (let spanT = (if maxT - minT = 0 then 1 else maxT - minT)
      in PAD_left + (of_int (t - minT) / of_int spanT) * PLOT_W)"

definition yPos :: "int \<Rightarrow> int \<Rightarrow> rat \<Rightarrow> rat" where
  "yPos yMin yMax p = PAD_top + PLOT_H - ((p - of_int yMin) / of_int (yMax - yMin)) * PLOT_H"

section \<open>Segments and gaps\<close>

definition segmentStep :: "power_record list list \<times> power_record list \<Rightarrow> power_record
    \<Rightarrow> power_record list list \<times> power_record list" where
  "segmentStep st r =
     (let (segs, cur) = st in
      if cur \<noteq> [] \<and> pr_minute r - pr_minute (last cur) > GAP_THRESHOLD_S
      then (segs @ [cur], [r]) else (segs, cur @ [r]))"

definition segments :: "power_record list \<Rightarrow> power_record list list" where
  "segments records =
     (let (segs, cur) = foldl segmentStep ([], []) records
      in if cur \<noteq> [] then segs @ [cur] else segs)"

definition noData :: "int \<Rightarrow> int \<Rightarrow> power_record list \<Rightarrow> (int \<times> int) list" where
  "noData minT maxT records =
     (let segs = segments records in
      (if pr_minute (hd records) - minT > GAP_THRESHOLD_S then [(minT, pr_minute (hd records))] else [])
      @ map (\<lambda>i. (pr_minute (last (segs ! (i - 1))), pr_minute (hd (segs ! i)))) [1..<length segs]
      @ (if maxT - pr_minute (last records) > GAP_THRESHOLD_S then [(pr_minute (last records), maxT)] else []))"

section \<open>Ticks\<close>

text \<open>\<open>for (let p = yMin; p <= yMax; p += yStep)\<close>.\<close>

function tickValues :: "int \<Rightarrow> int \<Rightarrow> int \<Rightarrow> int list" where
  "tickValues p hi step = (if step \<le> 0 \<or> p > hi then [] else p # tickValues (p + step) hi step)"
  by auto
termination by (relation "measure (\<lambda>(p, hi, step). nat (hi - p + 1))") auto

declare tickValues.simps [simp del]

definition yStepFor :: "int \<Rightarrow> int \<Rightarrow> int" where
  "yStepFor yMin yMax =
     (let absExtent = max \<bar>yMax\<bar> \<bar>yMin\<bar>
      in if absExtent \<le> 2000 then 500 else if absExtent \<le> 5000 then 1000 else 2000)"

definition yTicks :: "int \<Rightarrow> int \<Rightarrow> (rat \<times> string) list" where
  "yTicks yMin yMax =
     map (\<lambda>p. (yPos yMin yMax (of_int p), fmtW p)) (tickValues yMin yMax (yStepFor yMin yMax))"

definition hourLabel :: "nat \<Rightarrow> string" where
  "hourLabel h = pad_start 2 CHR ''0'' (dec h) @ '':00''"

definition xTicks :: "(int \<Rightarrow> nat) \<Rightarrow> int \<Rightarrow> int \<Rightarrow> (rat \<times> string) list" where
  "xTicks hourOf minT maxT =
     map (\<lambda>h. (xPos minT maxT (h * 3600), hourLabel (hourOf (h * 3600))))
       (filter (\<lambda>h. \<not> (h * 3600 < minT \<or> h * 3600 > maxT)) [\<lceil>of_int minT / 3600 :: rat\<rceil> .. \<lfloor>of_int maxT / 3600 :: rat\<rfloor>])"

section \<open>The chart\<close>

text \<open>
  What is drawn: grid lines with their labels and whether they are the emphasised zero line, hour
  labels, the no-data rectangles (left edge and width), and per segment the polygon and polyline.
\<close>

record chart =
  ch_grid :: "(rat \<times> string \<times> bool) list"
  ch_hours :: "(rat \<times> string) list"
  ch_gaps :: "(rat \<times> rat) list"
  ch_lines :: "(string \<times> string) list"

definition polyPoints :: "(int \<Rightarrow> rat) \<Rightarrow> (rat \<Rightarrow> rat) \<Rightarrow> power_record list \<Rightarrow> string" where
  "polyPoints x y seg =
     join '' '' (map (\<lambda>r. toFixed 1 (x (pr_minute r)) @ '','' @ toFixed 1 (y (pr_power r))) seg)"

definition segmentShape :: "(int \<Rightarrow> rat) \<Rightarrow> (rat \<Rightarrow> rat) \<Rightarrow> power_record list \<Rightarrow> string \<times> string" where
  "segmentShape x y seg =
     (let poly = polyPoints x y seg; zeroY = toFixed 1 (y 0)
      in (toFixed 1 (x (pr_minute (hd seg))) @ '','' @ zeroY @ '' '' @ poly @ '' ''
            @ toFixed 1 (x (pr_minute (last seg))) @ '','' @ zeroY, poly))"

text \<open>\<open>None\<close> is the text ``No recordings for this day.''\<close>

definition PowerChart :: "(string \<Rightarrow> int) \<Rightarrow> (int \<Rightarrow> nat) \<Rightarrow> int \<Rightarrow> string \<Rightarrow> power_record list \<Rightarrow> chart option" where
  "PowerChart midnight hourOf now date records =
     (if records = [] then None
      else
        let (minT, maxT) = dayBounds midnight now date;
            yMax = axisMax records; yMin = axisMin records;
            x = xPos minT maxT; y = yPos yMin yMax
        in Some \<lparr>ch_grid = map (\<lambda>(p, l). (p, l, l = ''0W'')) (yTicks yMin yMax),
                 ch_hours = xTicks hourOf minT maxT,
                 ch_gaps = map (\<lambda>(a, b). (x a, max 0 (x b - x a))) (noData minT maxT records),
                 ch_lines = map (segmentShape x y) (segments records)\<rparr>)"

section \<open>Facts about segments\<close>

text \<open>Two neighbouring samples are joined when they are at most the threshold apart.\<close>

definition joined :: "power_record \<Rightarrow> power_record \<Rightarrow> bool" where
  "joined a b \<longleftrightarrow> pr_minute b - pr_minute a \<le> GAP_THRESHOLD_S"

fun unbroken :: "power_record list \<Rightarrow> bool" where
  "unbroken (a # b # rs) \<longleftrightarrow> joined a b \<and> unbroken (b # rs)"
| "unbroken _ \<longleftrightarrow> True"

text \<open>Consecutive segments are separated by a gap.\<close>

fun broken_between :: "power_record list list \<Rightarrow> bool" where
  "broken_between (s # t # ss) \<longleftrightarrow> \<not> joined (last s) (hd t) \<and> broken_between (t # ss)"
| "broken_between _ \<longleftrightarrow> True"

definition segmented :: "power_record list list \<Rightarrow> power_record list \<Rightarrow> bool" where
  "segmented segs rs \<longleftrightarrow>
     concat segs = rs \<and> [] \<notin> set segs \<and> list_all unbroken segs \<and> broken_between segs"

lemma unbroken_snoc: "unbroken (s @ [r]) \<longleftrightarrow> unbroken s \<and> (s \<noteq> [] \<longrightarrow> joined (last s) r)"
  by (induction s rule: unbroken.induct) auto

lemma broken_between_snoc:
  "broken_between (ss @ [t]) \<longleftrightarrow> broken_between ss \<and> (ss \<noteq> [] \<longrightarrow> \<not> joined (last (last ss)) (hd t))"
  by (induction ss rule: broken_between.induct) auto

definition cut_ok :: "power_record list list \<times> power_record list \<Rightarrow> power_record list \<Rightarrow> bool" where
  "cut_ok st rs \<longleftrightarrow>
     (rs = [] \<and> st = ([], [])) \<or> (snd st \<noteq> [] \<and> segmented (fst st @ [snd st]) rs)"

lemma cut_ok_step: "cut_ok st rs \<Longrightarrow> cut_ok (segmentStep st r) (rs @ [r])"
proof (cases "rs = []")
  case True
  assume "cut_ok st rs"
  with True have "st = ([], [])" by (cases st) (auto simp: cut_ok_def segmented_def)
  with True show ?thesis by (simp add: segmentStep_def cut_ok_def segmented_def)
next
  case False
  assume ok: "cut_ok st rs"
  obtain segs cur where st: "st = (segs, cur)" by (cases st)
  have cur: "cur \<noteq> []" and seg: "segmented (segs @ [cur]) rs" using ok False st by (auto simp: cut_ok_def)
  show ?thesis
  proof (cases "joined (last cur) r")
    case True
    then have "segmentStep st r = (segs, cur @ [r])" by (simp add: st segmentStep_def joined_def)
    then show ?thesis
      using seg cur True by (auto simp: cut_ok_def segmented_def unbroken_snoc broken_between_snoc)
  next
    case False
    then have "segmentStep st r = (segs @ [cur], [r])" using cur by (simp add: st segmentStep_def joined_def)
    moreover have "broken_between ((segs @ [cur]) @ [[r]])"
      using seg False by (subst broken_between_snoc) (simp add: segmented_def)
    ultimately show ?thesis using seg cur by (auto simp: cut_ok_def segmented_def)
  qed
qed

lemma segments_segmented: "segmented (segments rs) rs"
proof -
  have "cut_ok (foldl segmentStep ([], []) rs) rs"
  proof (induction rs rule: rev_induct)
    case Nil then show ?case by (simp add: cut_ok_def)
  next
    case (snoc r rs) then show ?case by (simp add: cut_ok_step)
  qed
  then show ?thesis
    by (cases "foldl segmentStep ([], []) rs") (auto simp: segments_def cut_ok_def segmented_def)
qed

text \<open>The cuts are determined by the records: there is only one way to segment them.\<close>

fun cuts :: "power_record list \<Rightarrow> power_record list list" where
  "cuts [] = []"
| "cuts [r] = [[r]]"
| "cuts (a # b # rs) = (if joined a b then (a # hd (cuts (b # rs))) # tl (cuts (b # rs)) else [a] # cuts (b # rs))"

lemma segmented_Cons:
  assumes "segmented ((a # s) # ss) rs"
  shows "rs = a # s @ concat ss" "s \<noteq> [] \<Longrightarrow> segmented (s # ss) (tl rs)" "s = [] \<Longrightarrow> segmented ss (tl rs)"
  using assms by (cases s; cases ss; auto simp: segmented_def)+

lemma segmented_unique: "segmented segs rs \<Longrightarrow> segs = cuts rs"
proof (induction rs arbitrary: segs rule: cuts.induct)
  case 1 then show ?case by (cases segs) (auto simp: segmented_def)
next
  case (2 r)
  then obtain s ss where "segs = s # ss" "s \<noteq> []" by (cases segs) (auto simp: segmented_def)
  then show ?case using 2 by (cases s; cases ss) (auto simp: segmented_def)
next
  case (3 a b rs)
  then obtain x s ss where segs: "segs = (x # s) # ss"
    by (cases segs; cases "hd segs") (auto simp: segmented_def)
  have x: "x = a" using 3(4) segs by (simp add: segmented_def)
  note seg = segmented_Cons [OF "3.prems" [unfolded segs]]
  show ?case
  proof (cases "s = []")
    case True
    then obtain t ts where ss: "ss = t # ts" "t \<noteq> []" using 3(4) segs by (cases ss) (auto simp: segmented_def)
    then have "hd t = b" using 3(4) segs True by (cases t) (auto simp: segmented_def)
    then have nj: "\<not> joined a b" using 3(4) segs True ss x by (simp add: segmented_def)
    then show ?thesis using 3(3) [OF nj, of ss] seg(3) True segs x by simp
  next
    case False
    then have "hd s = b" using 3(4) segs by (cases s) (auto simp: segmented_def)
    then have j: "joined a b" using 3(4) segs False x by (cases s) (auto simp: segmented_def)
    have "s # ss = cuts (b # rs)" using 3(1) [OF j] seg(2) [OF False] by simp
    then show ?thesis using j segs x by (metis cuts.simps(3) list.sel(1,3))
  qed
qed

end
