(* ===== verification/PowerChartProps.thy ===== *)
theory PowerChartProps
  imports PowerChart
begin

text \<open>
  What the daily chart shows: the segments are the unbroken runs of the records, the red spans are
  exactly the missing time, and everything is drawn inside the plot area.
\<close>

section \<open>The spans between segments\<close>

fun between :: "power_record list list \<Rightarrow> (int \<times> int) list" where
  "between (s # t # ss) = (pr_minute (last s), pr_minute (hd t)) # between (t # ss)"
| "between _ = []"

lemma between_zip: "between segs = map (\<lambda>(s, t). (pr_minute (last s), pr_minute (hd t))) (zip segs (tl segs))"
  by (induction segs rule: between.induct) auto

lemma between_nth:
  "map (\<lambda>i. (pr_minute (last (segs ! (i - Suc 0))), pr_minute (hd (segs ! i)))) [Suc 0..<length segs] = between segs"
  by (rule nth_equalityI) (auto simp: between_zip nth_tl)

text \<open>The pairs of neighbouring records that are too far apart.\<close>

fun breaks :: "power_record list \<Rightarrow> (int \<times> int) list" where
  "breaks (a # b # rs) = (if joined a b then [] else [(pr_minute a, pr_minute b)]) @ breaks (b # rs)"
| "breaks _ = []"

lemma hd_cuts: "rs \<noteq> [] \<Longrightarrow> cuts rs \<noteq> [] \<and> hd (cuts rs) \<noteq> [] \<and> hd (hd (cuts rs)) = hd rs"
  by (induction rs rule: cuts.induct) auto

lemma between_cuts: "between (cuts rs) = breaks rs"
proof (induction rs rule: cuts.induct)
  case (3 a b rs)
  obtain s ss where c: "cuts (b # rs) = s # ss" "s \<noteq> []" "hd s = b"
    using hd_cuts [of "b # rs"] by (cases "cuts (b # rs)") auto
  show ?case using 3 c by (cases ss) (auto split: if_splits)
qed simp_all

lemma segments_cuts: "segments rs = cuts rs"
  using segmented_unique [OF segments_segmented] .

lemma noData_breaks:
  "noData minT maxT rs =
     (if pr_minute (hd rs) - minT > GAP_THRESHOLD_S then [(minT, pr_minute (hd rs))] else [])
     @ breaks rs
     @ (if maxT - pr_minute (last rs) > GAP_THRESHOLD_S then [(pr_minute (last rs), maxT)] else [])"
  by (simp add: noData_def Let_def segments_cuts between_nth between_cuts)

abbreviation in_order :: "power_record list \<Rightarrow> bool" where
  "in_order rs \<equiv> sorted (map pr_minute rs)"

lemma breaks_long: "g \<in> set (breaks rs) \<Longrightarrow> snd g - fst g > GAP_THRESHOLD_S"
  by (induction rs rule: breaks.induct) (auto simp: joined_def split: if_splits)

lemma breaks_inside:
  "in_order rs \<Longrightarrow> g \<in> set (breaks rs) \<Longrightarrow> pr_minute (hd rs) \<le> fst g \<and> snd g \<le> pr_minute (last rs)"
proof (induction rs rule: breaks.induct)
  case (1 a b rs)
  then have "pr_minute b \<le> pr_minute (last (b # rs))" by auto
  then show ?case using 1 by (auto split: if_splits)
qed simp_all

lemma breaks_empty:
  "in_order rs \<Longrightarrow> g \<in> set (breaks rs) \<Longrightarrow> r \<in> set rs \<Longrightarrow> pr_minute r \<le> fst g \<or> snd g \<le> pr_minute r"
proof (induction rs rule: breaks.induct)
  case (1 a b rs)
  have le: "\<forall>x\<in>set rs. pr_minute b \<le> pr_minute x" "pr_minute a \<le> pr_minute b" using 1(2) by auto
  show ?case
  proof (cases "g \<in> set (breaks (b # rs))")
    case True
    then have "pr_minute b \<le> fst g" using breaks_inside [of "b # rs" g] 1(2) by simp
    then show ?thesis using 1 True le by auto
  next
    case False
    then show ?thesis using 1 le by (auto split: if_splits)
  qed
qed simp_all

lemma breaks_cover:
  assumes "in_order rs" and "rs \<noteq> []" and "pr_minute (hd rs) \<le> t" and "t \<le> pr_minute (last rs)"
  shows "(\<exists>g\<in>set (breaks rs). fst g < t \<and> t < snd g) \<or> (\<exists>r\<in>set rs. \<bar>t - pr_minute r\<bar> \<le> GAP_THRESHOLD_S)"
  using assms
proof (induction rs rule: breaks.induct)
  case (1 a b rs)
  show ?case
  proof (cases "pr_minute b \<le> t")
    case True
    then show ?thesis using 1 by auto
  next
    case False
    then show ?thesis using 1(4) by (cases "joined a b") (auto simp: joined_def GAP_THRESHOLD_S_def)
  qed
qed (auto simp: GAP_THRESHOLD_S_def)

section \<open>The axis\<close>

lemma niceExtent_pos:
  assumes "0 < v"
  shows "v \<le> of_int (niceExtent v)" "0 < niceExtent v"
proof -
  define s :: int where "s = (if v \<le> 2000 then 500 else if v \<le> 5000 then 1000 else 2000)"
  have s: "0 < s" by (simp add: s_def)
  have n: "niceExtent v = \<lceil>v / of_int s\<rceil> * s" using assms by (simp add: niceExtent_def s_def Let_def)
  have "v / of_int s \<le> of_int \<lceil>v / of_int s\<rceil>" by simp
  then have "v \<le> of_int \<lceil>v / of_int s\<rceil> * of_int s" using s by (simp only: pos_divide_le_eq of_int_0_less_iff)
  then show "v \<le> of_int (niceExtent v)" by (simp add: n)
  then show "0 < niceExtent v" using assms by (metis less_le_trans of_int_0_less_iff)
qed

lemma niceExtent_neg: "v < 0 \<Longrightarrow> niceExtent v = - niceExtent (- v)"
  by (simp add: niceExtent_def Let_def)

lemma axisMax_bound: "r \<in> set rs \<Longrightarrow> pr_power r \<le> of_int (axisMax rs)" "0 < axisMax rs"
proof -
  let ?m = "math_max 0 (map pr_power rs)"
  have ge: "0 \<le> ?m" by (rule math_max_ge_base)
  have pos: "axisMax rs = (if ?m = 0 then 1000 else niceExtent ?m)"
  proof (cases "?m = 0")
    case False
    then have "0 < niceExtent ?m" using ge by (intro niceExtent_pos(2)) simp
    then show ?thesis using False by (simp add: axisMax_def Let_def)
  qed (simp add: axisMax_def niceExtent_def)
  show "0 < axisMax rs" using pos niceExtent_pos(2) [of ?m] ge by auto
  have "?m \<le> of_int (axisMax rs)" using pos niceExtent_pos(1) [of ?m] ge by auto
  then show "r \<in> set rs \<Longrightarrow> pr_power r \<le> of_int (axisMax rs)"
    using math_max_ge_mem [of "pr_power r" "map pr_power rs" 0] by fastforce
qed

lemma axisMin_bound: "r \<in> set rs \<Longrightarrow> of_int (axisMin rs) \<le> pr_power r" "axisMin rs \<le> 0"
proof -
  let ?m = "math_min 0 (map pr_power rs)"
  have le: "?m \<le> 0" by (rule math_min_le_base)
  have "of_int (axisMin rs) \<le> ?m \<and> axisMin rs \<le> 0"
  proof (cases "?m = 0")
    case True then show ?thesis by (simp add: axisMin_def niceExtent_def)
  next
    case False
    then have "?m < 0" using le by simp
    then show ?thesis using niceExtent_pos [of "- ?m"] by (simp add: axisMin_def niceExtent_neg)
  qed
  then show "axisMin rs \<le> 0" "r \<in> set rs \<Longrightarrow> of_int (axisMin rs) \<le> pr_power r"
    using math_min_le_mem [of "pr_power r" "map pr_power rs" 0] by fastforce+
qed

lemma unit_interval: "0 \<le> a \<Longrightarrow> a \<le> b \<Longrightarrow> 0 \<le> a / b \<and> a / b \<le> (1::rat)"
  by (cases "b = 0") (auto simp: divide_le_eq)

lemma yPos_inside:
  assumes "of_int lo \<le> p" and "p \<le> of_int hi"
  shows "PAD_top \<le> yPos lo hi p \<and> yPos lo hi p \<le> PAD_top + PLOT_H"
proof -
  define f where "f = (p - of_int lo) / of_int (hi - lo)"
  have "0 \<le> f \<and> f \<le> 1"
    unfolding f_def using assms by (intro unit_interval) auto
  moreover have "yPos lo hi p = PAD_top + PLOT_H - f * PLOT_H" by (simp only: yPos_def f_def)
  ultimately show ?thesis by (simp add: plot_defs)
qed

lemma xPos_inside:
  assumes "minT \<le> t" and "t \<le> maxT"
  shows "PAD_left \<le> xPos minT maxT t \<and> xPos minT maxT t \<le> PAD_left + PLOT_W"
proof -
  let ?s = "if maxT - minT = 0 then 1 else maxT - minT"
  define f :: rat where "f = of_int (t - minT) / of_int ?s"
  have "0 \<le> f \<and> f \<le> 1"
    unfolding f_def using assms by (intro unit_interval) (auto simp del: of_int_diff)
  moreover have "xPos minT maxT t = PAD_left + f * PLOT_W" by (simp only: xPos_def f_def Let_def)
  ultimately show ?thesis by (simp add: plot_defs)
qed

section \<open>Ticks\<close>

lemma tickValues_mem: "p \<in> set (tickValues lo hi s) \<longleftrightarrow> 0 < s \<and> lo \<le> p \<and> p \<le> hi \<and> s dvd p - lo"
proof (induction lo hi s rule: tickValues.induct)
  case (1 lo hi s)
  show ?case
  proof (cases "s \<le> 0 \<or> lo > hi")
    case True then show ?thesis by (subst tickValues.simps) auto
  next
    case False
    have "p \<in> set (tickValues lo hi s) \<longleftrightarrow> p = lo \<or> p \<in> set (tickValues (lo + s) hi s)"
      using False by (subst tickValues.simps) auto
    also have "\<dots> \<longleftrightarrow> p = lo \<or> 0 < s \<and> lo + s \<le> p \<and> p \<le> hi \<and> s dvd p - lo"
    proof -
      have "s dvd p - (lo + s) \<longleftrightarrow> s dvd p - lo" by (metis diff_diff_eq dvd_diff_left_iff dvd_refl)
      then show ?thesis using 1 False by simp
    qed
    also have "\<dots> \<longleftrightarrow> 0 < s \<and> lo \<le> p \<and> p \<le> hi \<and> s dvd p - lo"
    proof -
      have "0 < s \<Longrightarrow> lo \<le> p \<Longrightarrow> s dvd p - lo \<Longrightarrow> p = lo \<or> lo + s \<le> p"
        using zdvd_imp_le [of s "p - lo"] by (cases "p = lo") auto
      then show ?thesis using False by auto
    qed
    finally show ?thesis .
  qed
qed

lemma dec_0: "dec 0 = ''0''" by (simp add: dec.simps digit_def)

lemma fmtW_zero: "fmtW w = ''0W'' \<longleftrightarrow> w = 0"
proof
  assume f: "fmtW w = ''0W''"
  have small: "\<bar>w\<bar> < 1000"
  proof (rule ccontr)
    assume "\<not> \<bar>w\<bar> < 1000"
    then obtain s where "fmtW w = s @ ''kW''" by (auto simp: fmtW_def Let_def)
    with f have "s @ ''kW'' = [] @ ''0W''" by simp
    then have "''kW'' = ''0W''" using append_eq_append_conv by (metis length_Cons)
    then show False by simp
  qed
  have "int_str \<bar>w\<bar> = dec (nat \<bar>w\<bar>)" by (simp add: int_str_def)
  with f small have "(if w < 0 then minus_sign else []) @ dec (nat \<bar>w\<bar>) = ''0''"
    by (auto simp: fmtW_def Let_def)
  then have "\<not> w < 0 \<and> dec (nat \<bar>w\<bar>) = dec 0" by (auto simp: minus_sign_def dec_0 split: if_splits)
  then show "w = 0" by simp
next
  assume "w = 0"
  then show "fmtW w = ''0W''" by (simp add: fmtW_def int_str_def dec_0)
qed

section \<open>Properties\<close>

text \<open>
  C17.  The one-pass loop that cuts a day of power records into segments computes the
  specification, and nothing else does: the segments are non-empty, concatenate to the records,
  are unbroken inside, and are separated exactly by gaps of more than 90 seconds.
\<close>

theorem segments_are_the_unbroken_runs: "segmented segs rs \<longleftrightarrow> segs = segments rs"
  using segmented_unique segments_segmented by metis

definition gap_free :: "(int \<times> int) list \<Rightarrow> int \<Rightarrow> bool" where
  "gap_free gs t \<longleftrightarrow> list_all (\<lambda>g. \<not> (fst g \<le> t \<and> t \<le> snd g)) gs"

text \<open>
  C18.  The spans the daily chart marks as having no data are longer than 90 seconds, lie inside
  the day and contain no record, and every instant outside all of them is within 90 seconds of a
  record.
\<close>

theorem red_spans_are_the_missing_time:
  assumes "in_order rs" and "rs \<noteq> []" and "minT \<le> pr_minute (hd rs)" and "pr_minute (last rs) \<le> maxT"
  shows "(\<forall>g\<in>set (noData minT maxT rs). snd g - fst g > 90 \<and> minT \<le> fst g \<and> snd g \<le> maxT
            \<and> (\<forall>r\<in>set rs. pr_minute r \<le> fst g \<or> snd g \<le> pr_minute r))
    \<and> (\<forall>t. minT \<le> t \<and> t \<le> maxT \<and> gap_free (noData minT maxT rs) t
            \<longrightarrow> (\<exists>r\<in>set rs. \<bar>t - pr_minute r\<bar> \<le> 90))"
proof (intro conjI ballI allI impI)
  have le: "pr_minute (hd rs) \<le> pr_minute r \<and> pr_minute r \<le> pr_minute (last rs)" if "r \<in> set rs" for r
  proof
    show "pr_minute (hd rs) \<le> pr_minute r" using assms(1) that by (cases rs) auto
    show "pr_minute r \<le> pr_minute (last rs)" using assms(1) that by (cases rs rule: rev_cases) (auto simp: sorted_append)
  qed
  fix g assume g: "g \<in> set (noData minT maxT rs)"
  then consider "g = (minT, pr_minute (hd rs))" | "g \<in> set (breaks rs)" | "g = (pr_minute (last rs), maxT)"
    by (auto simp: noData_breaks split: if_splits)
  note cases = this
  have hl: "pr_minute (hd rs) \<le> pr_minute (last rs)" using le assms(2) by simp
  show "snd g - fst g > 90" using g breaks_long [of g rs] by (auto simp: noData_breaks GAP_THRESHOLD_S_def split: if_splits)
  show "minT \<le> fst g" using cases assms(3) hl breaks_inside [OF assms(1), of g] by cases auto
  show "snd g \<le> maxT" using cases assms(4) hl breaks_inside [OF assms(1), of g] by cases auto
  fix r assume r: "r \<in> set rs"
  show "pr_minute r \<le> fst g \<or> snd g \<le> pr_minute r"
    using cases le [OF r] breaks_empty [OF assms(1) _ r, of g] by cases auto
next
  fix t assume t: "minT \<le> t \<and> t \<le> maxT \<and> gap_free (noData minT maxT rs) t"
  have rs: "hd rs \<in> set rs" "last rs \<in> set rs" using assms(2) by simp_all
  consider "t < pr_minute (hd rs)" | "pr_minute (hd rs) \<le> t \<and> t \<le> pr_minute (last rs)" | "pr_minute (last rs) < t"
    by linarith
  then show "\<exists>r\<in>set rs. \<bar>t - pr_minute r\<bar> \<le> 90"
  proof cases
    case 1
    then have "\<bar>t - pr_minute (hd rs)\<bar> \<le> 90"
      using t by (auto simp: gap_free_def noData_breaks GAP_THRESHOLD_S_def split: if_splits)
    then show ?thesis using rs by blast
  next
    case 2
    have "\<forall>g\<in>set (breaks rs). \<not> (fst g \<le> t \<and> t \<le> snd g)"
      using t by (simp add: gap_free_def noData_breaks list_all_iff ball_Un)
    then have "\<not> (\<exists>g\<in>set (breaks rs). fst g < t \<and> t < snd g)" by force
    then show ?thesis using 2 breaks_cover [OF assms(1,2), of t] by (auto simp: GAP_THRESHOLD_S_def)
  next
    case 3
    then have "\<bar>t - pr_minute (last rs)\<bar> \<le> 90"
      using t by (auto simp: gap_free_def noData_breaks GAP_THRESHOLD_S_def split: if_splits)
    then show ?thesis using rs by blast
  qed
qed

definition sample_day :: "power_record list" where
  "sample_day = map (\<lambda>(t, p). \<lparr>pr_minute = t, pr_power = p\<rparr>) [(120, 100), (180, 250), (600, -300), (660, 6000)]"

theorem red_spans_are_the_missing_time_witness: "noData 0 700 sample_day = [(0, 120), (180, 600)]
    \<and> (\<exists>r\<in>set sample_day. \<bar>690 - pr_minute r\<bar> \<le> 90)"
proof
  show "noData 0 700 sample_day = [(0, 120), (180, 600)]" by code_simp
  have "in_order sample_day" "sample_day \<noteq> []" "0 \<le> pr_minute (hd sample_day)" "pr_minute (last sample_day) \<le> 700"
    "gap_free (noData 0 700 sample_day) 690"
    by code_simp+
  with red_spans_are_the_missing_time [of sample_day 0 700]
  show "\<exists>r\<in>set sample_day. \<bar>690 - pr_minute r\<bar> \<le> 90" by simp
qed

theorem chart_stays_in_the_plot:
  assumes "r \<in> set rs" and "dayBounds midnight now date = (minT, maxT)" and "minT \<le> pr_minute r" and "pr_minute r \<le> maxT"
  shows "PAD_left \<le> xPos minT maxT (pr_minute r) \<and> xPos minT maxT (pr_minute r) \<le> PAD_left + PLOT_W
    \<and> PAD_top \<le> yPos (axisMin rs) (axisMax rs) (pr_power r)
    \<and> yPos (axisMin rs) (axisMax rs) (pr_power r) \<le> PAD_top + PLOT_H
    \<and> PAD_top \<le> yPos (axisMin rs) (axisMax rs) 0 \<and> yPos (axisMin rs) (axisMax rs) 0 \<le> PAD_top + PLOT_H
    \<and> minT < maxT \<and> maxT \<le> minT + 86400"
  using assms xPos_inside [of minT "pr_minute r" maxT]
    yPos_inside [OF axisMin_bound(1) axisMax_bound(1), OF assms(1) assms(1)]
    yPos_inside [of "axisMin rs" 0 "axisMax rs"] axisMin_bound(2) [of rs] axisMax_bound(2) [of rs]
  by (auto simp: dayBounds_def Let_def split: if_splits)

theorem chart_stays_in_the_plot_witness:
  "PAD_top \<le> yPos (axisMin sample_day) (axisMax sample_day) (-300)"
proof -
  have "\<lparr>pr_minute = 600, pr_power = -300\<rparr> \<in> set sample_day" by (simp add: sample_day_def)
  moreover have "dayBounds (\<lambda>_. 0) 700 ''2026-01-01'' = (0, 700)" by (simp add: dayBounds_def)
  ultimately show ?thesis
    using chart_stays_in_the_plot [of "\<lparr>pr_minute = 600, pr_power = -300\<rparr>" sample_day] by simp
qed

theorem zero_line_drawn_iff:
  "(\<exists>g\<in>set (yTicks (axisMin rs) (axisMax rs)). snd g = ''0W'') \<longleftrightarrow>
     yStepFor (axisMin rs) (axisMax rs) dvd axisMin rs"
proof -
  have "(\<exists>g\<in>set (yTicks (axisMin rs) (axisMax rs)). snd g = ''0W'') \<longleftrightarrow>
     0 \<in> set (tickValues (axisMin rs) (axisMax rs) (yStepFor (axisMin rs) (axisMax rs)))"
    by (force simp: yTicks_def fmtW_zero)
  also have "\<dots> \<longleftrightarrow> yStepFor (axisMin rs) (axisMax rs) dvd axisMin rs"
    using axisMin_bound(2) [of rs] axisMax_bound(2) [of rs] by (simp add: tickValues_mem) (simp add: yStepFor_def Let_def)
  finally show ?thesis .
qed

text \<open>A day with a small export and a large import: the axis runs from -500 in steps of 2000.\<close>

lemma zero_line_missing:
  "map snd (yTicks (axisMin sample_day) (axisMax sample_day))
     = [minus_sign @ ''500W'', ''1.5kW'', ''3.5kW'', ''5.5kW'']"
  by code_simp

end
