(* ===== verification/Tariff.thy ===== *)
theory Tariff
  imports Graph
begin

text \<open>
  Tariff data and its formatting (\<open>tariff.ts\<close>).  The locale's currency formatter is the parameter
  \<open>intl\<close>: \<open>intl code amount digits\<close> is the text, \<open>None\<close> when the constructor throws.
\<close>

record tariff_day =
  td_date :: string
  td_assigned :: bool
  td_provider :: "string option"
  td_label :: "string option"
  td_currency :: "nat option"
  td_decimals :: "nat option"
  td_unit :: "nat option"
  td_slots :: "rat option list"

definition SLOT_MINUTES :: nat where "SLOT_MINUTES = 15"

definition ISO_4217 :: "(nat \<times> string) list" where
  "ISO_4217 = [(36, ''AUD''), (124, ''CAD''), (156, ''CNY''), (208, ''DKK''), (344, ''HKD''), (356, ''INR''),
     (392, ''JPY''), (554, ''NZD''), (578, ''NOK''), (702, ''SGD''), (710, ''ZAR''), (752, ''SEK''),
     (756, ''CHF''), (826, ''GBP''), (840, ''USD''), (978, ''EUR''), (985, ''PLN'')]"

type_synonym intl = "string \<Rightarrow> rat \<Rightarrow> nat \<Rightarrow> string option"

definition fmtMoney :: "intl \<Rightarrow> rat \<Rightarrow> nat option \<Rightarrow> nat \<Rightarrow> string" where
  "fmtMoney intl amount currency fractionDigits =
     (case (case currency of None \<Rightarrow> None | Some c \<Rightarrow> map_of ISO_4217 c) of
        None \<Rightarrow> toFixed fractionDigits amount
      | Some code \<Rightarrow>
          (case intl code amount fractionDigits of
             Some s \<Rightarrow> s
           | None \<Rightarrow> toFixed fractionDigits amount))"

text \<open>An index past the end reads \<open>undefined\<close>, which is treated like \<open>null\<close>.\<close>

definition slotPrice :: "tariff_day \<Rightarrow> nat \<Rightarrow> rat option" where
  "slotPrice day slot =
     (case (if slot < length (td_slots day) then td_slots day ! slot else None) of
        None \<Rightarrow> None
      | Some v \<Rightarrow> Some (v / 10 ^ default_to 0 (td_decimals day)))"

definition fmtUnitPrice :: "intl \<Rightarrow> rat \<Rightarrow> nat option \<Rightarrow> string" where
  "fmtUnitPrice intl price currency =
     fmtMoney intl price currency (if \<bar>price\<bar> < 1 then 3 else 2) @ ''/kWh''"

text \<open>The local hours and minutes of the clock are arguments.\<close>

definition currentSlot :: "nat \<Rightarrow> nat \<Rightarrow> nat" where
  "currentSlot hours minutes = (hours * 60 + minutes) div SLOT_MINUTES"

text \<open>Year, month (from 0) and day of the month of a local date.\<close>

definition localDateString :: "nat \<Rightarrow> nat \<Rightarrow> nat \<Rightarrow> string" where
  "localDateString y m d =
     dec y @ ''-'' @ pad_start 2 CHR ''0'' (dec (m + 1)) @ ''-'' @ pad_start 2 CHR ''0'' (dec d)"

section \<open>The price in force now\<close>

record current_price =
  cp_day :: "tariff_day option"
  cp_slot :: nat

definition price_open :: "nat \<Rightarrow> nat \<Rightarrow> current_price" where
  "price_open hours minutes = \<lparr>cp_day = None, cp_slot = currentSlot hours minutes\<rparr>"

text \<open>The hook asks for the day at once and every five minutes; a failed request changes nothing.\<close>

definition price_load :: "nat \<Rightarrow> nat \<Rightarrow> current_price \<Rightarrow> current_price" where
  "price_load hours minutes c = c\<lparr>cp_slot := currentSlot hours minutes\<rparr>"

definition price_loaded :: "tariff_day answer \<Rightarrow> current_price \<Rightarrow> current_price" where
  "price_loaded r c = (case checked r of Inl _ \<Rightarrow> c | Inr d \<Rightarrow> c\<lparr>cp_day := Some d\<rparr>)"

definition useCurrentPrice :: "current_price \<Rightarrow> rat option \<times> nat option" where
  "useCurrentPrice c =
     (case cp_day c of None \<Rightarrow> (None, None) | Some d \<Rightarrow> (slotPrice d (cp_slot c), td_currency d))"

section \<open>Facts\<close>

lemma currentSlot_bounds:
  assumes "h < 24" and "m < 60"
  shows "currentSlot h m < 96" "currentSlot h m * 15 \<le> h * 60 + m" "h * 60 + m < (currentSlot h m + 1) * 15"
proof -
  have "h * 60 + m < 1440" using assms by simp
  then show "currentSlot h m < 96" by (simp add: currentSlot_def SLOT_MINUTES_def)
qed (simp_all add: currentSlot_def SLOT_MINUTES_def dividend_less_div_times)

lemma length_dec_lt_10: "n < 10 \<Longrightarrow> length (dec n) = 1" by (simp add: dec.simps)

lemma length_dec_lt_100: "10 \<le> n \<Longrightarrow> n < 100 \<Longrightarrow> length (dec n) = 2"
  by (subst dec.simps) (simp add: length_dec_lt_10)

lemma two_digits: "n < 100 \<Longrightarrow> length (pad_start 2 CHR ''0'' (dec n)) = 2"
  using length_dec_lt_10 [of n] length_dec_lt_100 [of n] by (cases "n < 10") (auto simp: pad_start_def)

lemma digits_val_pad_two: "n < 100 \<Longrightarrow> digits_val (pad_start 2 CHR ''0'' (dec n)) = n"
proof -
  have "digits_val (CHR ''0'' # s) = digits_val s" for s by (simp add: digits_val_def digit_val_def)
  then show "n < 100 \<Longrightarrow> ?thesis"
    using length_dec_lt_10 [of n] length_dec_lt_100 [of n] by (cases "n < 10") (auto simp: pad_start_def)
qed

text \<open>A printed date determines the date.\<close>

lemma localDateString_inject:
  assumes "m < 12" "d < 100" "m' < 12" "d' < 100" and "localDateString y m d = localDateString y' m' d'"
  shows "y = y' \<and> m = m' \<and> d = d'"
proof -
  have len: "length (pad_start 2 CHR ''0'' (dec (k + 1))) = 2" if "k < 12" for k using that by (intro two_digits) simp
  have t: "\<not> is_digit CHR ''-''" by (simp add: is_digit_def)
  have "takeWhile is_digit (localDateString a b c) = dec a" for a b c
    using t dec_digits by (simp add: localDateString_def takeWhile_append2)
  then have y: "y = y'" using assms(5) by (metis dec_inject)
  then have eq: "pad_start 2 CHR ''0'' (dec (m + 1)) @ ''-'' @ pad_start 2 CHR ''0'' (dec d) =
    pad_start 2 CHR ''0'' (dec (m' + 1)) @ ''-'' @ pad_start 2 CHR ''0'' (dec d')"
    using assms(5) by (simp add: localDateString_def)
  then have mp: "pad_start 2 CHR ''0'' (dec (m + 1)) = pad_start 2 CHR ''0'' (dec (m' + 1))"
    and dp: "pad_start 2 CHR ''0'' (dec d) = pad_start 2 CHR ''0'' (dec d')"
    using len [OF assms(1)] len [OF assms(3)] by (simp_all add: append_eq_append_conv)
  have "m + 1 = m' + 1" using mp assms(1,3) digits_val_pad_two [of "m + 1"] digits_val_pad_two [of "m' + 1"] by simp
  moreover have "d = d'" using dp assms(2,4) digits_val_pad_two by metis
  ultimately show ?thesis using y by simp
qed

end
