(* ===== verification/PowerHistory.thy ===== *)
theory PowerHistory
  imports Tariff
begin

text \<open>
  The usage history (\<open>Power.tsx\<close>): daily totals, the series of the stacked bars and of the table,
  and the geometry of the bars.  A JavaScript object that maps ids to numbers is a map here.
\<close>

datatype energy_role = EGrid | ESolar | ELoad | EBattery

record energy_node =
  eg_id :: string
  eg_role :: energy_role

record energy_day =
  ed_date :: string
  ed_kwh :: "string \<rightharpoonup> rat"
  ed_cost :: "(string \<rightharpoonup> rat) option"
  ed_solar_kwh :: "(string \<rightharpoonup> rat) option"
  ed_grid_kwh :: "(string \<rightharpoonup> rat) option"

record daily_energy =
  dy_nodes :: "energy_node list"
  dy_days :: "energy_day list"
  dy_currency :: "nat option"

record series =
  ser_id :: string
  ser_label :: string
  ser_color :: string
  ser_total :: rat
  ser_cost :: rat
  ser_solar :: rat
  ser_grid :: rat

definition HISTORY_DAYS :: nat where "HISTORY_DAYS = 30"
definition UNMONITORED_ID :: string where "UNMONITORED_ID = ''__unmonitored''"
definition UNMONITORED_COLOR :: string where "UNMONITORED_COLOR = ''#94a3b8''"
definition PALETTE :: "string list" where
  "PALETTE = [''#3b82f6'', ''#f59e0b'', ''#10b981'', ''#ef4444'', ''#8b5cf6'', ''#ec4899'', ''#14b8a6'', ''#f97316'']"

definition H_PAD_top :: rat where "H_PAD_top = 12"
definition H_PAD_left :: rat where "H_PAD_left = 56"
definition H_PLOT_W :: rat where "H_PLOT_W = 800 - H_PAD_left - 16"
definition H_PLOT_H :: rat where "H_PLOT_H = 240 - H_PAD_top - 28"

definition kwhStep :: "rat \<Rightarrow> rat" where
  "kwhStep m = (case find (\<lambda>s. m / s \<le> 5) [1/2, 1, 2, 5, 10, 20, 50, 100] of Some s \<Rightarrow> s | None \<Rightarrow> 200)"

definition fmtKwh :: "rat \<Rightarrow> string" where
  "fmtKwh v = toFixed 1 v @ '' kWh''"

text \<open>The text of the cell and its tooltip.\<close>

definition SelfPowered :: "rat \<Rightarrow> rat \<Rightarrow> string \<times> string option" where
  "SelfPowered solar grid =
     (let total = solar + grid
      in if total \<le> 0 then (em_dash, None)
         else (toFixed 0 (solar / total * 100) @ ''%'',
               Some (fmtKwh solar @ '' solar '' @ middot @ '' '' @ fmtKwh grid @ '' grid'')))"

section \<open>Building the history\<close>

record day_bar =
  db_date :: string
  db_total :: "rat option"
  db_parts :: "string \<rightharpoonup> rat"

definition idsOf :: "energy_role \<Rightarrow> daily_energy \<Rightarrow> string list" where
  "idsOf r data = map eg_id (filter (\<lambda>n. eg_role n = r) (dy_nodes data))"

definition loadIds :: "daily_energy \<Rightarrow> string list" where
  "loadIds data = sort (idsOf ELoad data)"

definition sumKwh :: "energy_day \<Rightarrow> string list \<Rightarrow> rat" where
  "sumKwh d ids = foldl (\<lambda>acc i. acc + default_to 0 (ed_kwh d i)) 0 ids"

definition loadParts :: "energy_day \<Rightarrow> string list \<Rightarrow> (string \<rightharpoonup> rat)" where
  "loadParts d ids = foldl (\<lambda>p i. p(i \<mapsto> max 0 (default_to 0 (ed_kwh d i)))) Map.empty ids"

text \<open>\<open>Object.values(parts)\<close> has one value per key, however often the key was assigned.\<close>

definition partsSum :: "(string \<rightharpoonup> rat) \<Rightarrow> string list \<Rightarrow> rat" where
  "partsSum p keys = foldl (\<lambda>a i. a + default_to 0 (p i)) 0 (remdups keys)"

definition buildDay :: "daily_energy \<Rightarrow> energy_day \<Rightarrow> day_bar" where
  "buildDay data d =
     (if \<not> list_ex (\<lambda>i. ed_kwh d i \<noteq> None) (idsOf EGrid data)
      then \<lparr>db_date = ed_date d, db_total = None, db_parts = Map.empty\<rparr>
      else
        let parts = loadParts d (loadIds data);
            loads = partsSum parts (loadIds data);
            total = max loads (sumKwh d (idsOf EGrid data) - sumKwh d (idsOf ESolar data))
        in \<lparr>db_date = ed_date d, db_total = Some total, db_parts = parts(UNMONITORED_ID \<mapsto> total - loads)\<rparr>)"

definition totalOf :: "day_bar list \<Rightarrow> string \<Rightarrow> rat" where
  "totalOf days i = foldl (\<lambda>acc d. acc + default_to 0 (db_parts d i)) 0 days"

definition fieldOf :: "(energy_day \<Rightarrow> (string \<rightharpoonup> rat) option) \<Rightarrow> energy_day list \<Rightarrow> string \<Rightarrow> rat" where
  "fieldOf f days i =
     foldl (\<lambda>acc d. acc + (case f d of None \<Rightarrow> 0 | Some m \<Rightarrow> default_to 0 (m i))) 0 days"

definition seriesFor :: "daily_energy \<Rightarrow> day_bar list \<Rightarrow> string \<Rightarrow> string \<Rightarrow> string \<Rightarrow> series" where
  "seriesFor data days i label color =
     \<lparr>ser_id = i, ser_label = label, ser_color = color, ser_total = totalOf days i,
      ser_cost = fieldOf ed_cost (dy_days data) i, ser_solar = fieldOf ed_solar_kwh (dy_days data) i,
      ser_grid = fieldOf ed_grid_kwh (dy_days data) i\<rparr>"

record history =
  hs_days :: "day_bar list"
  hs_series :: "series list"
  hs_hasGrid :: bool
  hs_costedDays :: nat

definition loadSeries :: "daily_energy \<Rightarrow> (string \<rightharpoonup> string) \<Rightarrow> day_bar list \<Rightarrow> series list" where
  "loadSeries data labels days =
     map (\<lambda>(k, i). seriesFor data days i (default_to i (labels i)) (PALETTE ! (k mod length PALETTE)))
       (enumerate 0 (loadIds data))"

definition buildHistory :: "daily_energy \<Rightarrow> (string \<rightharpoonup> string) \<Rightarrow> history" where
  "buildHistory data labels =
     (let days = map (buildDay data) (dy_days data);
          series = sort_key (\<lambda>s. - ser_total s) (loadSeries data labels days)
             @ [seriesFor data days UNMONITORED_ID ''Unmonitored'' UNMONITORED_COLOR]
      in \<lparr>hs_days = days, hs_series = series, hs_hasGrid = (idsOf EGrid data \<noteq> []),
          hs_costedDays = length (filter (\<lambda>d. ed_cost d \<noteq> None) (dy_days data))\<rparr>)"

section \<open>The bars\<close>

definition dayMax :: "day_bar list \<Rightarrow> rat" where
  "dayMax days = math_max 0 (map (\<lambda>d. default_to 0 (db_total d)) days)"

definition grandTotal :: "day_bar list \<Rightarrow> rat" where
  "grandTotal days = foldl (\<lambda>acc d. acc + default_to 0 (db_total d)) 0 days"

definition historyStep :: "day_bar list \<Rightarrow> rat" where
  "historyStep days = kwhStep (if dayMax days = 0 then 1 else dayMax days)"

definition historyMax :: "day_bar list \<Rightarrow> rat" where
  "historyMax days = max (historyStep days) (of_int \<lceil>dayMax days / historyStep days\<rceil> * historyStep days)"

definition hyPos :: "rat \<Rightarrow> rat \<Rightarrow> rat" where
  "hyPos yMax v = H_PAD_top + H_PLOT_H - (v / yMax) * H_PLOT_H"

text \<open>\<open>for (let v = 0; v <= yMax + 1e-9; v += step)\<close>.\<close>

function historyTicks :: "rat \<Rightarrow> rat \<Rightarrow> rat \<Rightarrow> rat list" where
  "historyTicks v hi step = (if step \<le> 0 \<or> v > hi then [] else v # historyTicks (v + step) hi step)"
  by auto
termination
proof (relation "measure (\<lambda>(v, hi, step). nat (\<lfloor>(hi - v) / step\<rfloor> + 1))")
  fix v hi step :: rat assume a: "\<not> (step \<le> 0 \<or> v > hi)"
  then have "(hi - (v + step)) / step = (hi - v) / step - 1" by (simp add: field_simps)
  moreover have "0 \<le> \<lfloor>(hi - v) / step\<rfloor>" using a by simp
  ultimately show "((v + step, hi, step), v, hi, step) \<in> measure (\<lambda>(v, hi, step). nat (\<lfloor>(hi - v) / step\<rfloor> + 1))" by simp
qed simp

declare historyTicks.simps [simp del]

definition kwhTicks :: "day_bar list \<Rightarrow> rat list" where
  "kwhTicks days = historyTicks 0 (historyMax days + 1 / 10 ^ 9) (historyStep days)"

text \<open>The grid lines: height, whether it is the base line, and the label.\<close>

definition kwhTickText :: "rat \<Rightarrow> string" where
  "kwhTickText v = (if v = of_int \<lfloor>v\<rfloor> then int_str \<lfloor>v\<rfloor> else toFixed 1 v) @ '' kWh''"

record bar_part =
  bp_id :: string
  bp_y :: rat
  bp_height :: rat
  bp_color :: string
  bp_opacity :: rat
  bp_title :: string

definition opacity :: "string option \<Rightarrow> string \<Rightarrow> rat" where
  "opacity hovered i = (if hovered = None \<or> hovered = Some i then 1 else 1 / 4)"

definition barStep :: "(string \<Rightarrow> string) \<Rightarrow> string option \<Rightarrow> rat \<Rightarrow> day_bar \<Rightarrow> rat \<times> bar_part list \<Rightarrow> series \<Rightarrow> rat \<times> bar_part list" where
  "barStep fmtDay hovered yMax d st s =
     (let (acc, parts) = st; v = default_to 0 (db_parts d (ser_id s)) in
      if v \<le> 0 then st
      else (acc + v, parts @ [\<lparr>bp_id = ser_id s, bp_y = hyPos yMax (acc + v),
              bp_height = max 0 (hyPos yMax acc - hyPos yMax (acc + v)), bp_color = ser_color s,
              bp_opacity = opacity hovered (ser_id s),
              bp_title = ser_label s @ '' '' @ middot @ '' '' @ fmtDay (db_date d) @ '' '' @ middot @ '' '' @ fmtKwh v\<rparr>]))"

definition stackBar :: "(string \<Rightarrow> string) \<Rightarrow> string option \<Rightarrow> rat \<Rightarrow> series list \<Rightarrow> day_bar \<Rightarrow> bar_part list" where
  "stackBar fmtDay hovered yMax series d = snd (foldl (barStep fmtDay hovered yMax d) (0, []) series)"

datatype day_shape = NoDataLine rat rat string | Bar rat rat "bar_part list"

definition dayShape :: "(string \<Rightarrow> string) \<Rightarrow> string option \<Rightarrow> history \<Rightarrow> nat \<Rightarrow> day_bar \<Rightarrow> day_shape" where
  "dayShape fmtDay hovered h i d =
     (let slot = H_PLOT_W / of_nat (length (hs_days h)); barW = slot * (7 / 10);
          x = H_PAD_left + of_nat i * slot + (slot - barW) / 2
      in if db_total d = None then NoDataLine x (x + barW) (fmtDay (db_date d) @ '' '' @ middot @ '' no data'')
         else Bar x barW (stackBar fmtDay hovered (historyMax (hs_days h)) (hs_series h) d))"

text \<open>Every fifth day has its date below, counted back from the last.\<close>

definition dayLabelled :: "history \<Rightarrow> nat \<Rightarrow> bool" where
  "dayLabelled h i \<longleftrightarrow> i mod 5 = (length (hs_days h) - 1) mod 5"

definition dayLabels :: "(string \<Rightarrow> string) \<Rightarrow> history \<Rightarrow> (rat \<times> string) list" where
  "dayLabels fmtDay h =
     (let slot = H_PLOT_W / of_nat (length (hs_days h))
      in map (\<lambda>(i, d). (H_PAD_left + of_nat i * slot + slot / 2, fmtDay (db_date d)))
           (filter (\<lambda>(i, d). dayLabelled h i) (enumerate 0 (hs_days h))))"

section \<open>The table\<close>

record usage_row =
  ur_label :: string
  ur_consumption :: string
  ur_share :: string
  ur_self :: "string \<times> string option"
  ur_cost :: string

definition usageRow :: "intl \<Rightarrow> daily_energy \<Rightarrow> history \<Rightarrow> series \<Rightarrow> usage_row" where
  "usageRow intl data h s =
     \<lparr>ur_label = ser_label s, ur_consumption = fmtKwh (ser_total s),
      ur_share = (if grandTotal (hs_days h) > 0
         then toFixed 1 (ser_total s / grandTotal (hs_days h) * 100) @ ''%'' else em_dash),
      ur_self = SelfPowered (ser_solar s) (ser_grid s),
      ur_cost = (if hs_costedDays h > 0 then fmtMoney intl (ser_cost s) (dy_currency data) 2 else em_dash)\<rparr>"

text \<open>Below the series: the row of the totals, whose cost is empty, and the row of the cost.\<close>

definition totalRow :: "intl \<Rightarrow> daily_energy \<Rightarrow> history \<Rightarrow> usage_row" where
  "totalRow intl data h =
     \<lparr>ur_label = ''Total'', ur_consumption = fmtKwh (grandTotal (hs_days h)),
      ur_share = (if grandTotal (hs_days h) > 0 then ''100%'' else em_dash),
      ur_self = SelfPowered (foldl (\<lambda>a s. a + ser_solar s) 0 (hs_series h)) (foldl (\<lambda>a s. a + ser_grid s) 0 (hs_series h)),
      ur_cost = []\<rparr>"

definition costRow :: "intl \<Rightarrow> daily_energy \<Rightarrow> history \<Rightarrow> usage_row" where
  "costRow intl data h =
     \<lparr>ur_label = ''Total cost'' @ (if hs_costedDays h > 0 \<and> hs_costedDays h < length (hs_days h)
         then '' ('' @ dec (hs_costedDays h) @ '' of '' @ dec (length (hs_days h)) @ '' days)'' else []),
      ur_consumption = [], ur_share = [], ur_self = ([], None),
      ur_cost = (if hs_costedDays h > 0
         then fmtMoney intl (foldl (\<lambda>a s. a + ser_cost s) 0 (hs_series h)) (dy_currency data) 2 else ''N/A'')\<rparr>"

text \<open>The section: an error, a message, or the bars and the table.\<close>

record usage_history =
  uh_data :: "daily_energy option"
  uh_error :: "string option"
  uh_hovered :: "string option"

definition usage_open :: usage_history where
  "usage_open = \<lparr>uh_data = None, uh_error = None, uh_hovered = None\<rparr>"

definition usage_loaded :: "daily_energy answer \<Rightarrow> usage_history \<Rightarrow> usage_history" where
  "usage_loaded r u = (case checked r of Inl msg \<Rightarrow> u\<lparr>uh_error := Some msg\<rparr> | Inr d \<Rightarrow> u\<lparr>uh_data := Some d\<rparr>)"

text \<open>The pointer over a bar part or a row of the table, and leaving the row or the whole chart.\<close>

definition usage_hover :: "string option \<Rightarrow> usage_history \<Rightarrow> usage_history" where
  "usage_hover i u = u\<lparr>uh_hovered := i\<rparr>"

definition rowBackground :: "usage_history \<Rightarrow> series \<Rightarrow> string option" where
  "rowBackground u s = (if uh_hovered u = Some (ser_id s) then Some ''#f1f5f9'' else None)"

datatype usage_body =
    UsageError string
  | UsageText string
  | UsageTable "(rat \<times> bool \<times> string) list" "day_shape list" "(rat \<times> string) list"
      "(string option \<times> usage_row) list" usage_row usage_row

definition usageBody :: "intl \<Rightarrow> (string \<Rightarrow> string) \<Rightarrow> (string \<rightharpoonup> string) \<Rightarrow> usage_history \<Rightarrow> usage_body" where
  "usageBody intl fmtDay labels u =
     (case shownText (uh_error u) of
        Some e \<Rightarrow> UsageError e
      | None \<Rightarrow>
          (case uh_data u of
             None \<Rightarrow> UsageText (''Loading'' @ ellipsis)
           | Some data \<Rightarrow>
               let h = buildHistory data labels in
               if \<not> hs_hasGrid h then UsageText ''Assign a grid meter on the Topology page to see usage history.''
               else UsageTable
                 (map (\<lambda>v. (hyPos (historyMax (hs_days h)) v, v = 0, kwhTickText v)) (kwhTicks (hs_days h)))
                 (map (\<lambda>(i, d). dayShape fmtDay (uh_hovered u) h i d) (enumerate 0 (hs_days h)))
                 (dayLabels fmtDay h)
                 (map (\<lambda>s. (rowBackground u s, usageRow intl data h s)) (hs_series h))
                 (totalRow intl data h) (costRow intl data h)))"

end
