(* ===== verification/PowerHistoryProps.thy ===== *)
theory PowerHistoryProps
  imports PowerHistory
begin

text \<open>
  The usage history adds up: each day's parts make its total, the bars are stacked without gaps
  inside the plot area, and the column of the table sums to the grand total.
\<close>

section \<open>Sums over days and series\<close>

definition part :: "day_bar \<Rightarrow> string \<Rightarrow> rat" where
  "part d i = default_to 0 (db_parts d i)"

lemma sum_list_swap:
  "sum_list (map (\<lambda>s. sum_list (map (\<lambda>d. f d s) ds)) ss) =
   (sum_list (map (\<lambda>d. sum_list (map (f d) ss)) ds) :: 'a :: comm_monoid_add)"
proof (induction ss)
  case (Cons s ss)
  then show ?case by (simp add: sum_list_addf)
qed simp

lemma loadParts_lookup:
  "loadParts d ids i = (if i \<in> set ids then Some (max 0 (default_to 0 (ed_kwh d i))) else None)"
  by (induction ids rule: rev_induct) (auto simp: loadParts_def)

lemma partsSum_sum: "partsSum p keys = sum_list (map (\<lambda>i. default_to 0 (p i)) (remdups keys))"
  using foldl_plus_sum_list [of "\<lambda>i. default_to 0 (p i)" 0] by (simp add: partsSum_def)

lemma totalOf_sum: "totalOf days i = sum_list (map (\<lambda>d. part d i) days)"
  using foldl_plus_sum_list [of "\<lambda>d. part d i" 0] by (simp add: totalOf_def part_def)

lemma grandTotal_sum: "grandTotal days = sum_list (map (\<lambda>d. default_to 0 (db_total d)) days)"
  using foldl_plus_sum_list [of "\<lambda>d. default_to 0 (db_total d)" 0] by (simp add: grandTotal_def)

text \<open>Ids the firmware gives its load streams: no two alike, none the key of the remainder.\<close>

definition streams_ok :: "daily_energy \<Rightarrow> bool" where
  "streams_ok data \<longleftrightarrow> distinct (idsOf ELoad data) \<and> UNMONITORED_ID \<notin> set (idsOf ELoad data)"

lemma streams_ok_loadIds:
  "streams_ok data \<Longrightarrow> distinct (loadIds data)" "streams_ok data \<Longrightarrow> UNMONITORED_ID \<notin> set (loadIds data)"
  by (simp_all add: streams_ok_def loadIds_def)

lemma part_nonneg: "0 \<le> part (buildDay data d) i"
  by (auto simp: part_def buildDay_def Let_def loadParts_lookup default_to_def split: option.splits if_splits)

lemma parts_make_total:
  assumes "streams_ok data"
  shows "sum_list (map (part (buildDay data d)) (loadIds data)) + part (buildDay data d) UNMONITORED_ID
    = default_to 0 (db_total (buildDay data d))"
proof (cases "list_ex (\<lambda>i. ed_kwh d i \<noteq> None) (idsOf EGrid data)")
  case True
  have "map (part (buildDay data d)) (loadIds data) =
      map (\<lambda>i. default_to 0 (loadParts d (loadIds data) i)) (remdups (loadIds data))"
    using streams_ok_loadIds [OF assms] True
    by (auto simp: part_def buildDay_def Let_def distinct_remdups_id intro!: map_cong)
  then show ?thesis using True by (simp add: partsSum_sum part_def buildDay_def Let_def)
next
  case False
  then have "part (buildDay data d) = (\<lambda>_. 0)" by (intro ext) (simp add: part_def buildDay_def)
  moreover have "db_total (buildDay data d) = None" using False by (simp add: buildDay_def)
  ultimately show ?thesis by simp
qed

section \<open>The series\<close>

lemma ser_id_loadSeries: "map ser_id (loadSeries data labels days) = loadIds data"
  by (simp add: loadSeries_def seriesFor_def case_prod_unfold comp_def)

lemma mset_series_ids:
  "mset (map ser_id (hs_series (buildHistory data labels))) = mset (loadIds data) + {#UNMONITORED_ID#}"
proof -
  have "mset (map ser_id (sort_key f (loadSeries data labels days))) = mset (loadIds data)" for f :: "series \<Rightarrow> rat" and days
    using ser_id_loadSeries by (metis mset_map mset_sort)
  then show ?thesis by (simp add: buildHistory_def Let_def seriesFor_def)
qed

lemma series_total:
  assumes "s \<in> set (hs_series (buildHistory data labels))"
  shows "ser_total s = totalOf (hs_days (buildHistory data labels)) (ser_id s)"
  using assms by (auto simp: buildHistory_def Let_def loadSeries_def seriesFor_def)

lemma sum_over_series:
  assumes "streams_ok data"
  shows "sum_list (map (\<lambda>s. f (ser_id s)) (hs_series (buildHistory data labels)))
    = (sum_list (map f (loadIds data)) + f UNMONITORED_ID :: rat)"
proof -
  have "mset (map f (map ser_id (hs_series (buildHistory data labels)))) = mset (map f (loadIds data @ [UNMONITORED_ID]))"
    using mset_series_ids [of data labels] by (simp only: mset_map) simp
  then show ?thesis by (metis (no_types, lifting) list.map(1,2) map_append map_map comp_def
      sum_list.append sum_list.Cons sum_list.Nil sum_mset_sum_list add.right_neutral map_cong)
qed

lemma hs_days_build: "hs_days (buildHistory data labels) = map (buildDay data) (dy_days data)"
  by (simp add: buildHistory_def Let_def)

lemma day_over_series:
  assumes "streams_ok data" and "d \<in> set (hs_days (buildHistory data labels))"
  shows "sum_list (map (\<lambda>s. part d (ser_id s)) (hs_series (buildHistory data labels))) = default_to 0 (db_total d)"
  using assms(2) sum_over_series [OF assms(1), of "part d"] parts_make_total [OF assms(1)]
  by (auto simp: hs_days_build)

section \<open>The axis\<close>

lemma kwhStep_cases: "kwhStep m \<in> {1/2, 1, 2, 5, 10, 20, 50, 100, 200}"
  by (auto simp: kwhStep_def)

lemma kwhStep_pos: "0 < kwhStep m"
  using kwhStep_cases [of m] by auto

lemma historyStep_pos: "0 < historyStep days" by (simp add: historyStep_def kwhStep_pos)

lemma dayMax_ge: "d \<in> set days \<Longrightarrow> default_to 0 (db_total d) \<le> dayMax days" "0 \<le> dayMax days"
  by (auto simp: dayMax_def math_max_ge_base intro!: math_max_ge_mem)

lemma historyMax_ge: "dayMax days \<le> historyMax days" "0 < historyMax days"
proof -
  have "dayMax days / historyStep days \<le> of_int \<lceil>dayMax days / historyStep days\<rceil>" by simp
  then have "dayMax days \<le> of_int \<lceil>dayMax days / historyStep days\<rceil> * historyStep days"
    using historyStep_pos by (simp only: pos_divide_le_eq)
  then show "dayMax days \<le> historyMax days" by (simp add: historyMax_def)
  show "0 < historyMax days" using historyStep_pos [of days] by (simp add: historyMax_def)
qed

lemma kwhStep_spec: "m \<le> 500 \<Longrightarrow> m / kwhStep m \<le> 5"
  by (auto simp: kwhStep_def)

lemma length_historyTicks: "0 < step \<Longrightarrow> length (historyTicks v hi step) = nat (\<lfloor>(hi - v) / step\<rfloor> + 1)"
proof (induction v hi step rule: historyTicks.induct)
  case (1 v hi step)
  show ?case
  proof (cases "v > hi")
    case True
    then have "(hi - v) / step < 0" using 1(2) by (simp add: divide_less_0_iff)
    then have "\<lfloor>(hi - v) / step\<rfloor> < 0" by (simp only: floor_less_zero)
    then have "nat (\<lfloor>(hi - v) / step\<rfloor> + 1) = 0" by linarith
    then show ?thesis using True by (subst historyTicks.simps) simp
  next
    case False
    have "(hi - (v + step)) / step = (hi - v) / step - 1" using 1(2) by (simp add: field_simps)
    then have "length (historyTicks (v + step) hi step) = nat \<lfloor>(hi - v) / step\<rfloor>" using 1 False by simp
    moreover have "0 \<le> \<lfloor>(hi - v) / step\<rfloor>" using False 1(2) by simp
    ultimately show ?thesis using 1(2) False by (subst historyTicks.simps) (simp add: nat_add_distrib)
  qed
qed

section \<open>Stacking\<close>

lemma hyPos_diff: "hyPos m a - hyPos m b = (b - a) / m * H_PLOT_H"
  by (simp add: hyPos_def algebra_simps diff_divide_distrib)

lemma H_PLOT_H_pos: "0 < H_PLOT_H" by (simp add: H_PLOT_H_def H_PAD_top_def)

text \<open>What \<open>barStep\<close> has stacked so far: the height reached and contiguous rectangles.\<close>

definition stacked :: "rat \<Rightarrow> rat \<Rightarrow> rat \<times> bar_part list \<Rightarrow> bool" where
  "stacked m base st \<longleftrightarrow>
     0 \<le> fst st
     \<and> sum_list (map bp_height (snd st)) = hyPos m 0 - hyPos m (fst st)
     \<and> (\<forall>p\<in>set (snd st). hyPos m (fst st) \<le> bp_y p \<and> bp_y p + bp_height p \<le> hyPos m 0 \<and> 0 < bp_height p)
     \<and> fst st = base"

text \<open>Rectangles on top of each other: each begins where the one below it ends.\<close>

fun piled :: "rat \<Rightarrow> bar_part list \<Rightarrow> rat \<Rightarrow> bool" where
  "piled base [] y \<longleftrightarrow> base = y"
| "piled base (p # ps) y \<longleftrightarrow> bp_y p + bp_height p = base \<and> piled (bp_y p) ps y"

lemma piled_snoc: "piled base (ps @ [p]) y \<longleftrightarrow> piled base ps (bp_y p + bp_height p) \<and> bp_y p = y"
  by (induction ps arbitrary: base) auto

lemma barStep_height:
  assumes "0 < m" and "0 < v" shows "max 0 (hyPos m acc - hyPos m (acc + v)) = v / m * H_PLOT_H"
proof -
  have "hyPos m acc - hyPos m (acc + v) = v / m * H_PLOT_H" by (simp add: hyPos_diff)
  moreover have "0 < v / m * H_PLOT_H" using assms H_PLOT_H_pos by simp
  ultimately show ?thesis by simp
qed

lemma foldl_piled:
  assumes "0 < m"
  shows "piled (hyPos m 0) (snd (foldl (barStep fmtDay hov m d) (0, []) ss)) (hyPos m (fst (foldl (barStep fmtDay hov m d) (0, []) ss)))"
proof (induction ss rule: rev_induct)
  case (snoc s ss)
  obtain acc parts where st: "foldl (barStep fmtDay hov m d) (0, []) ss = (acc, parts)" by fastforce
  with snoc have ih: "piled (hyPos m 0) parts (hyPos m acc)" by simp
  have step: "foldl (barStep fmtDay hov m d) (0, []) (ss @ [s]) = barStep fmtDay hov m d (acc, parts) s" by (simp add: st)
  have up: "hyPos m (acc + v) + v / m * H_PLOT_H = hyPos m acc" for v using hyPos_diff [of m acc "acc + v"] by simp
  show ?case unfolding step
    using ih barStep_height [OF assms, of "default_to 0 (db_parts d (ser_id s))" acc] up
    by (cases "default_to 0 (db_parts d (ser_id s)) \<le> 0") (simp_all add: barStep_def Let_def piled_snoc)
qed simp

lemma foldl_heights:
  assumes "0 < m"
  shows "map (\<lambda>p. (bp_id p, bp_height p)) (snd (foldl (barStep fmtDay hov m d) (0, []) ss))
    = map (\<lambda>s. (ser_id s, part d (ser_id s) / m * H_PLOT_H)) (filter (\<lambda>s. 0 < part d (ser_id s)) ss)"
proof (induction ss rule: rev_induct)
  case (snoc s ss)
  obtain acc parts where st: "foldl (barStep fmtDay hov m d) (0, []) ss = (acc, parts)" by fastforce
  with snoc have ih: "map (\<lambda>p. (bp_id p, bp_height p)) parts
      = map (\<lambda>s. (ser_id s, part d (ser_id s) / m * H_PLOT_H)) (filter (\<lambda>s. 0 < part d (ser_id s)) ss)" by simp
  have step: "foldl (barStep fmtDay hov m d) (0, []) (ss @ [s]) = barStep fmtDay hov m d (acc, parts) s" by (simp add: st)
  show ?case unfolding step
    using ih barStep_height [OF assms, of "part d (ser_id s)" acc]
    by (cases "part d (ser_id s) \<le> 0") (simp_all add: barStep_def Let_def part_def [symmetric])
qed simp

lemma barStep_stacked:
  assumes "stacked m base st" and "0 < m" and "0 \<le> part d (ser_id s)"
  shows "stacked m (base + part d (ser_id s)) (barStep fmtDay hov m d st s)"
proof -
  obtain acc parts where st: "st = (acc, parts)" by (cases st)
  define v where "v = part d (ser_id s)"
  show ?thesis
  proof (cases "v = 0")
    case True
    then show ?thesis using assms(1) st by (simp add: barStep_def v_def part_def Let_def)
  next
    case False
    then have v: "0 < v" using assms(3) by (simp add: v_def)
    have h: "hyPos m acc - hyPos m (acc + v) = v / m * H_PLOT_H" by (simp add: hyPos_diff)
    have pos: "0 < hyPos m acc - hyPos m (acc + v)" using v assms(2) H_PLOT_H_pos by (simp add: h)
    have low: "hyPos m acc \<le> hyPos m 0"
      using assms(1,2) H_PLOT_H_pos hyPos_diff [of m 0 acc] st by (simp add: stacked_def) (metis
        divide_nonneg_pos mult_nonneg_nonneg order_less_imp_le diff_ge_0_iff_ge)
    have step: "fst (barStep fmtDay hov m d st s) = acc + v"
      "map bp_height (snd (barStep fmtDay hov m d st s)) = map bp_height parts @ [hyPos m acc - hyPos m (acc + v)]"
      "set (snd (barStep fmtDay hov m d st s)) \<subseteq> set parts \<union> {p. bp_y p = hyPos m (acc + v) \<and> bp_height p = hyPos m acc - hyPos m (acc + v)}"
      using v pos by (auto simp: st barStep_def v_def part_def Let_def max_def)
    show ?thesis unfolding stacked_def
    proof (intro conjI ballI)
      show "0 \<le> fst (barStep fmtDay hov m d st s)" using step(1) assms(1) v st by (simp add: stacked_def)
      show "sum_list (map bp_height (snd (barStep fmtDay hov m d st s))) = hyPos m 0 - hyPos m (fst (barStep fmtDay hov m d st s))"
        using step(1,2) assms(1) st by (simp add: stacked_def)
      show "fst (barStep fmtDay hov m d st s) = base + part d (ser_id s)"
        using step(1) assms(1) st by (simp add: stacked_def v_def)
      fix p assume "p \<in> set (snd (barStep fmtDay hov m d st s))"
      then consider "p \<in> set parts" | "bp_y p = hyPos m (acc + v)" "bp_height p = hyPos m acc - hyPos m (acc + v)"
        using step(3) by blast
      then show "hyPos m (fst (barStep fmtDay hov m d st s)) \<le> bp_y p" "bp_y p + bp_height p \<le> hyPos m 0" "0 < bp_height p"
        using step(1) assms(1) st pos low by (cases; force simp: stacked_def)+
    qed
  qed
qed

lemma foldl_stacked:
  assumes "0 < m" and "\<And>s. s \<in> set ss \<Longrightarrow> 0 \<le> part d (ser_id s)"
  shows "stacked m (sum_list (map (\<lambda>s. part d (ser_id s)) ss)) (foldl (barStep fmtDay hov m d) (0, []) ss)"
  using assms(2)
proof (induction ss rule: rev_induct)
  case Nil then show ?case by (simp add: stacked_def)
next
  case (snoc s ss)
  then show ?case using barStep_stacked [OF _ assms(1)] by simp
qed

section \<open>Properties\<close>

definition sample_energy :: daily_energy where
  "sample_energy = \<lparr>dy_nodes = [\<lparr>eg_id = ''grid_meter'', eg_role = EGrid\<rparr>, \<lparr>eg_id = ''solar'', eg_role = ESolar\<rparr>,
       \<lparr>eg_id = ''node_2'', eg_role = ELoad\<rparr>, \<lparr>eg_id = ''node_1'', eg_role = ELoad\<rparr>],
     dy_days = [\<lparr>ed_date = ''2026-01-01'', ed_kwh = map_of [(''grid_meter'', 4), (''solar'', -3), (''node_1'', 1), (''node_2'', 2)],
         ed_cost = None, ed_solar_kwh = None, ed_grid_kwh = None\<rparr>,
       \<lparr>ed_date = ''2026-01-02'', ed_kwh = Map.empty, ed_cost = None, ed_solar_kwh = None, ed_grid_kwh = None\<rparr>],
     dy_currency = None\<rparr>"

lemma sample_energy_ok: "streams_ok sample_energy" by code_simp

text \<open>
  C19.  The energy of a day adds up: the parts of the loads and the unmonitored part are
  non-negative and sum to the total of the day, the total is at least grid import less solar,
  and a day has no total exactly when no grid stream has data for it.
\<close>

theorem history_day_adds_up:
  assumes "streams_ok data" and "d \<in> set (dy_days data)"
  shows "sum_list (map (part (buildDay data d)) (loadIds data)) + part (buildDay data d) UNMONITORED_ID
      = default_to 0 (db_total (buildDay data d))
    \<and> (\<forall>i. 0 \<le> part (buildDay data d) i)
    \<and> (db_total (buildDay data d) = None \<longleftrightarrow> list_all (\<lambda>i. ed_kwh d i = None) (idsOf EGrid data))
    \<and> (\<forall>t. db_total (buildDay data d) = Some t \<longrightarrow> sumKwh d (idsOf EGrid data) - sumKwh d (idsOf ESolar data) \<le> t)"
  using parts_make_total [OF assms(1)] part_nonneg
  by (auto simp: buildDay_def Let_def list_ex_iff list_all_iff split: if_splits)

theorem history_day_adds_up_witness:
  "db_total (buildDay sample_energy (hd (dy_days sample_energy))) = Some 7
    \<and> sum_list (map (part (buildDay sample_energy (hd (dy_days sample_energy)))) (loadIds sample_energy))
      + part (buildDay sample_energy (hd (dy_days sample_energy))) UNMONITORED_ID = 7"
proof -
  have "hd (dy_days sample_energy) \<in> set (dy_days sample_energy)" by (simp add: sample_energy_def)
  from history_day_adds_up [OF sample_energy_ok this]
  have s: "sum_list (map (part (buildDay sample_energy (hd (dy_days sample_energy)))) (loadIds sample_energy))
      + part (buildDay sample_energy (hd (dy_days sample_energy))) UNMONITORED_ID
      = default_to 0 (db_total (buildDay sample_energy (hd (dy_days sample_energy))))" by blast
  have "db_total (buildDay sample_energy (hd (dy_days sample_energy))) = Some 7" by code_simp
  with s show ?thesis by simp
qed

text \<open>
  C26.  The rows of the usage table sum to its total row: there is one series per load and one
  for the unmonitored rest, which comes last, the loads are in descending order of their totals,
  and the totals sum to the grand total.
\<close>

theorem usage_table_adds_up:
  assumes "streams_ok data" and "h = buildHistory data labels"
  shows "sum_list (map ser_total (hs_series h)) = grandTotal (hs_days h)
    \<and> mset (map ser_id (hs_series h)) = mset (loadIds data) + {#UNMONITORED_ID#}
    \<and> ser_id (last (hs_series h)) = UNMONITORED_ID
    \<and> sorted_wrt (\<lambda>s t. ser_total t \<le> ser_total s) (butlast (hs_series h))"
proof (intro conjI)
  have "sum_list (map ser_total (hs_series h)) = sum_list (map (\<lambda>s. totalOf (hs_days h) (ser_id s)) (hs_series h))"
    by (intro sum_list_cong) (simp add: assms(2) series_total)
  also have "\<dots> = sum_list (map (\<lambda>d. sum_list (map (\<lambda>s. part d (ser_id s)) (hs_series h))) (hs_days h))"
    by (simp add: totalOf_sum sum_list_swap [of "\<lambda>d s. part d (ser_id s)"])
  also have "\<dots> = sum_list (map (\<lambda>d. default_to 0 (db_total d)) (hs_days h))"
    using day_over_series [OF assms(1)] assms(2) by (intro sum_list_cong) blast
  finally show "sum_list (map ser_total (hs_series h)) = grandTotal (hs_days h)" by (simp add: grandTotal_sum)
  show "mset (map ser_id (hs_series h)) = mset (loadIds data) + {#UNMONITORED_ID#}" unfolding assms(2) by (rule mset_series_ids)
  show "ser_id (last (hs_series h)) = UNMONITORED_ID" by (simp add: assms(2) buildHistory_def Let_def seriesFor_def)
  have "sorted (map (\<lambda>s. - ser_total s) (sort_key (\<lambda>s. - ser_total s) ss))" for ss :: "series list" by simp
  then have "sorted_wrt (\<lambda>s t. ser_total t \<le> ser_total s) (sort_key (\<lambda>s. - ser_total s) ss)" for ss :: "series list"
    by (simp only: sorted_map neg_le_iff_le)
  then show "sorted_wrt (\<lambda>s t. ser_total t \<le> ser_total s) (butlast (hs_series h))"
    by (simp add: assms(2) buildHistory_def Let_def)
qed

theorem usage_table_adds_up_witness:
  "sum_list (map ser_total (hs_series (buildHistory sample_energy Map.empty))) = 7"
proof -
  have "grandTotal (hs_days (buildHistory sample_energy Map.empty)) = 7" by code_simp
  with usage_table_adds_up [OF sample_energy_ok refl] show ?thesis by simp
qed

text \<open>
  C27.  The bar of a day is stacked without gap or overlap from the base line of the plot up to
  the total of the day on the axis of the chart: each part begins where the one below it ends;
  there is one part for each series with energy on that day, in the order of the series and as
  high as its energy; every part has a positive height and stays inside the plot.
\<close>

theorem bars_fill_their_total:
  assumes "streams_ok data" and "h = buildHistory data labels" and "d \<in> set (hs_days h)" and "db_total d = Some t"
  shows "sum_list (map bp_height (stackBar fmtDay hov (historyMax (hs_days h)) (hs_series h) d))
      = t / historyMax (hs_days h) * H_PLOT_H
    \<and> (\<forall>p\<in>set (stackBar fmtDay hov (historyMax (hs_days h)) (hs_series h) d).
        H_PAD_top \<le> bp_y p \<and> bp_y p + bp_height p \<le> H_PAD_top + H_PLOT_H \<and> 0 < bp_height p)
    \<and> piled (H_PAD_top + H_PLOT_H) (stackBar fmtDay hov (historyMax (hs_days h)) (hs_series h) d)
        (H_PAD_top + H_PLOT_H - t / historyMax (hs_days h) * H_PLOT_H)
    \<and> map (\<lambda>p. (bp_id p, bp_height p)) (stackBar fmtDay hov (historyMax (hs_days h)) (hs_series h) d)
        = map (\<lambda>s. (ser_id s, default_to 0 (db_parts d (ser_id s)) / historyMax (hs_days h) * H_PLOT_H))
            (filter (\<lambda>s. 0 < default_to 0 (db_parts d (ser_id s))) (hs_series h))"
proof -
  let ?m = "historyMax (hs_days h)" and ?b = "stackBar fmtDay hov (historyMax (hs_days h)) (hs_series h) d"
  have m: "0 < ?m" by (rule historyMax_ge(2))
  have "\<And>i. 0 \<le> part d i" using assms(2,3) part_nonneg by (auto simp: hs_days_build)
  then have st: "stacked ?m t (foldl (barStep fmtDay hov ?m d) (0, []) (hs_series h))"
    using foldl_stacked [OF m, of "hs_series h" d fmtDay hov] day_over_series [OF assms(1)] assms by simp
  have "t \<le> ?m" using dayMax_ge(1) [OF assms(3)] historyMax_ge(1) [of "hs_days h"] assms(4) by simp
  then have "H_PAD_top \<le> hyPos ?m t" using m H_PLOT_H_pos by (simp add: hyPos_def mult_left_le_one_le divide_le_eq)
  moreover have "hyPos ?m 0 = H_PAD_top + H_PLOT_H" by (simp add: hyPos_def)
  moreover have "piled (hyPos ?m 0) ?b (hyPos ?m t)"
    using foldl_piled [OF m, of fmtDay hov d "hs_series h"] st
    by (simp add: stacked_def stackBar_def)
  moreover have "hyPos ?m t = H_PAD_top + H_PLOT_H - t / ?m * H_PLOT_H" by (simp add: hyPos_def)
  moreover have "map (\<lambda>p. (bp_id p, bp_height p)) ?b
      = map (\<lambda>s. (ser_id s, part d (ser_id s) / ?m * H_PLOT_H)) (filter (\<lambda>s. 0 < part d (ser_id s)) (hs_series h))"
    using foldl_heights [OF m, of fmtDay hov d "hs_series h"] by (simp add: stackBar_def)
  moreover have "sum_list (map bp_height ?b) = t / ?m * H_PLOT_H"
    using st hyPos_diff [of ?m 0 t] by (simp add: stacked_def stackBar_def)
  moreover have "\<forall>p\<in>set ?b. hyPos ?m t \<le> bp_y p \<and> bp_y p + bp_height p \<le> hyPos ?m 0 \<and> 0 < bp_height p"
    using st unfolding stacked_def stackBar_def by blast
  ultimately show ?thesis unfolding part_def by fastforce
qed

theorem bars_fill_their_total_witness:
  "sum_list (map bp_height (stackBar id None (historyMax (hs_days (buildHistory sample_energy Map.empty)))
     (hs_series (buildHistory sample_energy Map.empty)) (buildDay sample_energy (hd (dy_days sample_energy)))))
   = 7 / 8 * H_PLOT_H"
proof -
  let ?h = "buildHistory sample_energy Map.empty" and ?d = "buildDay sample_energy (hd (dy_days sample_energy))"
  have "?d \<in> set (hs_days ?h)" by (simp add: hs_days_build) (simp add: sample_energy_def)
  moreover have "db_total ?d = Some 7" "historyMax (hs_days ?h) = 8" by code_simp+
  ultimately show ?thesis
    using bars_fill_their_total [OF sample_energy_ok refl, of ?d Map.empty 7 id None] by simp
qed

theorem history_axis_fits:
  "dayMax days \<le> historyMax days
    \<and> (\<exists>k::nat. 1 \<le> k \<and> historyMax days = of_nat k * historyStep days \<and> length (kwhTicks days) = Suc k
          \<and> (500 < dayMax days \<or> k \<le> 5))"
proof (intro conjI)
  define s where "s = historyStep days"
  define k where "k = nat (max 1 \<lceil>dayMax days / s\<rceil>)"
  have s: "0 < s" by (simp add: s_def historyStep_pos)
  have k: "historyMax days = of_nat k * s"
    using s by (auto simp: historyMax_def k_def s_def [symmetric] max_def of_nat_nat)
  have "(historyMax days + 1 / 10 ^ 9) / s = of_nat k + 1 / 10 ^ 9 / s" using s by (simp add: k add_divide_distrib)
  moreover have "0 \<le> 1 / 10 ^ 9 / s \<and> 1 / 10 ^ 9 / s < 1"
    using kwhStep_cases [of "if dayMax days = 0 then 1 else dayMax days"] by (auto simp: s_def historyStep_def)
  ultimately have "\<lfloor>(historyMax days + 1 / 10 ^ 9) / s\<rfloor> = int k" by (simp add: floor_eq_iff)
  then have "length (kwhTicks days) = Suc k" using s by (simp add: kwhTicks_def s_def [symmetric] length_historyTicks)
  moreover have "500 < dayMax days \<or> k \<le> 5"
  proof (rule disjCI)
    assume "\<not> k \<le> 5"
    show "500 < dayMax days"
    proof (rule ccontr)
    assume "\<not> 500 < dayMax days"
    then have "dayMax days \<le> 500" by simp
    then have "dayMax days / s \<le> 5"
      using kwhStep_spec [of "dayMax days"] s by (cases "dayMax days = 0") (auto simp: s_def historyStep_def)
    then have "\<lceil>dayMax days / s\<rceil> \<le> of_nat 5" by (simp add: ceiling_le_iff)
    then have "max 1 \<lceil>dayMax days / s\<rceil> \<le> 5" by simp
    then show False using \<open>\<not> k \<le> 5\<close> unfolding k_def by linarith
    qed
  qed
  ultimately show "\<exists>k::nat. 1 \<le> k \<and> historyMax days = of_nat k * historyStep days \<and> length (kwhTicks days) = Suc k
      \<and> (500 < dayMax days \<or> k \<le> 5)"
    using k by (intro exI [of _ k] conjI) (simp_all add: s_def [symmetric] k_def)
qed (rule historyMax_ge(1))

end
