(* ===== verification/PowerPage.thy ===== *)
theory PowerPage
  imports PowerChart PowerHistory FetchQueue
begin

text \<open>
  The power page (\<open>Power.tsx\<close>): which nodes get a chart, in which order, from which stream, and
  the life of one chart's request, which waits in the request queue and is aborted when the date
  changes.  \<open>loc\<close> stands for \<open>String.prototype.localeCompare\<close>.
\<close>

section \<open>The nodes connected to the consumer unit\<close>

definition POWER_CU :: string where "POWER_CU = ''consumer_unit''"

datatype node_role = Grid | Solar | Appliance | OtherRole

record connected_node =
  cn_graphId :: string
  cn_label :: string
  cn_role :: node_role

definition roleForHandle :: "string option \<Rightarrow> node_role" where
  "roleForHandle handle =
     (case handle of
        None \<Rightarrow> OtherRole
      | Some h \<Rightarrow>
          if h = ''grid'' then Grid
          else if starts_with ''solar'' h then Solar
          else if starts_with ''circuit'' h then Appliance
          else OtherRole)"

definition nodeLabel :: "saved_node option \<Rightarrow> string \<Rightarrow> string" where
  "nodeLabel node fallback =
     (case node of None \<Rightarrow> fallback | Some n \<Rightarrow> shown_label fallback (n_settings n))"

definition ROLE_ORDER :: "node_role \<Rightarrow> nat" where
  "ROLE_ORDER r = (case r of Grid \<Rightarrow> 0 | Solar \<Rightarrow> 1 | Appliance \<Rightarrow> 2 | OtherRole \<Rightarrow> 3)"

text \<open>\<open>new Map(nodes.map(...))\<close>: a later entry replaces an earlier one.\<close>

definition nodesById :: "saved_node list \<Rightarrow> (string \<rightharpoonup> saved_node)" where
  "nodesById nodes = foldl (\<lambda>m n. m(n_id n \<mapsto> n)) Map.empty nodes"

text \<open>The other end of an edge at the consumer unit, with the handle it is wired to.\<close>

definition cuEnd :: "saved_edge \<Rightarrow> (string \<times> string option) option" where
  "cuEnd e =
     (if se_source e = POWER_CU then Some (se_target e, se_sourceHandle e)
      else if se_target e = POWER_CU then Some (se_source e, se_targetHandle e)
      else None)"

definition connectStep :: "(string \<rightharpoonup> saved_node) \<Rightarrow> connected_node list \<Rightarrow> saved_edge \<Rightarrow> connected_node list" where
  "connectStep byId result e =
     (case cuEnd e of
        None \<Rightarrow> result
      | Some (otherId, cuHandle) \<Rightarrow>
          if otherId = [] \<or> otherId \<in> set (map cn_graphId result) then result
          else if cuHandle = Some ''tariff'' then result
          else result @ [\<lparr>cn_graphId = otherId, cn_label = nodeLabel (byId otherId) otherId,
                          cn_role = roleForHandle cuHandle\<rparr>])"

definition compareNodes :: "(string \<Rightarrow> string \<Rightarrow> int) \<Rightarrow> connected_node \<Rightarrow> connected_node \<Rightarrow> int" where
  "compareNodes loc a b =
     (let d = int (ROLE_ORDER (cn_role a)) - int (ROLE_ORDER (cn_role b))
      in if d \<noteq> 0 then d else loc (cn_label a) (cn_label b))"

text \<open>\<open>Array.prototype.sort\<close> with a comparison function is stable.\<close>

fun insert_by :: "('a \<Rightarrow> 'a \<Rightarrow> int) \<Rightarrow> 'a \<Rightarrow> 'a list \<Rightarrow> 'a list" where
  "insert_by cmp x [] = [x]"
| "insert_by cmp x (y # ys) = (if cmp x y \<le> 0 then x # y # ys else y # insert_by cmp x ys)"

definition sort_by :: "('a \<Rightarrow> 'a \<Rightarrow> int) \<Rightarrow> 'a list \<Rightarrow> 'a list" where
  "sort_by cmp xs = foldr (insert_by cmp) xs []"

definition connectedNodes :: "(string \<Rightarrow> string \<Rightarrow> int) \<Rightarrow> saved_node list \<Rightarrow> saved_edge list \<Rightarrow> connected_node list" where
  "connectedNodes loc nodes edges =
     sort_by (compareNodes loc) (foldl (connectStep (nodesById nodes)) [] edges)"

section \<open>The stream of a node\<close>

definition unreserved :: "char \<Rightarrow> bool" where
  "unreserved c \<longleftrightarrow>
     c \<in> set ''ABCDEFGHIJKLMNOPQRSTUVWXYZabcdefghijklmnopqrstuvwxyz0123456789-_.!~*'' \<or> c \<in> {CHR 0x27, CHR ''('', CHR '')''}"

definition percentByte :: "char \<Rightarrow> string" where
  "percentByte c = [CHR ''%'', hex_digit (of_char c div 16), hex_digit (of_char c mod 16)]"

definition encodeURIComponent :: "string \<Rightarrow> string" where
  "encodeURIComponent s = concat (map (\<lambda>c. if unreserved c then [c] else percentByte c) s)"

definition streamUrl :: "connected_node \<Rightarrow> string \<Rightarrow> string" where
  "streamUrl node date =
     (if cn_role node = Grid then ''/api/data/grid?date='' @ date
      else ''/api/data/node?id='' @ encodeURIComponent (cn_graphId node) @ ''&date='' @ date)"

definition cardTitle :: "connected_node \<Rightarrow> string" where
  "cardTitle node = cn_label node @ (if cn_role node = Grid then '' (Grid)'' else [])"

definition historyTitle :: string where
  "historyTitle = ''Usage history (last '' @ dec HISTORY_DAYS @ '' days)''"

definition historyUrl :: string where
  "historyUrl = ''/api/data/daily-energy?days='' @ dec HISTORY_DAYS"

section \<open>One chart's request\<close>

text \<open>
  \<open>ps_request\<close> is the call the section waits for in the request queue.  Showing another stream
  aborts it and makes a new call; an answer to a call that was aborted arrives as an \<open>AbortError\<close>,
  which is ignored.
\<close>

record profile_section =
  ps_records :: "power_record list"
  ps_loading :: bool
  ps_error :: "string option"
  ps_request :: "nat option"

definition profile_open :: profile_section where
  "profile_open = \<lparr>ps_records = [], ps_loading = True, ps_error = None, ps_request = None\<rparr>"

definition profile_show :: "string \<Rightarrow> profile_section \<times> queue \<Rightarrow> profile_section \<times> queue" where
  "profile_show url pq =
     (let (p, q) = pq;
          q1 = (case ps_request p of Some k \<Rightarrow> abort_call k q | None \<Rightarrow> q)
      in (p\<lparr>ps_loading := True, ps_error := None, ps_request := Some (length (q_calls q1))\<rparr>, queuedFetch url False q1))"

definition profile_answer :: "nat \<Rightarrow> outcome \<Rightarrow> power_record list answer \<Rightarrow> profile_section \<Rightarrow> profile_section" where
  "profile_answer k oc r p =
     (if isAbortError oc \<or> ps_request p \<noteq> Some k then p
      else (case checked r of
              Inl msg \<Rightarrow> p\<lparr>ps_error := Some msg, ps_loading := False\<rparr>
            | Inr rs \<Rightarrow> p\<lparr>ps_records := rs, ps_loading := False\<rparr>))"

datatype section_view = SectionError string | SectionLoading | SectionChart "chart option"

definition ProfileSection :: "(string \<Rightarrow> int) \<Rightarrow> (int \<Rightarrow> nat) \<Rightarrow> int \<Rightarrow> string \<Rightarrow> profile_section \<Rightarrow> section_view" where
  "ProfileSection midnight hourOf now date p =
     (case shownText (ps_error p) of
        Some e \<Rightarrow> SectionError e
      | None \<Rightarrow> if ps_loading p then SectionLoading
                else SectionChart (PowerChart midnight hourOf now date (ps_records p)))"

section \<open>The page\<close>

record power_page =
  pp_date :: "string option"
  pp_nodes :: "connected_node list"
  pp_labels :: "string \<rightharpoonup> string"
  pp_loading :: bool
  pp_error :: "string option"

definition power_open :: "string option \<Rightarrow> power_page" where
  "power_open date = \<lparr>pp_date = date, pp_nodes = [], pp_labels = Map.empty, pp_loading = True, pp_error = None\<rparr>"

definition todayString :: "nat \<Rightarrow> nat \<Rightarrow> nat \<Rightarrow> string" where
  "todayString y m d =
     dec y @ ''-'' @ pad_start 2 CHR ''0'' (dec (m + 1)) @ ''-'' @ pad_start 2 CHR ''0'' (dec d)"

definition pageDate :: "string \<Rightarrow> power_page \<Rightarrow> string" where
  "pageDate today p = default_to today (pp_date p)"

definition setDate :: "string \<Rightarrow> power_page \<Rightarrow> power_page" where
  "setDate value p = p\<lparr>pp_date := Some value\<rparr>"

definition labelsOf :: "saved_node list \<Rightarrow> (string \<rightharpoonup> string)" where
  "labelsOf nodes = foldl (\<lambda>m n. m(n_id n \<mapsto> nodeLabel (Some n) (n_id n))) Map.empty nodes"

definition power_loaded :: "(string \<Rightarrow> string \<Rightarrow> int) \<Rightarrow> (saved_node list option \<times> saved_edge list option) answer
    \<Rightarrow> power_page \<Rightarrow> power_page" where
  "power_loaded loc r p =
     (case checked r of
        Inl msg \<Rightarrow> p\<lparr>pp_error := Some msg, pp_loading := False\<rparr>
      | Inr (ns, es) \<Rightarrow>
          p\<lparr>pp_nodes := connectedNodes loc (default_to [] ns) (default_to [] es),
            pp_labels := labelsOf (default_to [] ns), pp_loading := False\<rparr>)"

datatype power_body = PowerText string | PowerCards "(string \<times> string) list"

definition powerBody :: "string \<Rightarrow> power_page \<Rightarrow> string option \<times> power_body" where
  "powerBody today p =
     (shownText (pp_error p),
      if pp_loading p then PowerText (''Loading'' @ ellipsis)
      else if pp_nodes p = [] then PowerText ''No connected devices. Wire a meter or appliance to the consumer unit on the Topology page.''
      else PowerCards (map (\<lambda>n. (cardTitle n, streamUrl n (pageDate today p))) (pp_nodes p)))"

text \<open>The head of the page: its title, and the day picked, which cannot be after today.\<close>

record power_head =
  ph_title :: string
  ph_value :: string
  ph_max :: string

definition powerHead :: "string \<Rightarrow> power_page \<Rightarrow> power_head" where
  "powerHead today p = \<lparr>ph_title = ''Power'', ph_value = pageDate today p, ph_max = today\<rparr>"

text \<open>A change of date: every chart whose call still waits aborts it and queues the new one.\<close>

definition changeDate :: "nat list \<Rightarrow> string list \<Rightarrow> queue \<Rightarrow> queue" where
  "changeDate old urls q =
     foldl (\<lambda>q u. queuedFetch u False q) (foldl (\<lambda>q k. abort_call k q) q old) urls"

section \<open>Facts\<close>

lemma mset_insert_by: "mset (insert_by cmp x ys) = add_mset x (mset ys)"
  by (induction ys) auto

lemma mset_sort_by: "mset (sort_by cmp xs) = mset xs"
  by (induction xs) (simp_all add: sort_by_def mset_insert_by)

lemma set_sort_by [simp]: "set (sort_by cmp xs) = set xs"
  by (metis mset_sort_by set_mset_mset)

lemma sorted_insert_by:
  assumes "\<And>x y. cmp x y \<le> 0 \<Longrightarrow> k x \<le> (k y :: nat)" and "\<And>x y. \<not> cmp x y \<le> 0 \<Longrightarrow> k y \<le> k x"
  shows "sorted (map k ys) \<Longrightarrow> sorted (map k (insert_by cmp x ys))"
proof (induction ys)
  case (Cons y ys)
  have "set (insert_by cmp x ys) = insert x (set ys)" by (metis mset_insert_by set_mset_add_mset_insert set_mset_mset)
  moreover have "\<forall>z\<in>set (y # ys). cmp x y \<le> 0 \<longrightarrow> k x \<le> k z"
    using Cons.prems assms(1) [of x y] by fastforce
  ultimately show ?case using Cons assms(2) [of x y] by auto
qed simp

lemma sorted_sort_by:
  assumes "\<And>x y. cmp x y \<le> 0 \<Longrightarrow> k x \<le> (k y :: nat)" and "\<And>x y. \<not> cmp x y \<le> 0 \<Longrightarrow> k y \<le> k x"
  shows "sorted (map k (sort_by cmp xs))"
  by (induction xs) (simp_all add: sort_by_def sorted_insert_by [of cmp k, OF assms])

lemma compareNodes_role:
  "compareNodes loc a b \<le> 0 \<Longrightarrow> ROLE_ORDER (cn_role a) \<le> ROLE_ORDER (cn_role b)"
  "\<not> compareNodes loc a b \<le> 0 \<Longrightarrow> ROLE_ORDER (cn_role b) \<le> ROLE_ORDER (cn_role a)"
  by (auto simp: compareNodes_def Let_def split: if_splits)

text \<open>
  The edges that give a node its chart: those between it and the consumer unit, in either direction,
  but for the tariff wiring, which is seen at the handle of the consumer unit.
\<close>

definition cuHandle :: "saved_edge \<Rightarrow> string option" where
  "cuHandle e = (if se_source e = ''consumer_unit'' then se_sourceHandle e else se_targetHandle e)"

definition metered_wire :: "string \<Rightarrow> saved_edge \<Rightarrow> bool" where
  "metered_wire i e \<longleftrightarrow>
     (if se_source e = ''consumer_unit'' then se_target e = i else se_target e = ''consumer_unit'' \<and> se_source e = i)
     \<and> cuHandle e \<noteq> Some ''tariff''"

lemma cuEnd_handle: "cuEnd e = Some (i, h) \<Longrightarrow> h = cuHandle e"
  by (auto simp: cuEnd_def cuHandle_def POWER_CU_def split: if_splits)

lemma metered_wire_cuEnd: "metered_wire i e \<longleftrightarrow> cuEnd e = Some (i, cuHandle e) \<and> cuHandle e \<noteq> Some ''tariff''"
  by (auto simp: metered_wire_def cuEnd_def cuHandle_def POWER_CU_def)

definition metered_at_cu :: "saved_edge list \<Rightarrow> string \<Rightarrow> bool" where
  "metered_at_cu edges i \<longleftrightarrow> i \<noteq> [] \<and> list_ex (metered_wire i) edges"

lemma connectStep_ids:
  "distinct (map cn_graphId r) \<Longrightarrow> distinct (map cn_graphId (connectStep m r e))"
  "i \<in> set (map cn_graphId (connectStep m r e)) \<longleftrightarrow> i \<in> set (map cn_graphId r) \<or> metered_at_cu [e] i"
  using cuEnd_handle [of e]
  by (auto simp: connectStep_def metered_at_cu_def metered_wire_cuEnd split: option.splits)

lemma connect_ids:
  "distinct (map cn_graphId (foldl (connectStep m) [] edges))"
  "i \<in> set (map cn_graphId (foldl (connectStep m) [] edges)) \<longleftrightarrow> metered_at_cu edges i"
proof (induction edges rule: rev_induct)
  case Nil
  { case 1 show ?case by simp }
  { case 2 show ?case by (simp add: metered_at_cu_def) }
next
  case (snoc e edges)
  { case 1 show ?case using snoc by (simp add: connectStep_ids(1)) }
  { case 2 show ?case using snoc(2) by (simp add: connectStep_ids(2) del: set_map) (auto simp: metered_at_cu_def) }
qed

text \<open>The role of a card is read off the handle of the first edge that gives its node a chart.\<close>

lemma find_append: "find P (xs @ ys) = (case find P xs of None \<Rightarrow> find P ys | Some x \<Rightarrow> Some x)"
  by (induction xs) auto

lemma connect_roles:
  "list_all (\<lambda>n. \<exists>e. find (metered_wire (cn_graphId n)) edges = Some e \<and> cn_role n = roleForHandle (cuHandle e))
     (foldl (connectStep m) [] edges)"
proof (induction edges rule: rev_induct)
  case (snoc e edges)
  let ?ns = "foldl (connectStep m) [] edges"
  have old: "\<exists>f. find (metered_wire (cn_graphId n)) (edges @ [e]) = Some f \<and> cn_role n = roleForHandle (cuHandle f)"
    if "n \<in> set ?ns" for n
    using snoc that by (fastforce simp: list_all_iff find_append)
  have new: "find (metered_wire i) (edges @ [e]) = Some e" and hd: "h = cuHandle e"
    if "cuEnd e = Some (i, h)" "i \<noteq> []" "i \<notin> set (map cn_graphId ?ns)" "h \<noteq> Some ''tariff''" for i h
  proof -
    show h: "h = cuHandle e" using cuEnd_handle that(1) .
    have "\<not> metered_at_cu edges i" using that(3) connect_ids(2) by blast
    then have "find (metered_wire i) edges = None" using that(2) by (auto simp: metered_at_cu_def list_ex_iff find_None_iff)
    moreover have "metered_wire i e" unfolding metered_wire_cuEnd using that(1,4) h by simp
    ultimately show "find (metered_wire i) (edges @ [e]) = Some e" by (simp add: find_append)
  qed
  have "n \<in> set ?ns \<or> (\<exists>h. cuEnd e = Some (cn_graphId n, h) \<and> cn_graphId n \<noteq> [] \<and> cn_graphId n \<notin> set (map cn_graphId ?ns)
      \<and> h \<noteq> Some ''tariff'' \<and> cn_role n = roleForHandle h)"
    if "n \<in> set (connectStep m ?ns e)" for n
    using that unfolding connectStep_def by (fastforce split: option.splits prod.splits if_splits)
  then show ?case using old new hd by (fastforce simp: list_all_iff)
qed simp

end
