(* ===== verification/PowerPageProps.thy ===== *)
theory PowerPageProps
  imports PowerPage
begin

text \<open>
  The power page shows one card per metered neighbour of the consumer unit, each card reads its own
  stream, and a change of date leaves no request of the old date in the queue.
\<close>

section \<open>Decoding a stream's id\<close>

definition hex_val :: "char \<Rightarrow> nat" where
  "hex_val c = (if is_digit c then digit_val c else of_char c - 55)"

fun decodeURIComponent :: "string \<Rightarrow> string" where
  "decodeURIComponent [] = []"
| "decodeURIComponent (c # s) =
     (if c = CHR ''%'' then
        (case s of a # b # r \<Rightarrow> char_of (hex_val a * 16 + hex_val b) # decodeURIComponent r | _ \<Rightarrow> [])
      else c # decodeURIComponent s)"

lemma hex_val_digit: "n < 16 \<Longrightarrow> hex_val (hex_digit n) = n"
proof -
  have "list_all (\<lambda>n. hex_val (hex_digit n) = n) [0..<16]" by code_simp
  then show "n < 16 \<Longrightarrow> ?thesis" by (simp add: list_all_iff)
qed

lemma unreserved_not_percent: "unreserved c \<Longrightarrow> c \<noteq> CHR ''%''"
  by (auto simp: unreserved_def)

lemma decode_percentByte: "decodeURIComponent (percentByte c @ s) = c # decodeURIComponent s"
proof -
  have c: "of_char c < (256::nat)" by (rule nat_of_char_less_256)
  then have "of_char c div 16 < (16::nat)" "of_char c mod 16 < (16::nat)"
    using less_mult_imp_div_less [of "of_char c" 16 16] by simp_all
  moreover have "of_char c div 16 * 16 + of_char c mod 16 = (of_char c :: nat)" by simp
  ultimately show ?thesis by (simp add: percentByte_def hex_val_digit del: div_mult_mod_eq)
qed

lemma decode_encode: "decodeURIComponent (encodeURIComponent s) = s"
proof (induction s)
  case Nil then show ?case by (simp add: encodeURIComponent_def)
next
  case (Cons c s)
  have "encodeURIComponent (c # s) = (if unreserved c then [c] else percentByte c) @ encodeURIComponent s"
    by (simp add: encodeURIComponent_def)
  then show ?case using Cons unreserved_not_percent [of c] decode_percentByte [of c] by (cases "unreserved c") auto
qed

section \<open>Properties\<close>

lemma starts_with_iff: "starts_with p s \<longleftrightarrow> (\<exists>t. s = p @ t)"
  by (auto simp: starts_with_def append_eq_conv_conj) (metis append_take_drop_id)

text \<open>
  C30.  The power page draws one card for each node wired to the consumer unit, on either end of
  an edge and however many edges join them, the tariff wiring excepted. The handle of the
  consumer unit that the first such edge is wired to gives the card its role (grid; solar for
  handles named solar...; appliance for circuit...; other), and the cards are ordered grid,
  solar, appliances, others.
\<close>

theorem one_card_per_neighbour:
  "distinct (map cn_graphId (connectedNodes loc nodes edges))
    \<and> (i \<in> set (map cn_graphId (connectedNodes loc nodes edges)) \<longleftrightarrow> i \<noteq> [] \<and> list_ex (metered_wire i) edges)
    \<and> list_all (\<lambda>n. \<exists>e. find (metered_wire (cn_graphId n)) edges = Some e
          \<and> cn_role n = (if cuHandle e = Some ''grid'' then Grid
                else if \<exists>s. cuHandle e = Some (''solar'' @ s) then Solar
                else if \<exists>s. cuHandle e = Some (''circuit'' @ s) then Appliance
                else OtherRole))
        (connectedNodes loc nodes edges)
    \<and> sorted (map (\<lambda>n. case cn_role n of Grid \<Rightarrow> 0 | Solar \<Rightarrow> 1 | Appliance \<Rightarrow> 2 | OtherRole \<Rightarrow> (3 :: nat))
        (connectedNodes loc nodes edges))"
proof (intro conjI)
  let ?ns = "foldl (connectStep (nodesById nodes)) [] edges"
  have ms: "mset (connectedNodes loc nodes edges) = mset ?ns" by (simp add: connectedNodes_def mset_sort_by)
  then have "mset (map cn_graphId (connectedNodes loc nodes edges)) = mset (map cn_graphId ?ns)" by simp
  then show "distinct (map cn_graphId (connectedNodes loc nodes edges))"
    using connect_ids(1) by (metis mset_eq_imp_distinct_iff)
  show "i \<in> set (map cn_graphId (connectedNodes loc nodes edges)) \<longleftrightarrow> i \<noteq> [] \<and> list_ex (metered_wire i) edges"
    using connect_ids(2) [of i "nodesById nodes" edges] by (simp add: connectedNodes_def metered_at_cu_def)
  have role: "roleForHandle h = (if h = Some ''grid'' then Grid else if \<exists>s. h = Some (''solar'' @ s) then Solar
      else if \<exists>s. h = Some (''circuit'' @ s) then Appliance else OtherRole)" for h
    by (cases h) (auto simp: roleForHandle_def starts_with_iff)
  have "set (connectedNodes loc nodes edges) = set ?ns" using ms by (metis set_mset_mset)
  then show "list_all (\<lambda>n. \<exists>e. find (metered_wire (cn_graphId n)) edges = Some e
          \<and> cn_role n = (if cuHandle e = Some ''grid'' then Grid
                else if \<exists>s. cuHandle e = Some (''solar'' @ s) then Solar
                else if \<exists>s. cuHandle e = Some (''circuit'' @ s) then Appliance
                else OtherRole))
        (connectedNodes loc nodes edges)"
    using connect_roles [of edges "nodesById nodes"] unfolding role list_all_iff by simp
  have "sorted (map (\<lambda>n. ROLE_ORDER (cn_role n)) (connectedNodes loc nodes edges))"
    unfolding connectedNodes_def by (rule sorted_sort_by [OF compareNodes_role])
  then show "sorted (map (\<lambda>n. case cn_role n of Grid \<Rightarrow> 0 | Solar \<Rightarrow> 1 | Appliance \<Rightarrow> 2 | OtherRole \<Rightarrow> (3 :: nat))
        (connectedNodes loc nodes edges))"
    by (simp only: ROLE_ORDER_def)
qed

theorem cards_read_their_own_stream:
  assumes "streamUrl a date = streamUrl b date" and "cn_role a \<noteq> Grid" and "cn_role b \<noteq> Grid"
  shows "cn_graphId a = cn_graphId b"
proof -
  have "encodeURIComponent (cn_graphId a) = encodeURIComponent (cn_graphId b)"
    using assms by (simp add: streamUrl_def)
  then show ?thesis by (metis decode_encode)
qed

theorem cards_read_their_own_stream_witness:
  "streamUrl \<lparr>cn_graphId = ''a b'', cn_label = [], cn_role = Solar\<rparr> ''2026-01-01''
    \<noteq> streamUrl \<lparr>cn_graphId = ''a%20b'', cn_label = [], cn_role = Appliance\<rparr> ''2026-01-01''"
  using cards_read_their_own_stream [of "\<lparr>cn_graphId = ''a b'', cn_label = [], cn_role = Solar\<rparr>" "''2026-01-01''"
    "\<lparr>cn_graphId = ''a%20b'', cn_label = [], cn_role = Appliance\<rparr>"] by auto

section \<open>A change of date\<close>

lemma abort_call_facts:
  "length (q_calls (abort_call k q)) = length (q_calls q)" "q_sent (abort_call k q) = q_sent q"
  "i < length (q_calls q) \<Longrightarrow> q_status (q_calls (abort_call k q) ! i) = q_status (q_calls q ! i)"
  "i < length (q_calls q) \<Longrightarrow> i = k \<or> q_aborted (q_calls q ! i) \<Longrightarrow> q_aborted (q_calls (abort_call k q) ! i)"
  by (cases "i = k"; simp add: abort_call_def)+

lemma abort_calls_facts:
  assumes "i < length (q_calls q)"
  shows "length (q_calls (foldl (\<lambda>q k. abort_call k q) q ks)) = length (q_calls q)
    \<and> q_sent (foldl (\<lambda>q k. abort_call k q) q ks) = q_sent q
    \<and> q_status (q_calls (foldl (\<lambda>q k. abort_call k q) q ks) ! i) = q_status (q_calls q ! i)
    \<and> (i \<in> set ks \<or> q_aborted (q_calls q ! i) \<longrightarrow> q_aborted (q_calls (foldl (\<lambda>q k. abort_call k q) q ks) ! i))"
  using assms
proof (induction ks arbitrary: q)
  case (Cons k ks)
  have "i < length (q_calls (abort_call k q))" using Cons.prems by (simp add: abort_call_facts)
  from Cons.IH [OF this] show ?case using Cons.prems abort_call_facts [of k q] abort_call_facts(3,4) [of i q k] by auto
qed simp

lemma queued_calls_facts:
  "q_sent (foldl (\<lambda>q u. queuedFetch u False q) q us) = q_sent q"
  "q_calls (foldl (\<lambda>q u. queuedFetch u False q) q us) =
     q_calls q @ map (\<lambda>u. \<lparr>q_input = u, q_aborted = False, q_status = Waiting\<rparr>) us"
  by (induction us arbitrary: q) (auto simp: queuedFetch_def)

text \<open>
  Changing the date of the power page drops the requests of the old date: those still
  waiting in the queue are never sent afterwards, however many sections ask for the new date.
\<close>

theorem change_of_date_drops_stale_requests:
  assumes "reachable q" and "list_all (\<lambda>k. k < length (q_calls q) \<and> is_waiting (q_calls q ! k)) old"
    and "queue_step\<^sup>*\<^sup>* (changeDate old urls q) q'" and "k \<in> set old"
  shows "k \<notin> set (q_sent q') \<and> q_status (q_calls q' ! k) \<in> {Waiting, Settled AbortError}"
proof -
  have k: "k < length (q_calls q)" "is_waiting (q_calls q ! k)" using assms(2,4) by (auto simp: list_all_iff)
  have "k \<notin> set (q_sent q)" using fetches.sent_started [OF assms(1)] k(2) by blast
  then have "doomed k (changeDate old urls q)"
    using k assms(4) abort_calls_facts [of k q old]
    by (simp add: doomed_def changeDate_def queued_calls_facts nth_append is_waiting_def)
  then have "doomed k q'" using assms(3) doomed_steps by blast
  then show ?thesis by (auto simp: doomed_def is_waiting_def)
qed

theorem change_of_date_drops_stale_requests_witness:
  "1 \<notin> set (q_sent (changeDate [1] [''/api/data/grid?date=2026-01-02''] example_queue))"
proof -
  have "list_all (\<lambda>k. k < length (q_calls example_queue) \<and> is_waiting (q_calls example_queue ! k)) [1]" by code_simp
  from change_of_date_drops_stale_requests [OF example_queue_reachable this rtranclp.rtrancl_refl, of 1]
  show ?thesis by simp
qed

end
