(* ===== verification/Forecast.thy ===== *)
theory Forecast
  imports Tariff PowerChart
begin

text \<open>
  The forecast page (\<open>Forecast.tsx\<close>): the solar and surplus forecasts, their charts, and the
  48-hour tariff chart.  \<open>hourOf t\<close> is the local hour of the epoch second \<open>t\<close>, \<open>intl\<close> the
  locale's currency formatter; instants are in milliseconds where the code calls \<open>Date.now()\<close>.
\<close>

section \<open>Calendar days\<close>

text \<open>\<open>toISOString().slice(0, 10)\<close>: the UTC calendar day of an instant, for the years 0 to 9999.\<close>

definition civil :: "int \<Rightarrow> int \<times> int \<times> int" where
  "civil days =
     (let z = days + 719468; era = z div 146097; doe = z - era * 146097;
          yoe = (doe - doe div 1460 + doe div 36524 - doe div 146096) div 365;
          doy = doe - (365 * yoe + yoe div 4 - yoe div 100);
          mp = (5 * doy + 2) div 153;
          d = doy - (153 * mp + 2) div 5 + 1;
          m = (if mp < 10 then mp + 3 else mp - 9)
      in (yoe + era * 400 + (if m \<le> 2 then 1 else 0), m, d))"

definition isoDay :: "int \<Rightarrow> string" where
  "isoDay ms =
     (let (y, m, d) = civil (ms div 86400000)
      in pad_start 4 CHR ''0'' (dec (nat y)) @ ''-'' @ pad_start 2 CHR ''0'' (dec (nat m)) @ ''-''
         @ pad_start 2 CHR ''0'' (dec (nat d)))"

definition forecast_today :: "int \<Rightarrow> string" where
  "forecast_today now = isoDay now"

text \<open>Power in kW with one decimal where it is not whole: \<open>Math.round(w / 1000 * 10) / 10\<close>.\<close>

definition tenthsKw :: "rat \<Rightarrow> string" where
  "tenthsKw w =
     (let n = math_round (w / 1000 * 10)
      in int_str (n div 10) @ (if n mod 10 = 0 then [] else CHR ''.'' # dec (nat (n mod 10))))"

definition F_PLOT_H :: rat where "F_PLOT_H = 220 - PAD_top - PAD_bottom"

section \<open>The solar chart\<close>

record estimate =
  es_time :: string
  es_watts :: rat

record bar =
  bar_x :: rat
  bar_y :: rat
  bar_w :: rat
  bar_h :: rat
  bar_color :: string
  bar_label :: "string option"

record bar_chart =
  bc_top :: string
  bc_bottom :: "string option"
  bc_bars :: "bar list"

text \<open>\<open>Math.max(...xs)\<close> of a list that is not empty.\<close>

definition maxOf :: "rat list \<Rightarrow> rat" where
  "maxOf xs = math_max (hd xs) (tl xs)"

definition forecastBar :: "estimate list \<Rightarrow> nat \<Rightarrow> estimate \<Rightarrow> bar" where
  "forecastBar estimates i e =
     (let maxW = maxOf (map es_watts estimates); n = length estimates; barW = PLOT_W / of_nat n;
          barH = (if maxW > 0 then (es_watts e / maxW) * F_PLOT_H else 0);
          x = PAD_left + of_nat i * barW
      in \<lparr>bar_x = x + 1, bar_y = PAD_top + F_PLOT_H - barH, bar_w = barW - 2, bar_h = barH, bar_color = ''#f59e0b'',
          bar_label = (if int i mod \<lceil>of_nat n / 12 :: rat\<rceil> = 0 then Some (take 5 (es_time e)) else None)\<rparr>)"

definition ForecastChart :: "estimate list \<Rightarrow> bar_chart option" where
  "ForecastChart estimates =
     (if filter (\<lambda>e. es_watts e > 0) estimates = [] then None
      else Some \<lparr>bc_top = tenthsKw (maxOf (map es_watts estimates)) @ ''kW'', bc_bottom = None,
             bc_bars = map (\<lambda>(i, e). forecastBar estimates i e) (enumerate 0 estimates)\<rparr>)"

section \<open>The surplus chart\<close>

record surplus_slot =
  sp_hour_ts :: int
  sp_surplus_w :: rat

definition surplusMax :: "surplus_slot list \<Rightarrow> rat" where
  "surplusMax slots = max (maxOf (map (\<lambda>s. \<bar>sp_surplus_w s\<bar>) slots)) 1"

definition surplusBar :: "(int \<Rightarrow> nat) \<Rightarrow> surplus_slot list \<Rightarrow> nat \<Rightarrow> surplus_slot \<Rightarrow> bar" where
  "surplusBar hourOf slots i s =
     (let barW = PLOT_W / of_nat (length slots); midY = PAD_top + F_PLOT_H / 2;
          frac = sp_surplus_w s / surplusMax slots; barH = \<bar>frac\<bar> * (F_PLOT_H / 2);
          x = PAD_left + of_nat i * barW
      in \<lparr>bar_x = x + 1, bar_y = (if sp_surplus_w s \<ge> 0 then midY - barH else midY), bar_w = barW - 2, bar_h = barH,
          bar_color = (if sp_surplus_w s \<ge> 0 then ''#10b981'' else ''#ef4444''),
          bar_label = (if i mod 3 = 0 then Some (hourLabel (hourOf (sp_hour_ts s))) else None)\<rparr>)"

definition SurplusChart :: "(int \<Rightarrow> nat) \<Rightarrow> surplus_slot list \<Rightarrow> bar_chart option" where
  "SurplusChart hourOf slots =
     (if slots = [] then None
      else Some \<lparr>bc_top = ''+'' @ tenthsKw (surplusMax slots) @ ''kW'',
             bc_bottom = Some (''-'' @ tenthsKw (surplusMax slots) @ ''kW''),
             bc_bars = map (\<lambda>(i, s). surplusBar hourOf slots i s) (enumerate 0 slots)\<rparr>)"

section \<open>The tariff chart\<close>

text \<open>Path commands; \<open>pathText\<close> prints them as the SVG path.\<close>

datatype path_cmd = MoveTo rat rat | HTo rat | VTo rat

fun cmdText :: "path_cmd \<Rightarrow> string" where
  "cmdText (MoveTo x y) = ''M'' @ toFixed 1 x @ '','' @ toFixed 1 y"
| "cmdText (HTo x) = '' H'' @ toFixed 1 x"
| "cmdText (VTo y) = '' V'' @ toFixed 1 y"

definition pathText :: "path_cmd list \<Rightarrow> string" where
  "pathText d = concat (map cmdText d)"

definition dayPrices :: "tariff_day \<Rightarrow> rat option list" where
  "dayPrices d =
     (if td_slots d \<noteq> [] then map (slotPrice d) [0..<length (td_slots d)] else replicate 96 None)"

definition tariffPrices :: "tariff_day list \<Rightarrow> rat option list" where
  "tariffPrices days = concat (map dayPrices days)"

definition knownPrices :: "rat option list \<Rightarrow> rat list" where
  "knownPrices prices = List.map_filter (\<lambda>p. p) prices"

definition tariffMin :: "rat list \<Rightarrow> rat" where
  "tariffMin known = math_min 0 known"

definition tariffMax :: "rat list \<Rightarrow> rat" where
  "tariffMax known = (let m = maxOf known * (11 / 10) in if m = 0 then 1 else m)"

definition tariffX :: "nat \<Rightarrow> rat \<Rightarrow> rat" where
  "tariffX n i = PAD_left + i * (PLOT_W / of_nat n)"

definition tariffY :: "rat \<Rightarrow> rat \<Rightarrow> rat \<Rightarrow> rat" where
  "tariffY yMin yMax p = PAD_top + F_PLOT_H - ((p - yMin) / (yMax - yMin)) * F_PLOT_H"

text \<open>
  The loop over the prices: \<open>i\<close> is the index of the first price that is left, \<open>d\<close> the path being
  built, \<open>runs\<close> the finished ones.
\<close>

fun tariffRuns :: "(nat \<Rightarrow> rat) \<Rightarrow> (rat \<Rightarrow> rat) \<Rightarrow> nat \<Rightarrow> path_cmd list \<Rightarrow> path_cmd list list \<Rightarrow> rat option list \<Rightarrow> path_cmd list list" where
  "tariffRuns x y i d runs [] = (if d \<noteq> [] then runs @ [d] else runs)"
| "tariffRuns x y i d runs (None # ps) =
     tariffRuns x y (Suc i) [] (if d \<noteq> [] then runs @ [d] else runs) ps"
| "tariffRuns x y i d runs (Some p # ps) =
     (let d1 = (if d \<noteq> [] then d @ [HTo (x i), VTo (y p)] else [MoveTo (x i) (y p)]);
          d2 = (if ps = [] \<or> hd ps = None then d1 @ [HTo (x (Suc i))] else d1)
      in tariffRuns x y (Suc i) d2 runs ps)"

record tariff_chart =
  tc_ticks :: "(rat \<times> string) list"
  tc_divider :: rat
  tc_runs :: "string list"
  tc_now :: rat
  tc_hours :: "(rat \<times> string) list"
  tc_days :: "(rat \<times> string) list"

text \<open>\<open>.replace('/kWh', '')\<close> on a unit price.\<close>

definition unitTick :: "intl \<Rightarrow> rat \<Rightarrow> nat option \<Rightarrow> string" where
  "unitTick intl t currency = fmtMoney intl t currency (if \<bar>t\<bar> < 1 then 3 else 2)"

definition TariffChart :: "intl \<Rightarrow> nat \<Rightarrow> tariff_day list \<Rightarrow> tariff_chart option" where
  "TariffChart intl now days =
     (let prices = tariffPrices days; known = knownPrices prices in
      if known = [] then None
      else
        let currency = (case find (\<lambda>d. td_currency d \<noteq> None) days of None \<Rightarrow> None | Some d \<Rightarrow> td_currency d);
            yMin = tariffMin known; yMax = tariffMax known; n = length prices;
            x = tariffX n; y = tariffY yMin yMax
        in Some \<lparr>tc_ticks = map (\<lambda>t. (y t, unitTick intl t currency)) [yMin, (yMin + yMax) / 2, yMax],
                 tc_divider = x 96,
                 tc_runs = map pathText (tariffRuns (\<lambda>i. x (of_nat i)) y 0 [] [] prices),
                 tc_now = x (of_nat now + 1 / 2),
                 tc_hours = map (\<lambda>h. (x (of_nat (h * 60) / of_nat SLOT_MINUTES), hourLabel (h mod 24))) [0, 6, 12, 18, 24, 30, 36, 42],
                 tc_days = [(x (96 / 2), ''Today''), (x (96 * (3 / 2)), ''Tomorrow'')]\<rparr>)"

section \<open>The tariff section\<close>

record tariff_section =
  ts_days :: "tariff_day list option"
  ts_error :: "string option"

definition tariff_open :: tariff_section where
  "tariff_open = \<lparr>ts_days = None, ts_error = None\<rparr>"

text \<open>\<open>Promise.all\<close> over today and tomorrow.\<close>

definition tariff_loaded :: "bool \<Rightarrow> tariff_day answer \<Rightarrow> tariff_day answer \<Rightarrow> tariff_section \<Rightarrow> tariff_section" where
  "tariff_loaded tomorrowFirst r1 r2 s =
     (case promiseAll tomorrowFirst (checked r1) (checked r2) of
        Inr (a, b) \<Rightarrow> s\<lparr>ts_days := Some [a, b]\<rparr>
      | Inl e \<Rightarrow> s\<lparr>ts_error := Some e\<rparr>)"

definition tariffSubtitle :: "tariff_section \<Rightarrow> string" where
  "tariffSubtitle s =
     (let texts = (case ts_days s of Some (d # _) \<Rightarrow> truthy_strs [default_to [] (td_provider d), default_to [] (td_label d)] | _ \<Rightarrow> [])
      in if texts \<noteq> [] then join ('' '' @ middot @ '' '') texts
         else ''Import price per kWh, from the assigned tariff device.'')"

definition nowPrice :: "nat \<Rightarrow> tariff_section \<Rightarrow> rat option" where
  "nowPrice slot s = (case ts_days s of Some (d # _) \<Rightarrow> slotPrice d slot | _ \<Rightarrow> None)"

datatype tariff_body = TariffNothing | TariffUnassigned | TariffDrawn "tariff_chart option"

definition TariffSection :: "intl \<Rightarrow> nat \<Rightarrow> tariff_section \<Rightarrow> string option \<times> string option \<times> tariff_body" where
  "TariffSection intl slot s =
     ((case nowPrice slot s of None \<Rightarrow> None
       | Some p \<Rightarrow> Some (fmtUnitPrice intl p (case ts_days s of Some (d # _) \<Rightarrow> td_currency d | _ \<Rightarrow> None))),
      shownText (ts_error s),
      (case ts_days s of
         None \<Rightarrow> TariffNothing
       | Some days \<Rightarrow>
           if days \<noteq> [] \<and> \<not> td_assigned (hd days) then TariffUnassigned
           else TariffDrawn (TariffChart intl slot days)))"

section \<open>The page\<close>

record forecast_result =
  fr_date :: string
  fr_estimates :: "estimate list"
  fr_total_wh :: rat

record surplus_forecast =
  sf_date :: string
  sf_slots :: "surplus_slot list"
  sf_learning :: "bool option"
  sf_usable_days :: "nat option"
  sf_mature_days :: "nat option"

record forecast_page =
  fp_loading :: bool
  fp_error :: "string option"
  fp_result :: "forecast_result option"
  fp_surplusLoading :: bool
  fp_surplusError :: "string option"
  fp_surplus :: "surplus_forecast option"

definition forecast_open :: forecast_page where
  "forecast_open = \<lparr>fp_loading = True, fp_error = None, fp_result = None,
     fp_surplusLoading = True, fp_surplusError = None, fp_surplus = None\<rparr>"

record solar_slot =
  so_hour_ts :: int
  so_power_w :: rat

record solar_forecast =
  slf_date :: string
  slf_slots :: "solar_slot list"

definition solarEstimate :: "(int \<Rightarrow> nat) \<Rightarrow> solar_slot \<Rightarrow> estimate" where
  "solarEstimate hourOf s = \<lparr>es_time = hourLabel (hourOf (so_hour_ts s)), es_watts = of_int (math_round (so_power_w s))\<rparr>"

definition solarLoaded :: "(int \<Rightarrow> nat) \<Rightarrow> (string \<times> (string + solar_forecast)) answer \<Rightarrow> forecast_page \<Rightarrow> forecast_page" where
  "solarLoaded hourOf r p =
     (case textChecked r of
        Inl msg \<Rightarrow> p\<lparr>fp_error := Some msg, fp_loading := False\<rparr>
      | Inr data \<Rightarrow>
          if slf_slots data = [] then p\<lparr>fp_result := None, fp_loading := False\<rparr>
          else p\<lparr>fp_result := Some \<lparr>fr_date = slf_date data,
                   fr_estimates = map (solarEstimate hourOf) (slf_slots data),
                   fr_total_wh = foldl (\<lambda>a s. a + so_power_w s) 0 (slf_slots data)\<rparr>,
                 fp_loading := False\<rparr>)"

text \<open>A 404 is the state ``still learning'', not an error.\<close>

definition surplusLoaded :: "(string \<times> (string + surplus_forecast)) answer \<Rightarrow> forecast_page \<Rightarrow> forecast_page" where
  "surplusLoaded r p =
     (case r of
        Answer st _ \<Rightarrow>
          if st = 404 then p\<lparr>fp_surplus := None, fp_surplusLoading := False\<rparr>
          else (case textChecked r of
                  Inl msg \<Rightarrow> p\<lparr>fp_surplusError := Some msg, fp_surplusLoading := False\<rparr>
                | Inr data \<Rightarrow> p\<lparr>fp_surplus := (if sf_slots data \<noteq> [] then Some data else None), fp_surplusLoading := False\<rparr>)
      | NoAnswer msg \<Rightarrow> p\<lparr>fp_surplusError := Some msg, fp_surplusLoading := False\<rparr>)"

definition totalKwh :: "forecast_result \<Rightarrow> string" where
  "totalKwh r = toFixed 2 (fr_total_wh r / 1000)"

definition peakWatts :: "forecast_result \<Rightarrow> rat" where
  "peakWatts r = maxOf (map es_watts (fr_estimates r))"

definition peakTime :: "forecast_result \<Rightarrow> string option" where
  "peakTime r =
     (if peakWatts r = 0 then None
      else (case find (\<lambda>e. es_watts e = peakWatts r) (fr_estimates r) of None \<Rightarrow> None | Some e \<Rightarrow> Some (es_time e)))"

definition peakText :: "forecast_result \<Rightarrow> string" where
  "peakText r =
     (if peakWatts r \<ge> 1000 then toFixed 2 (peakWatts r / 1000) @ '' kW'' else int_str \<lfloor>peakWatts r\<rfloor> @ '' W'')
     @ (case peakTime r of None \<Rightarrow> [] | Some t \<Rightarrow> if t = [] then [] else '' at '' @ t)"

text \<open>\<open>reduce\<close> keeps the first of the largest (smallest).\<close>

definition peakSurplus :: "surplus_slot list \<Rightarrow> surplus_slot" where
  "peakSurplus slots = foldl (\<lambda>a b. if sp_surplus_w b > sp_surplus_w a then b else a) (hd slots) (tl slots)"

definition peakDeficit :: "surplus_slot list \<Rightarrow> surplus_slot" where
  "peakDeficit slots = foldl (\<lambda>a b. if sp_surplus_w b < sp_surplus_w a then b else a) (hd slots) (tl slots)"

definition learningText :: "surplus_forecast \<Rightarrow> string option" where
  "learningText f =
     (if sf_learning f = Some True
      then Some (''Model still learning'' @
             (case (sf_usable_days f, sf_mature_days f) of
                (Some u, Some m) \<Rightarrow> '' '' @ em_dash @ '' '' @ dec u @ '' of '' @ dec m @ '' days of history''
              | _ \<Rightarrow> [])
             @ ''. Predictions improve as more days are logged.'')
      else None)"

definition surplusTexts :: "(int \<Rightarrow> nat) \<Rightarrow> surplus_forecast \<Rightarrow> string list" where
  "surplusTexts hourOf f =
     (let s = peakSurplus (sf_slots f); d = peakDeficit (sf_slots f)
      in [int_str (math_round (sp_surplus_w s)) @ '' W at '' @ hourLabel (hourOf (sp_hour_ts s)),
          int_str \<bar>math_round (sp_surplus_w d)\<bar> @ '' W at '' @ hourLabel (hourOf (sp_hour_ts d)),
          sf_date f])"

record forecast_view =
  fv_error :: "string option"
  fv_texts :: "string list"
  fv_chart :: "bar_chart option"
  fv_empty :: bool
  fv_surplusError :: "string option"
  fv_learning :: "string option"
  fv_surplusTexts :: "string list"
  fv_surplusChart :: "bar_chart option"
  fv_surplusEmpty :: bool

definition Forecast :: "(int \<Rightarrow> nat) \<Rightarrow> forecast_page \<Rightarrow> forecast_view" where
  "Forecast hourOf p =
     \<lparr>fv_error = shownText (fp_error p),
      fv_texts = (case fp_result p of None \<Rightarrow> [] | Some r \<Rightarrow> [totalKwh r @ '' kWh'', peakText r, fr_date r]),
      fv_chart = (case fp_result p of None \<Rightarrow> None | Some r \<Rightarrow> ForecastChart (fr_estimates r)),
      fv_empty = (fp_result p = None \<and> \<not> fp_loading p \<and> shownText (fp_error p) = None),
      fv_surplusError = shownText (fp_surplusError p),
      fv_learning = (case fp_surplus p of None \<Rightarrow> None | Some f \<Rightarrow> learningText f),
      fv_surplusTexts = (case fp_surplus p of None \<Rightarrow> [] | Some f \<Rightarrow> surplusTexts hourOf f),
      fv_surplusChart = (case fp_surplus p of None \<Rightarrow> None | Some f \<Rightarrow> SurplusChart hourOf (sf_slots f)),
      fv_surplusEmpty = (fp_surplus p = None \<and> \<not> fp_surplusLoading p \<and> shownText (fp_surplusError p) = None)\<rparr>"

end
