(* ===== verification/ForecastProps.thy ===== *)
theory ForecastProps
  imports Forecast
begin

text \<open>
  The forecast page's charts: the price line has one path per run of priced slots, the marker of the
  present stands in the slot whose price is quoted, and bars and prices stay in the plot area, the
  prices as long as one of them is not negative.
\<close>

section \<open>Runs of priced slots\<close>

fun blocksFrom :: "nat \<Rightarrow> rat option list \<Rightarrow> (nat \<times> rat list) list" where
  "blocksFrom s [] = []"
| "blocksFrom s (None # ps) = blocksFrom (Suc s) ps"
| "blocksFrom s (Some p # ps) =
     (if ps = [] \<or> hd ps = None then (s, [p]) # blocksFrom (Suc s) ps
      else (case blocksFrom (Suc s) ps of (t, vs) # bs \<Rightarrow> (s, p # vs) # bs | [] \<Rightarrow> [(s, [p])]))"

text \<open>The step line over a block: up to the right edge of its last slot.\<close>

fun stepLine :: "(nat \<Rightarrow> rat) \<Rightarrow> (rat \<Rightarrow> rat) \<Rightarrow> nat \<Rightarrow> rat list \<Rightarrow> path_cmd list" where
  "stepLine x y s [] = [HTo (x s)]"
| "stepLine x y s (v # vs) = [HTo (x s), VTo (y v)] @ stepLine x y (Suc s) vs"

definition blockPath :: "(nat \<Rightarrow> rat) \<Rightarrow> (rat \<Rightarrow> rat) \<Rightarrow> nat \<times> rat list \<Rightarrow> path_cmd list" where
  "blockPath x y b = MoveTo (x (fst b)) (y (hd (snd b))) # stepLine x y (Suc (fst b)) (tl (snd b))"

lemma block_head: "ps \<noteq> [] \<Longrightarrow> hd ps \<noteq> None \<Longrightarrow> \<exists>v vs bs. blocksFrom s ps = (s, v # vs) # bs"
  by (induction s ps rule: blocksFrom.induct) (auto split: list.splits)

lemma runs_closed:
  assumes "d \<noteq> []" and "ps = [] \<or> hd ps = None"
  shows "tariffRuns x y i d runs ps = tariffRuns x y i [] (runs @ [d]) ps"
  using assms by (cases ps) auto

lemma runs_blocks:
  "tariffRuns x y i [] runs ps = runs @ map (blockPath x y) (blocksFrom i ps)"
  "d \<noteq> [] \<Longrightarrow> ps \<noteq> [] \<Longrightarrow> hd ps \<noteq> None \<Longrightarrow> tariffRuns x y i d runs ps =
     runs @ (d @ stepLine x y i (snd (hd (blocksFrom i ps)))) # map (blockPath x y) (tl (blocksFrom i ps))"
proof (induction ps arbitrary: i d runs)
  case (Cons q ps)
  { case 1
    show ?case
    proof (cases q)
      case None then show ?thesis using Cons(1) by simp
    next
      case (Some p)
      show ?thesis
      proof (cases "ps = [] \<or> hd ps = None")
        case True
        then show ?thesis using Some Cons(1) by (simp add: Let_def runs_closed blockPath_def)
      next
        case False
        then obtain v vs bs where "blocksFrom (Suc i) ps = (Suc i, v # vs) # bs" using block_head by blast
        then show ?thesis using Some Cons(2) False by (simp add: Let_def blockPath_def)
      qed
    qed }
  { case 2
    then obtain p where q: "q = Some p" by auto
    show ?case
    proof (cases "ps = [] \<or> hd ps = None")
      case True
      then show ?thesis using q 2 Cons(1) by (simp add: Let_def runs_closed)
    next
      case False
      then obtain v vs bs where "blocksFrom (Suc i) ps = (Suc i, v # vs) # bs" using block_head by blast
      then show ?thesis using q 2 Cons(2) False by (simp add: Let_def)
    qed }
qed simp_all

definition pricedSlots :: "nat \<Rightarrow> rat option list \<Rightarrow> (nat \<times> rat) list" where
  "pricedSlots s ps = List.map_filter (\<lambda>(i, p). map_option (Pair i) p) (enumerate s ps)"

lemma blocks_priced: "concat (map (\<lambda>b. enumerate (fst b) (snd b)) (blocksFrom s ps)) = pricedSlots s ps"
proof (induction s ps rule: blocksFrom.induct)
  case (3 s p ps)
  show ?case
  proof (cases "ps = [] \<or> hd ps = None")
    case True
    then show ?thesis using 3 by (auto simp: pricedSlots_def List.map_filter_simps)
  next
    case False
    then obtain v vs bs where "blocksFrom (Suc s) ps = (Suc s, v # vs) # bs" using block_head by blast
    then show ?thesis using 3 False by (simp add: pricedSlots_def List.map_filter_simps)
  qed
qed (auto simp: pricedSlots_def List.map_filter_simps)

lemma blocks_apart:
  "sorted_wrt (\<lambda>a b. fst a + length (snd a) < fst b) (blocksFrom s ps) \<and> (\<forall>b\<in>set (blocksFrom s ps). s \<le> fst b)
    \<and> (ps = [] \<or> hd ps = None \<longrightarrow> (\<forall>b\<in>set (blocksFrom s ps). s < fst b))"
proof (induction s ps rule: blocksFrom.induct)
  case (3 s p ps)
  show ?case
  proof (cases "ps = [] \<or> hd ps = None")
    case True
    then show ?thesis using 3 by (auto simp: Suc_le_eq)
  next
    case False
    then obtain v vs bs where "blocksFrom (Suc s) ps = (Suc s, v # vs) # bs" using block_head by blast
    then show ?thesis using 3 False by auto
  qed
qed (auto simp: Suc_le_eq)

section \<open>Scaling\<close>

lemma maxOf_ge: "x \<in> set xs \<Longrightarrow> x \<le> maxOf xs"
  by (cases xs) (auto simp: maxOf_def intro: math_max_ge_base math_max_ge_mem)

lemma maxOf_in: "xs \<noteq> [] \<Longrightarrow> maxOf xs \<in> set xs"
  by (cases xs) (use math_max_in in \<open>auto simp: maxOf_def\<close>)

lemma F_PLOT_H_val: "F_PLOT_H = 168" by (simp add: F_PLOT_H_def plot_defs)

lemma fraction: "0 \<le> a \<Longrightarrow> a \<le> b \<Longrightarrow> 0 \<le> a / b \<and> a / b \<le> (1::rat)"
  by (cases "b = 0") (auto simp: divide_le_eq)

lemma tariffAxis:
  assumes "p \<in> set known" and "q \<in> set known" and "0 \<le> q"
  shows "tariffMin known \<le> p" "p \<le> tariffMax known" "tariffMin known < tariffMax known"
proof -
  have "tariffMin known \<le> 0" by (simp add: tariffMin_def math_min_le_base)
  moreover have m: "0 \<le> maxOf known" "p \<le> maxOf known" using maxOf_ge [of q known] maxOf_ge [of p known] assms by auto
  ultimately show "tariffMin known \<le> p" "p \<le> tariffMax known" "tariffMin known < tariffMax known"
    using assms(1) by (auto simp: tariffMin_def tariffMax_def Let_def intro: math_min_le_mem)
qed

section \<open>Properties\<close>

text \<open>
  C28.  The loop that draws the price line computes the specification: one step path per maximal
  run of priced slots, the runs in order and separated by at least one slot without a price, and
  together exactly the priced slots.
\<close>

theorem price_line_is_the_priced_runs:
  "tariffRuns x y 0 [] [] prices = map (blockPath x y) (blocksFrom 0 prices)
    \<and> concat (map (\<lambda>b. enumerate (fst b) (snd b)) (blocksFrom 0 prices)) = pricedSlots 0 prices
    \<and> sorted_wrt (\<lambda>a b. fst a + length (snd a) < fst b) (blocksFrom 0 prices)"
  using runs_blocks(1) [of x y 0 "[]" prices] blocks_priced [of 0 prices] blocks_apart [of 0 prices] by simp

theorem prices_stay_in_the_plot:
  assumes "p \<in> set (knownPrices prices)" and "q \<in> set (knownPrices prices)" and "0 \<le> q"
  shows "PAD_top \<le> tariffY (tariffMin (knownPrices prices)) (tariffMax (knownPrices prices)) p
    \<and> tariffY (tariffMin (knownPrices prices)) (tariffMax (knownPrices prices)) p \<le> PAD_top + F_PLOT_H"
proof -
  let ?lo = "tariffMin (knownPrices prices)" and ?hi = "tariffMax (knownPrices prices)"
  define f where "f = (p - ?lo) / (?hi - ?lo)"
  have "0 \<le> f \<and> f \<le> 1" unfolding f_def using tariffAxis [OF assms] by (intro fraction) auto
  then show ?thesis by (simp add: tariffY_def f_def [symmetric] F_PLOT_H_val)
qed

theorem prices_stay_in_the_plot_witness:
  "PAD_top \<le> tariffY (tariffMin (knownPrices [Some (-5), None, Some 20])) (tariffMax (knownPrices [Some (-5), None, Some 20])) (-5)"
proof -
  have "-5 \<in> set (knownPrices [Some (-5), None, Some 20])" "20 \<in> set (knownPrices [Some (-5), None, Some 20])"
    by (simp_all add: knownPrices_def List.map_filter_simps)
  from prices_stay_in_the_plot [OF this] show ?thesis by simp
qed

theorem negative_prices_leave_the_plot:
  "tariffY (tariffMin (knownPrices [Some (-10), Some (-5)])) (tariffMax (knownPrices [Some (-10), Some (-5)])) (-5) < PAD_top
    \<and> tariffMax (knownPrices [Some (-10)]) < tariffMin (knownPrices [Some (-10)])"
  by code_simp

theorem marker_stands_in_the_quoted_slot:
  assumes "hours < 24" and "minutes < 60" and "length (td_slots a) = 96" and "length (td_slots b) = 96"
    and "now = currentSlot hours minutes" and "TariffChart intl now [a, b] = Some c"
  shows "tariffX 192 (of_nat now) < tc_now c \<and> tc_now c < tariffX 192 (of_nat (Suc now))
    \<and> PAD_left \<le> tc_now c \<and> tc_now c < tc_divider c
    \<and> tariffPrices [a, b] ! now = nowPrice now \<lparr>ts_days = Some [a, b], ts_error = None\<rparr>"
proof -
  have now: "now < 96" using currentSlot_bounds(1) [OF assms(1,2)] assms(5) by simp
  have len: "length (tariffPrices [a, b]) = 192" using assms(3,4) by (auto simp: tariffPrices_def dayPrices_def)
  have c: "tc_now c = tariffX 192 (of_nat now + 1 / 2)" "tc_divider c = tariffX 192 96"
    using assms(6) by (auto simp: TariffChart_def Let_def len split: if_splits)
  have "(of_nat now :: rat) \<le> 95" using now by simp
  moreover have "tariffPrices [a, b] ! now = slotPrice a now"
  proof -
    have "td_slots a \<noteq> []" using assms(3) by auto
    then show ?thesis using now assms(3) by (simp add: tariffPrices_def dayPrices_def nth_append)
  qed
  ultimately show ?thesis
    by (simp add: c tariffX_def plot_defs nowPrice_def algebra_simps)
qed

definition flat_day :: tariff_day where
  "flat_day = \<lparr>td_date = ''2026-01-01'', td_assigned = True, td_provider = None, td_label = None, td_currency = Some 826,
     td_decimals = Some 2, td_unit = Some 0, td_slots = replicate 96 (Some 20)\<rparr>"

theorem marker_stands_in_the_quoted_slot_witness:
  "tariffPrices [flat_day, flat_day] ! currentSlot 13 44 = Some (1 / 5)"
proof -
  have "knownPrices (tariffPrices [flat_day, flat_day]) \<noteq> []" by code_simp
  then obtain c where c: "TariffChart (\<lambda>_ _ _. None) (currentSlot 13 44) [flat_day, flat_day] = Some c"
    by (auto simp: TariffChart_def Let_def)
  have "length (td_slots flat_day) = 96" by (simp add: flat_day_def)
  from marker_stands_in_the_quoted_slot [OF _ _ this this refl c]
  have "tariffPrices [flat_day, flat_day] ! currentSlot 13 44
    = nowPrice (currentSlot 13 44) \<lparr>ts_days = Some [flat_day, flat_day], ts_error = None\<rparr>" by simp
  also have "\<dots> = Some (1 / 5)" by code_simp
  finally show ?thesis .
qed

theorem surplus_bars_stay_on_their_side:
  assumes "SurplusChart hourOf slots = Some c" and "i < length slots"
  shows "length (bc_bars c) = length slots
    \<and> (if sp_surplus_w (slots ! i) \<ge> 0
       then bar_y (bc_bars c ! i) + bar_h (bc_bars c ! i) = PAD_top + F_PLOT_H / 2 \<and> PAD_top \<le> bar_y (bc_bars c ! i)
       else bar_y (bc_bars c ! i) = PAD_top + F_PLOT_H / 2
            \<and> bar_y (bc_bars c ! i) + bar_h (bc_bars c ! i) \<le> PAD_top + F_PLOT_H)
    \<and> bar_h (bc_bars c ! i) * surplusMax slots = \<bar>sp_surplus_w (slots ! i)\<bar> * (F_PLOT_H / 2)"
proof -
  have c: "bc_bars c = map (\<lambda>(i, s). surplusBar hourOf slots i s) (enumerate 0 slots)"
    using assms by (auto simp: SurplusChart_def split: if_splits)
  have b: "bc_bars c ! i = surplusBar hourOf slots i (slots ! i)" using assms(2) by (simp add: c nth_enumerate_eq)
  have m: "\<bar>sp_surplus_w (slots ! i)\<bar> \<le> surplusMax slots" "1 \<le> surplusMax slots"
    using maxOf_ge [of "\<bar>sp_surplus_w (slots ! i)\<bar>" "map (\<lambda>s. \<bar>sp_surplus_w s\<bar>) slots"] assms(2)
    by (auto simp: surplusMax_def)
  define f where "f = \<bar>sp_surplus_w (slots ! i) / surplusMax slots\<bar>"
  have f: "0 \<le> f \<and> f \<le> 1" "f * surplusMax slots = \<bar>sp_surplus_w (slots ! i)\<bar>"
    using fraction [of "\<bar>sp_surplus_w (slots ! i)\<bar>" "surplusMax slots"] m by (auto simp: f_def abs_divide)
  have "bar_h (bc_bars c ! i) = f * (F_PLOT_H / 2)"
    "bar_y (bc_bars c ! i) = (if sp_surplus_w (slots ! i) \<ge> 0 then PAD_top + F_PLOT_H / 2 - f * (F_PLOT_H / 2) else PAD_top + F_PLOT_H / 2)"
    by (simp_all add: b surplusBar_def Let_def f_def)
  then show ?thesis using f by (simp add: c F_PLOT_H_val)
qed

theorem surplus_bars_stay_on_their_side_witness:
  "PAD_top \<le> bar_y (bc_bars (the (SurplusChart (\<lambda>_. 0) [\<lparr>sp_hour_ts = 0, sp_surplus_w = 500\<rparr>, \<lparr>sp_hour_ts = 3600, sp_surplus_w = -1500\<rparr>])) ! 0)"
proof -
  let ?s = "[\<lparr>sp_hour_ts = 0, sp_surplus_w = 500\<rparr>, \<lparr>sp_hour_ts = 3600, sp_surplus_w = -1500\<rparr>]"
  obtain c where c: "SurplusChart (\<lambda>_. 0) ?s = Some c" by (auto simp: SurplusChart_def)
  from surplus_bars_stay_on_their_side [OF c, of 0] show ?thesis by (simp add: c)
qed

text \<open>The solar page asks for the UTC day, not the local one: an hour after midnight in summer time.\<close>

lemma forecast_day_is_utc:
  "civil (1781566200000 div 86400000) = (2026, 6, 15)
    \<and> civil ((1781566200000 - (-60) * 60000) div 86400000) = (2026, 6, 16)"
  by code_simp

end
