(* ===== verification/NodeViews.thy ===== *)
theory NodeViews
  imports Canvas Tariff WebSocketHook
begin

text \<open>
  What the canvas draws: the views of the nodes (\<open>Topology.tsx\<close>), the warning of the Unallocated
  node with its timer, and the animated edge (\<open>PowerFlowEdge.tsx\<close>).
  Bezier paths and path lengths come from the drawing library and the browser: they are parameters.
\<close>

section \<open>Readings\<close>

definition fmt :: "rat option \<Rightarrow> string \<Rightarrow> string" where
  "fmt v unit = (case v of None \<Rightarrow> em_dash | Some x \<Rightarrow> toFixed 1 (x / 1000) @ '' '' @ unit)"

definition CU_CIRCUITS :: "nat list" where "CU_CIRCUITS = [0..<10]"

text \<open>A handle: its id, whether it is a source, whether the user may wire it, its offset in percent.\<close>

record handle =
  hd_id :: string
  hd_source :: bool
  hd_connectable :: bool
  hd_top :: "rat option"

definition circuitHandles :: "nat \<Rightarrow> handle list" where
  "circuitHandles n =
     map (\<lambda>i. \<lparr>hd_id = ''circuit_'' @ dec (i + 1), hd_source = True, hd_connectable = True,
               hd_top = Some (of_nat ((i + 1) * 100) / of_nat (n + 1))\<rparr>) [0..<n]"

definition ConsumerUnitNode :: "handle list" where
  "ConsumerUnitNode =
     [\<lparr>hd_id = ''grid'', hd_source = False, hd_connectable = True, hd_top = Some 30\<rparr>,
      \<lparr>hd_id = ''tariff'', hd_source = False, hd_connectable = True, hd_top = Some 70\<rparr>,
      \<lparr>hd_id = ''solar_input'', hd_source = False, hd_connectable = True, hd_top = None\<rparr>,
      \<lparr>hd_id = ''unallocated'', hd_source = True, hd_connectable = False, hd_top = None\<rparr>]
     @ circuitHandles (length CU_CIRCUITS)"

definition SubConsumerUnitNode :: "node_data \<Rightarrow> handle list" where
  "SubConsumerUnitNode d =
     \<lparr>hd_id = ''power-in'', hd_source = False, hd_connectable = True, hd_top = None\<rparr>
     # circuitHandles (default_to 2 (nd_circuits d))"

text \<open>The enabled state of the \<open>-\<close> and \<open>+\<close> buttons of a sub consumer unit.\<close>

definition circuitButtons :: "node_data \<Rightarrow> bool \<times> bool" where
  "circuitButtons d =
     (let circuits = default_to 2 (nd_circuits d) in (\<not> circuits \<le> 1, \<not> circuits \<ge> 8))"

definition STATUS_BADGE :: "load_status \<Rightarrow> (string \<times> string \<times> string) option" where
  "STATUS_BADGE s =
     (case s of
        Standby \<Rightarrow> Some (''Standby'', ''#fef3c7'', ''#92400e'')
      | Off \<Rightarrow> Some (''Off'', ''#e2e8f0'', ''#475569'')
      | Running \<Rightarrow> None)"

text \<open>Price in force and the cost per hour of the import; nothing without a price.\<close>

definition ImportCost :: "intl \<Rightarrow> current_price \<Rightarrow> rat option \<Rightarrow> (string \<times> string) option" where
  "ImportCost intl c powerMw =
     (case useCurrentPrice c of
        (None, _) \<Rightarrow> None
      | (Some price, currency) \<Rightarrow>
          let importKw = (case powerMw of None \<Rightarrow> 0 | Some p \<Rightarrow> if p > 0 then p / 1000000 else 0)
          in Some (fmtUnitPrice intl price currency, fmtMoney intl (importKw * price) currency 2 @ ''/h''))"

text \<open>The handle is the role: a meter wired to the consumer unit's grid handle is the grid meter.\<close>

definition isGridMeter :: "string \<Rightarrow> edge list \<Rightarrow> bool" where
  "isGridMeter i es \<longleftrightarrow>
     list_ex (\<lambda>e. e_source e = i \<and> e_sourceHandle e = Some ''power-out'' \<and> e_target e = CU_ID
                 \<and> e_targetHandle e = Some ''grid'') es"

record device_view =
  dw_title :: string
  dw_badge :: "(string \<times> string) option"
  dw_rows :: "(string \<times> string) list"

definition fieldText :: "(power_measurement \<Rightarrow> rat option) \<Rightarrow> node_data \<Rightarrow> string \<Rightarrow> string" where
  "fieldText f d unit = fmt (case nd_power d of None \<Rightarrow> None | Some p \<Rightarrow> f p) unit"

definition DeviceNode :: "intl \<Rightarrow> current_price \<Rightarrow> edge list \<Rightarrow> node \<Rightarrow> device_view" where
  "DeviceNode intl c es n =
     (let d = c_data n;
          price = (if isGridMeter (c_id n) es then ImportCost intl c (case nd_power d of None \<Rightarrow> None | Some p \<Rightarrow> pm_power p) else None)
      in \<lparr>dw_title = ''0x'' @ (case nd_nodeId d of None \<Rightarrow> [] | Some k \<Rightarrow> hex_upper k) @ '' | ''
             @ (case nd_endpointId d of None \<Rightarrow> [] | Some k \<Rightarrow> dec k) @ '' | '' @ nd_label d,
          dw_badge = (case nd_status d of None \<Rightarrow> None
             | Some s \<Rightarrow> (case STATUS_BADGE s of None \<Rightarrow> None
                 | Some (text, _, _) \<Rightarrow> Some (text, toFixed 1 (default_to 0 (nd_standbyW d)) @ '' W''))),
          dw_rows = [(''V'', fieldText pm_voltage d ''V''), (''I'', fieldText pm_current d ''A''), (''P'', fieldText pm_power d ''W'')]
             @ (case price of None \<Rightarrow> [] | Some (p, k) \<Rightarrow> [(''Price'', p), (''Cost'', k)])\<rparr>)"

definition SolarInverterNode :: "node_data \<Rightarrow> (string \<times> string) list" where
  "SolarInverterNode d = [(''V'', fieldText pm_voltage d ''V''), (''P'', fieldText pm_power d ''W'')]"

definition PvStringNode :: "node_data \<Rightarrow> (string \<times> string) list" where
  "PvStringNode d = [(''DC'', fieldText pm_power d ''W'')]"

definition TariffNode :: "intl \<Rightarrow> current_price \<Rightarrow> string" where
  "TariffNode intl c =
     (case useCurrentPrice c of (None, _) \<Rightarrow> em_dash | (Some p, cur) \<Rightarrow> fmtUnitPrice intl p cur)"

section \<open>The battery\<close>

record battery_source =
  bs_known :: bool
  bs_solar_pct :: "rat option"
  bs_grid_pct :: "rat option"

text \<open>The last answer of \<open>/api/battery/source\<close>; failed requests leave it as it is.\<close>

definition source_loaded :: "battery_source answer \<Rightarrow> battery_source option \<Rightarrow> battery_source option" where
  "source_loaded r s = (case checked r of Inl _ \<Rightarrow> s | Inr d \<Rightarrow> Some d)"

definition useBatterySource :: "battery_source option \<Rightarrow> (rat \<times> rat) option" where
  "useBatterySource s =
     (case s of
        None \<Rightarrow> None
      | Some b \<Rightarrow>
          (case (bs_known b, bs_solar_pct b, bs_grid_pct b) of
             (True, Some sp, Some gp) \<Rightarrow> Some (sp, gp)
           | _ \<Rightarrow> None))"

record battery_view =
  bv_label :: string
  bv_color :: string
  bv_soc :: "(string \<times> string \<times> rat) option"
  bv_source :: "(rat \<times> rat \<times> string) option"
  bv_split :: "(rat \<times> rat) option"

definition socColor :: "rat \<Rightarrow> string" where
  "socColor pct = (if pct \<ge> 50 then ''#3b6d11'' else if pct \<ge> 20 then ''#b45309'' else ''#a32d2d'')"

definition BatteryNode :: "(rat \<times> rat) option \<Rightarrow> node_data \<Rightarrow> battery_view" where
  "BatteryNode source d =
     (let w = (case nd_power d of None \<Rightarrow> None | Some p \<Rightarrow> pm_power p);
          discharging = (case w of None \<Rightarrow> False | Some x \<Rightarrow> x < 0);
          flowing = (case w of None \<Rightarrow> False | Some x \<Rightarrow> x \<noteq> 0);
          magnitude = fmt (map_option abs w) ''W''
      in \<lparr>bv_label = (if flowing then (if discharging then ''Discharging '' else ''Charging '') @ magnitude else ''Idle''),
          bv_color = (if flowing then if discharging then ''#a32d2d'' else ''#3b6d11'' else ''#94a3b8''),
          bv_soc = (case nd_battery d of None \<Rightarrow> None
             | Some pct \<Rightarrow> Some (int_str (math_round pct) @ ''%'', socColor pct, pct)),
          bv_source = (case source of None \<Rightarrow> None
             | Some (sp, gp) \<Rightarrow> Some (sp, gp, int_str (math_round sp) @ ''% solar'' @ int_str (100 - math_round sp) @ ''% grid'')),
          bv_split = (case (discharging, w, source) of
               (True, Some x, Some (sp, gp)) \<Rightarrow> Some (- x * sp / 100, - x * gp / 100)
             | _ \<Rightarrow> None)\<rparr>)"

section \<open>The Unallocated node's warning\<close>

definition UNALLOCATED_NEGATIVE_W :: rat where "UNALLOCATED_NEGATIVE_W = -50"
definition UNALLOCATED_NEGATIVE_HOLD_MS :: nat where "UNALLOCATED_NEGATIVE_HOLD_MS = 30000"

definition remainderNegative :: "rat option \<Rightarrow> bool" where
  "remainderNegative rawKw = (case rawKw of None \<Rightarrow> False | Some r \<Rightarrow> r * 1000 < UNALLOCATED_NEGATIVE_W)"

text \<open>
  The timer of the effect: when it is due, and what it sets.  A timer that is due runs before the
  next reading is rendered.
\<close>

record unallocated =
  ua_negative :: bool
  ua_timer :: "(nat \<times> bool) option"
  ua_warn :: bool

definition startTimer :: "nat \<Rightarrow> bool \<Rightarrow> unallocated \<Rightarrow> unallocated" where
  "startTimer t neg s =
     s\<lparr>ua_negative := neg, ua_timer := Some (t + (if neg then UNALLOCATED_NEGATIVE_HOLD_MS else 0), neg)\<rparr>"

definition unallocated_mount :: "nat \<Rightarrow> rat option \<Rightarrow> unallocated" where
  "unallocated_mount t raw =
     startTimer t (remainderNegative raw) \<lparr>ua_negative = False, ua_timer = None, ua_warn = False\<rparr>"

definition fireTimer :: "nat \<Rightarrow> unallocated \<Rightarrow> unallocated" where
  "fireTimer t s =
     (case ua_timer s of
        None \<Rightarrow> s
      | Some (due, v) \<Rightarrow> if due \<le> t then s\<lparr>ua_warn := v, ua_timer := None\<rparr> else s)"

definition unallocated_read :: "nat \<times> rat option \<Rightarrow> unallocated \<Rightarrow> unallocated" where
  "unallocated_read r s =
     (let s1 = fireTimer (fst r) s; neg = remainderNegative (snd r)
      in if neg = ua_negative s1 then s1 else startTimer (fst r) neg s1)"

definition unallocatedText :: "rat option \<Rightarrow> string" where
  "unallocatedText rawKw = (case rawKw of None \<Rightarrow> em_dash | Some r \<Rightarrow> toFixed 1 (max 0 r * 1000) @ '' W'')"

section \<open>The animated edge\<close>

text \<open>A JavaScript number that may be \<open>NaN\<close>.\<close>

datatype jnum = Num rat | NaN

definition CHEVRON_SPACING :: rat where "CHEVRON_SPACING = 30"
definition SPEED :: rat where "SPEED = 80"
definition MIN_SIZE :: rat where "MIN_SIZE = 4"
definition MAX_SIZE :: rat where "MAX_SIZE = 14"
definition MIN_KW :: rat where "MIN_KW = 0"
definition MAX_KW :: rat where "MAX_KW = 10"

definition kwToChevronSize :: "jnum option \<Rightarrow> jnum" where
  "kwToChevronSize kw =
     (case kw of
        None \<Rightarrow> Num 8
      | Some NaN \<Rightarrow> NaN
      | Some (Num k) \<Rightarrow>
          Num (MIN_SIZE + max 0 (min 1 ((k - MIN_KW) / (MAX_KW - MIN_KW))) * (MAX_SIZE - MIN_SIZE)))"

text \<open>\<open>Math.abs(undefined)\<close> is \<open>NaN\<close>.\<close>

definition js_abs :: "rat option \<Rightarrow> jnum" where
  "js_abs x = (case x of None \<Rightarrow> NaN | Some k \<Rightarrow> Num \<bar>k\<bar>)"

record flow_view =
  fw_idle :: bool
  fw_reverse :: bool
  fw_size :: jnum
  fw_count :: nat
  fw_duration :: rat
  fw_begins :: "rat list"
  fw_label :: "string option"

text \<open>\<open>pathLength\<close> is the length of the drawn path.\<close>

definition PowerFlowEdge :: "rat \<Rightarrow> rat option \<Rightarrow> bool option \<Rightarrow> flow_view" where
  "PowerFlowEdge pathLength kw idle =
     (let isIdle = (kw = Some 0 \<or> idle = Some True);
          count = nat (max 1 (math_round (pathLength / CHEVRON_SPACING)));
          duration = pathLength / SPEED
      in \<lparr>fw_idle = isIdle, fw_reverse = (case kw of None \<Rightarrow> False | Some k \<Rightarrow> k > 0),
          fw_size = kwToChevronSize (Some (js_abs kw)),
          fw_count = (if isIdle then 0 else count), fw_duration = duration,
          fw_begins = (if isIdle then []
             else map (\<lambda>i. - ((of_nat i + 1 / 2) / of_nat count) * duration) [0..<count]),
          fw_label = (case kw of None \<Rightarrow> None | Some k \<Rightarrow> if isIdle then None else Some (toFixed 1 \<bar>k\<bar> @ '' kW''))\<rparr>)"

text \<open>The end of the edge the chevrons travel to.\<close>

definition flowsTo :: "wire \<Rightarrow> rat \<Rightarrow> string" where
  "flowsTo w kw = (if fw_reverse (PowerFlowEdge 0 (Some kw) None) then w_source w else w_target w)"

section \<open>The connection\<close>

definition WS_DOT :: "WsReadyState \<Rightarrow> string \<times> string" where
  "WS_DOT st =
     (case st of
        Open \<Rightarrow> (''#22c55e'', ''Live'')
      | Connecting \<Rightarrow> (''#f59e0b'', ''Connecting'' @ ellipsis)
      | Closed \<Rightarrow> (''#94a3b8'', ''Disconnected''))"

end
