(* ===== verification/NodeViewsProps.thy ===== *)
theory NodeViewsProps
  imports NodeViews HomeProps
begin

text \<open>
  What the canvas draws is right: flows run to the end that receives the power, chevrons have a
  size and a spacing, the metering warning needs thirty seconds of a negative remainder, and the
  circuit handles are the ones the Home page wires to.
\<close>

section \<open>The warning\<close>

text \<open>The readings so far, oldest first, with the time of each; the first is the one at mount.\<close>

fun unallocated_run :: "(nat \<times> rat option) list \<Rightarrow> unallocated" where
  "unallocated_run [] = \<lparr>ua_negative = False, ua_timer = None, ua_warn = False\<rparr>"
| "unallocated_run (r # rs) = foldl (\<lambda>s r. unallocated_read r s) (unallocated_mount (fst r) (snd r)) rs"

text \<open>Since when the remainder has been negative without a break.\<close>

definition negativeSince :: "(nat \<times> rat option) list \<Rightarrow> nat option" where
  "negativeSince rs =
     (case takeWhile (\<lambda>r. remainderNegative (snd r)) (rev rs) of [] \<Rightarrow> None | xs \<Rightarrow> Some (fst (last xs)))"

lemma negativeSince_snoc:
  "negativeSince (rs @ [r]) =
     (if remainderNegative (snd r) then Some (default_to (fst r) (negativeSince rs)) else None)"
  by (auto simp: negativeSince_def split: list.splits)

definition warn_inv :: "nat option \<Rightarrow> nat \<Rightarrow> unallocated \<Rightarrow> bool" where
  "warn_inv since now s \<longleftrightarrow>
     (case since of
        Some u \<Rightarrow> ua_negative s \<and> u \<le> now
          \<and> (ua_timer s = Some (u + 30000, True) \<and> \<not> ua_warn s \<or> ua_timer s = None \<and> ua_warn s \<and> u + 30000 \<le> now)
      | None \<Rightarrow> \<not> ua_negative s
          \<and> ((\<exists>u\<le>now. ua_timer s = Some (u, False)) \<or> ua_timer s = None \<and> \<not> ua_warn s))"

lemma warn_inv_fire:
  assumes "warn_inv since now s" and "now \<le> t"
  shows "warn_inv since t (fireTimer t s) \<and> ua_negative (fireTimer t s) = ua_negative s
    \<and> (since = None \<longrightarrow> ua_timer (fireTimer t s) = None \<and> \<not> ua_warn (fireTimer t s))
    \<and> (ua_warn (fireTimer t s) \<longleftrightarrow> (\<exists>u. since = Some u \<and> u + 30000 \<le> t))"
  using assms by (cases since; cases "ua_timer s") (auto simp: warn_inv_def fireTimer_def)

lemma warn_inv_read:
  assumes "warn_inv (negativeSince rs) now s" and "now \<le> fst r"
  shows "warn_inv (negativeSince (rs @ [r])) (fst r) (unallocated_read r s)"
  using warn_inv_fire [OF assms] assms(2)
  by (cases "negativeSince rs")
    (auto simp: unallocated_read_def Let_def negativeSince_snoc warn_inv_def startTimer_def UNALLOCATED_NEGATIVE_HOLD_MS_def)

lemma warn_inv_mount: "warn_inv (negativeSince [r]) (fst r) (unallocated_mount (fst r) (snd r))"
  by (auto simp: warn_inv_def negativeSince_def unallocated_mount_def startTimer_def UNALLOCATED_NEGATIVE_HOLD_MS_def)

lemma warn_inv_run:
  assumes "rs \<noteq> []" and "sorted (map fst rs)"
  shows "warn_inv (negativeSince rs) (fst (last rs)) (unallocated_run rs)"
  using assms
proof (induction rs rule: rev_induct)
  case (snoc r rs)
  show ?case
  proof (cases "rs = []")
    case True then show ?thesis using warn_inv_mount [of r] by simp
  next
    case False
    have le: "fst (last rs) \<le> fst r" using snoc.prems(2) False by (simp add: sorted_append)
    have "unallocated_run (rs @ [r]) = unallocated_read r (unallocated_run rs)" using False by (cases rs) auto
    then show ?thesis
      using warn_inv_read [OF _ le] snoc False by (simp add: sorted_append)
  qed
qed simp

text \<open>
  C31.  The metering warning of the Unallocated node is on exactly when the remainder has been
  below the threshold without a break for at least thirty seconds; one reading above it restarts
  the wait.
\<close>

theorem warning_needs_thirty_seconds:
  assumes "rs \<noteq> []" and "sorted (map fst rs)" and "fst (last rs) \<le> t"
  shows "ua_warn (fireTimer t (unallocated_run rs)) \<longleftrightarrow> (\<exists>u. negativeSince rs = Some u \<and> u + 30000 \<le> t)"
  using warn_inv_fire [OF warn_inv_run [OF assms(1,2)] assms(3)] by blast

theorem warning_needs_thirty_seconds_witness:
  "ua_warn (fireTimer 31000 (unallocated_run [(0, Some 1), (1000, Some (-1)), (20000, Some (-2))]))"
proof -
  have "negativeSince [(0, Some 1), (1000, Some (-1)), (20000, Some (-2))] = Some 1000"
    by (simp add: negativeSince_def remainderNegative_def UNALLOCATED_NEGATIVE_W_def)
  then show ?thesis
    using warning_needs_thirty_seconds [of "[(0, Some 1), (1000, Some (-1)), (20000, Some (-2))]" 31000] by simp
qed

section \<open>Directions\<close>

text \<open>
  C32.  The chevrons of a metered edge run to the end that receives the power: to the consumer
  unit for imported or generated power, to a load that draws, and the other way round when the
  reading changes its sign.
\<close>

theorem flow_runs_to_the_receiver:
  assumes "w_targetHandle w = Some ''grid'' \<and> cu = w_target w
      \<or> w_targetHandle w \<noteq> Some ''grid'' \<and> w_sourceHandle w = Some ''grid'' \<and> cu = w_source w
      \<or> w_targetHandle w \<noteq> Some ''grid'' \<and> w_sourceHandle w \<noteq> Some ''grid'' \<and> cu = edgePowerNodeId w \<and> m = cu"
    and "w_source w \<noteq> w_target w"
  shows "(0 < p \<longrightarrow> flowsTo w (edgeKw w m p) = cu)
    \<and> (p < 0 \<longrightarrow> flowsTo w (edgeKw w m p) = (if cu = w_source w then w_target w else w_source w))"
  using assms by (auto simp: flowsTo_def PowerFlowEdge_def edgeKw_def edgePowerNodeId_def Let_def split: if_splits)

definition saved_backwards :: wire where
  "saved_backwards = \<lparr>w_source = ''consumer_unit'', w_target = ''grid_meter'',
     w_sourceHandle = Some ''grid'', w_targetHandle = Some ''power-out''\<rparr>"

theorem flow_runs_to_the_receiver_witness:
  "flowsTo saved_backwards (edgeKw saved_backwards ''grid_meter'' 2000000) = ''consumer_unit''"
  using flow_runs_to_the_receiver [of saved_backwards "''consumer_unit''" "''grid_meter''" 2000000]
  by (simp add: saved_backwards_def)

section \<open>Chevrons\<close>

lemma chevron_fraction: "0 \<le> max 0 (min 1 (k / 10)) \<and> max 0 (min 1 (k / 10)) \<le> (1::rat)" by simp

theorem chevrons_are_sized_and_spaced:
  assumes "0 < len" and "fw = PowerFlowEdge len (Some k) idle" and "\<not> fw_idle fw"
  shows "(\<exists>s. fw_size fw = Num s \<and> 4 \<le> s \<and> s \<le> 14)
    \<and> 1 \<le> fw_count fw \<and> length (fw_begins fw) = fw_count fw
    \<and> (\<forall>i. Suc i < fw_count fw \<longrightarrow> fw_begins fw ! i - fw_begins fw ! Suc i = fw_duration fw / of_nat (fw_count fw))
    \<and> list_all (\<lambda>b. - fw_duration fw < b \<and> b < 0) (fw_begins fw)"
proof (intro conjI allI impI)
  define n where "n = nat (max 1 (math_round (len / CHEVRON_SPACING)))"
  have n: "1 \<le> n" by (simp add: n_def)
  have idle: "\<not> (k = 0 \<or> idle = Some True)" using assms(2,3) by (simp add: PowerFlowEdge_def Let_def)
  have fw: "fw_count fw = n" "fw_duration fw = len / SPEED"
    "fw_begins fw = map (\<lambda>i. - ((of_nat i + 1 / 2) / of_nat n) * (len / SPEED)) [0..<n]"
    using idle assms(2) by (auto simp: PowerFlowEdge_def Let_def n_def)
  have sp: "0 < len / SPEED" using assms(1) by (simp add: SPEED_def)
  show "\<exists>s. fw_size fw = Num s \<and> 4 \<le> s \<and> s \<le> 14"
    using chevron_fraction [of "\<bar>k\<bar>"] assms(2)
    by (simp add: PowerFlowEdge_def Let_def kwToChevronSize_def js_abs_def MIN_SIZE_def MAX_SIZE_def MIN_KW_def MAX_KW_def)
  show "1 \<le> fw_count fw" "length (fw_begins fw) = fw_count fw" using n by (simp_all add: fw)
  show "fw_begins fw ! i - fw_begins fw ! Suc i = fw_duration fw / of_nat (fw_count fw)" if "Suc i < fw_count fw" for i
  proof -
    have "fw_begins fw ! i - fw_begins fw ! Suc i =
      ((of_nat (Suc i) + 1 / 2) / of_nat n - (of_nat i + 1 / 2) / of_nat n) * (len / SPEED)"
    proof -
      have d: "- a * l - (- b * l) = (b - a) * l" for a b l :: rat by (simp add: left_diff_distrib)
      have i: "i < length [0..<n]" "Suc i < length [0..<n]" using that by (simp_all add: fw)
      show ?thesis unfolding fw nth_map [OF i(1)] nth_map [OF i(2)] d using i by simp
    qed
    also have "(of_nat (Suc i) + 1 / 2) / of_nat n - (of_nat i + 1 / 2) / of_nat n = (1 / of_nat n :: rat)"
      by (simp add: diff_divide_distrib [symmetric])
    finally show ?thesis by (simp add: fw)
  qed
  have "- (len / SPEED) < - ((of_nat i + 1 / 2) / of_nat n) * (len / SPEED) \<and> - ((of_nat i + 1 / 2) / of_nat n) * (len / SPEED) < 0"
    if "i < n" for i
  proof -
    define f :: rat where "f = (of_nat i + 1 / 2) / of_nat n"
    have "of_nat i + 1 \<le> (of_nat n :: rat)" using that by (metis Suc_leI of_nat_Suc of_nat_le_iff add.commute)
    then have f: "0 < f" "f < 1" using n by (simp_all add: f_def field_simps)
    have "0 < f * (len / SPEED)" "f * (len / SPEED) < 1 * (len / SPEED)"
      using mult_strict_right_mono [OF f(2) sp] mult_pos_pos [OF f(1) sp] by simp_all
    then show ?thesis by (simp add: f_def [symmetric] del: times_divide_eq_right)
  qed
  then show "list_all (\<lambda>b. - fw_duration fw < b \<and> b < 0) (fw_begins fw)"
    by (simp add: fw list_all_iff del: times_divide_eq_right)
qed

theorem chevrons_are_sized_and_spaced_witness:
  "1 \<le> fw_count (PowerFlowEdge 200 (Some (3 / 2)) None)"
  using chevrons_are_sized_and_spaced [of 200 "PowerFlowEdge 200 (Some (3 / 2)) None" "3 / 2" None]
  by (simp add: PowerFlowEdge_def Let_def)

theorem unread_edge_draws_nan:
  "fw_size (PowerFlowEdge 200 None None) = NaN \<and> fw_count (PowerFlowEdge 200 None None) = 7
    \<and> kwToChevronSize None = Num 8"
  by code_simp

section \<open>Handles\<close>

lemma circuits_are_slots:
  "map hd_id (circuitHandles (length CU_CIRCUITS)) = map applianceCircuitHandle [0..<APPLIANCE_SLOTS]"
  by (simp add: circuitHandles_def CU_CIRCUITS_def APPLIANCE_SLOTS_def applianceCircuitHandle_def)

lemma cu_handles_distinct: "distinct (map hd_id ConsumerUnitNode)"
  by code_simp

theorem new_appliance_gets_an_existing_handle:
  assumes "slot < APPLIANCE_SLOTS"
  shows "\<exists>!h. h \<in> set ConsumerUnitNode \<and> hd_id h = freeCircuitHandle E slot \<and> hd_source h"
proof -
  obtain k where k: "k < APPLIANCE_SLOTS" "freeCircuitHandle E slot = applianceCircuitHandle k"
    using freeCircuitHandle_cases [OF assms, of E] by blast
  then have "freeCircuitHandle E slot \<in> set (map applianceCircuitHandle [0..<APPLIANCE_SLOTS])" by auto
  then have "freeCircuitHandle E slot \<in> hd_id ` set (circuitHandles (length CU_CIRCUITS))"
    unfolding circuits_are_slots [symmetric] set_map .
  then obtain h where h: "h \<in> set (circuitHandles (length CU_CIRCUITS))" "freeCircuitHandle E slot = hd_id h"
    by (rule imageE) blast
  have h': "h \<in> set ConsumerUnitNode" using h(1) by (simp add: ConsumerUnitNode_def)
  have src: "hd_source h" using h(1) unfolding circuitHandles_def by auto
  show ?thesis
  proof (rule ex1I [of _ h])
    show "h \<in> set ConsumerUnitNode \<and> hd_id h = freeCircuitHandle E slot \<and> hd_source h"
      using h h' src by simp
    fix g assume g: "g \<in> set ConsumerUnitNode \<and> hd_id g = freeCircuitHandle E slot \<and> hd_source g"
    have "inj_on hd_id (set ConsumerUnitNode)" using cu_handles_distinct by (simp only: distinct_map)
    then show "g = h" using g h h' by (simp add: inj_onD)
  qed
qed

theorem new_appliance_gets_an_existing_handle_witness:
  "\<exists>!h. h \<in> set ConsumerUnitNode \<and> hd_id h = freeCircuitHandle [] 3 \<and> hd_source h"
  using new_appliance_gets_an_existing_handle [of 3 "[]"] by (simp add: APPLIANCE_SLOTS_def)

end
