(* ===== verification/SchedulePage.thy ===== *)
theory SchedulePage
  imports Forecast
begin

text \<open>
  The schedule page (\<open>Schedule.tsx\<close>): the surplus curve by local hour, the suggested run windows
  drawn over it, and the table of runs.  The plot area has the dimensions of the daily power chart.
  \<open>hourOf t\<close> is the local hour of the epoch second \<open>t\<close>.
\<close>

record run =
  rn_graph_id :: string
  rn_name :: string
  rn_schedulable :: bool
  rn_start_hour :: int
  rn_duration_hours :: int
  rn_avg_power_w :: rat
  rn_energy_wh :: rat
  rn_self_consumption_wh :: rat

record schedule =
  sc_date :: string
  sc_surplus_available :: bool
  sc_runs :: "run list"

text \<open>The local calendar day: the instant (milliseconds) is shifted by the zone's offset in minutes.\<close>

definition schedule_today :: "int \<Rightarrow> int \<Rightarrow> string" where
  "schedule_today now timezoneOffset = isoDay (now - timezoneOffset * 60000)"

definition HOURS :: nat where "HOURS = 24"

definition BAND_COLORS :: "string list" where
  "BAND_COLORS = [''#3b82f6'', ''#8b5cf6'', ''#ec4899'', ''#0ea5e9'', ''#f97316'', ''#14b8a6'']"

definition hhmm :: "int \<Rightarrow> string" where
  "hhmm hour = pad_start 2 CHR ''0'' (int_str hour) @ '':00''"

section \<open>The chart\<close>

definition byHour :: "(int \<Rightarrow> nat) \<Rightarrow> surplus_slot list \<Rightarrow> rat list" where
  "byHour hourOf slots =
     foldl (\<lambda>a s. let h = hourOf (sp_hour_ts s) in if h < HOURS then a[h := sp_surplus_w s] else a)
       (replicate HOURS 0) slots"

definition maxAbs :: "rat list \<Rightarrow> rat" where
  "maxAbs ws = max (maxOf (map abs ws)) 1"

definition hourW :: rat where "hourW = PLOT_W / of_nat HOURS"

definition midY :: rat where "midY = PAD_top + PLOT_H / 2"

definition hourBar :: "rat \<Rightarrow> nat \<Rightarrow> rat \<Rightarrow> bar" where
  "hourBar m i w =
     (let barH = \<bar>w / m\<bar> * (PLOT_H / 2); x = PAD_left + of_nat i * hourW
      in \<lparr>bar_x = x + 1, bar_y = (if w \<ge> 0 then midY - barH else midY), bar_w = hourW - 2, bar_h = barH,
          bar_color = (if w \<ge> 0 then ''#10b981'' else ''#ef4444''),
          bar_label = (if i mod 3 = 0 then Some (hhmm (int i)) else None)\<rparr>)"

record band =
  bd_x :: rat
  bd_w :: rat
  bd_color :: string
  bd_textY :: rat
  bd_name :: string

definition runBand :: "nat \<Rightarrow> run \<Rightarrow> band" where
  "runBand k r =
     \<lparr>bd_x = PAD_left + of_int (rn_start_hour r) * hourW, bd_w = of_int (rn_duration_hours r) * hourW,
      bd_color = BAND_COLORS ! (k mod length BAND_COLORS), bd_textY = PAD_top + 12 + of_nat (k mod 3) * 14,
      bd_name = rn_name r\<rparr>"

definition placedRuns :: "run list \<Rightarrow> run list" where
  "placedRuns runs = filter (\<lambda>r. rn_start_hour r \<ge> 0) runs"

record schedule_chart =
  sh_top :: string
  sh_bottom :: string
  sh_bars :: "bar list"
  sh_bands :: "band list"

definition ScheduleChart :: "(int \<Rightarrow> nat) \<Rightarrow> surplus_slot list \<Rightarrow> run list \<Rightarrow> schedule_chart" where
  "ScheduleChart hourOf slots runs =
     (let ws = byHour hourOf slots; m = maxAbs ws
      in \<lparr>sh_top = ''+'' @ tenthsKw m @ ''kW'', sh_bottom = ''-'' @ tenthsKw m @ ''kW'',
          sh_bars = map (\<lambda>(i, w). hourBar m i w) (enumerate 0 ws),
          sh_bands = map (\<lambda>(k, r). runBand k r) (enumerate 0 (placedRuns runs))\<rparr>)"

section \<open>The table\<close>

definition energyLabel :: "rat \<Rightarrow> string" where
  "energyLabel wh = (if wh \<ge> 1000 then toFixed 2 (wh / 1000) @ '' kWh'' else int_str (math_round wh) @ '' Wh'')"

definition coverage :: "run \<Rightarrow> int" where
  "coverage r = (if rn_energy_wh r > 0 then math_round (rn_self_consumption_wh r / rn_energy_wh r * 100) else 0)"

definition runRow :: "run \<Rightarrow> string list" where
  "runRow r =
     (if \<not> rn_schedulable r then [rn_name r, ''Not enough run history yet'']
      else let scheduled = rn_start_hour r \<ge> 0 in
        [rn_name r,
         if scheduled then hhmm (rn_start_hour r) @ en_dash @ hhmm (rn_start_hour r + rn_duration_hours r)
         else ''No surplus to use'',
         energyLabel (rn_energy_wh r),
         if scheduled then int_str (coverage r) @ ''%'' else em_dash])"

section \<open>The page\<close>

record schedule_page =
  sd_date :: string
  sd_loading :: bool
  sd_error :: "string option"
  sd_schedule :: "schedule option"
  sd_slots :: "surplus_slot list"

definition schedule_closed :: "string \<Rightarrow> schedule_page" where
  "schedule_closed today = \<lparr>sd_date = today, sd_loading = False, sd_error = None, sd_schedule = None, sd_slots = []\<rparr>"

text \<open>A load: the new state and the paths of the two requests.\<close>

definition schedule_load :: "schedule_page \<Rightarrow> schedule_page \<times> string list" where
  "schedule_load p =
     (p\<lparr>sd_loading := True, sd_error := None\<rparr>,
      [''/api/schedule?date='' @ sd_date p, ''/api/forecast/surplus?date='' @ sd_date p])"

text \<open>Without a surplus forecast (404) the curve has no slots; \<open>date\<close> is the one asked for.\<close>

definition surplusChecked :: "string \<Rightarrow> (string \<times> (string + surplus_forecast)) answer \<Rightarrow> string + surplus_forecast" where
  "surplusChecked date r =
     (case r of
        NoAnswer msg \<Rightarrow> Inl msg
      | Answer st b \<Rightarrow>
          if st = 404 then Inr \<lparr>sf_date = date, sf_slots = [], sf_learning = None, sf_usable_days = None, sf_mature_days = None\<rparr>
          else textChecked (Answer st b))"

definition schedule_loaded :: "bool \<Rightarrow> string \<Rightarrow> (string \<times> (string + schedule)) answer
    \<Rightarrow> (string \<times> (string + surplus_forecast)) answer \<Rightarrow> schedule_page \<Rightarrow> schedule_page" where
  "schedule_loaded surplusFirst date r1 r2 p =
     (case promiseAll surplusFirst (textChecked r1) (surplusChecked date r2) of
        Inr (sched, surplus) \<Rightarrow> p\<lparr>sd_schedule := Some sched, sd_slots := sf_slots surplus, sd_loading := False\<rparr>
      | Inl e \<Rightarrow> p\<lparr>sd_error := Some e, sd_loading := False\<rparr>)"

definition schedule_date :: "string \<Rightarrow> schedule_page \<Rightarrow> schedule_page" where
  "schedule_date d p = p\<lparr>sd_date := d\<rparr>"

text \<open>What the page shows below its header; an error text that is empty is not shown.\<close>

record schedule_view =
  sv_button :: "string \<times> bool"
  sv_error :: "string option"
  sv_noSurplus :: bool
  sv_chart :: "schedule_chart option"
  sv_noRuns :: bool
  sv_rows :: "string list list"

definition Schedule :: "(int \<Rightarrow> nat) \<Rightarrow> schedule_page \<Rightarrow> schedule_view" where
  "Schedule hourOf p =
     (let error = shownText (sd_error p);
          placed = (case sd_schedule p of None \<Rightarrow> [] | Some s \<Rightarrow> placedRuns (sc_runs s));
          noSurplus = (case sd_schedule p of None \<Rightarrow> False | Some s \<Rightarrow> \<not> sc_surplus_available s);
          drawn = (case sd_schedule p of None \<Rightarrow> None | Some s \<Rightarrow> if sc_surplus_available s then Some s else None)
      in \<lparr>sv_button = (if sd_loading p then ''Loading'' @ ellipsis else ''Load'', \<not> sd_loading p),
          sv_error = error, sv_noSurplus = (noSurplus \<and> \<not> sd_loading p \<and> error = None),
          sv_chart = map_option (\<lambda>s. ScheduleChart hourOf (sd_slots p) (sc_runs s)) drawn,
          sv_noRuns = (drawn \<noteq> None \<and> placed = []),
          sv_rows = (case drawn of None \<Rightarrow> [] | Some s \<Rightarrow> map runRow (sc_runs s))\<rparr>)"

end
