(* ===== verification/SchedulePageProps.thy ===== *)
theory SchedulePageProps
  imports SchedulePage
begin

text \<open>
  What the schedule page draws is right: the curve shows each hour's own surplus, a run band covers
  the bars of exactly its hours, the coverage is a percentage, and a failed reload keeps the schedule.
\<close>

section \<open>The surplus by hour\<close>

lemma byHour_snoc:
  "byHour hourOf (slots @ [s]) =
     (if hourOf (sp_hour_ts s) < HOURS then (byHour hourOf slots)[hourOf (sp_hour_ts s) := sp_surplus_w s]
      else byHour hourOf slots)"
  by (simp add: byHour_def Let_def)

lemma length_byHour [simp]: "length (byHour hourOf slots) = HOURS"
  by (induction slots rule: rev_induct) (simp_all add: byHour_snoc, simp add: byHour_def)

theorem hours_carry_their_surplus:
  "byHour hourOf slots =
     map (\<lambda>h. case find (\<lambda>s. hourOf (sp_hour_ts s) = h) (rev slots) of None \<Rightarrow> 0 | Some s \<Rightarrow> sp_surplus_w s) [0..<HOURS]"
proof (induction slots rule: rev_induct)
  case Nil
  show ?case by (simp add: byHour_def map_replicate_const)
next
  case (snoc s slots)
  show ?case
  proof (rule nth_equalityI)
    fix h assume "h < length (byHour hourOf (slots @ [s]))"
    then have h: "h < HOURS" by simp
    then show "byHour hourOf (slots @ [s]) ! h =
      map (\<lambda>h. case find (\<lambda>s. hourOf (sp_hour_ts s) = h) (rev (slots @ [s])) of None \<Rightarrow> 0 | Some s \<Rightarrow> sp_surplus_w s) [0..<HOURS] ! h"
      by (cases "hourOf (sp_hour_ts s) = h") (simp_all add: byHour_snoc, simp_all add: snoc.IH)
  qed simp
qed

section \<open>Bars and bands\<close>

lemma hourW_eq: "hourW = 728 / 24"
  by (simp add: hourW_def HOURS_def plot_defs)

lemma maxAbs_bounds: "1 \<le> maxAbs ws" "w \<in> set ws \<Longrightarrow> \<bar>w\<bar> \<le> maxAbs ws"
proof -
  show "1 \<le> maxAbs ws" by (simp add: maxAbs_def)
  show "\<bar>w\<bar> \<le> maxAbs ws" if "w \<in> set ws"
  proof -
    have "\<bar>w\<bar> \<le> maxOf (map abs ws)"
      using that math_max_ge_base math_max_ge_mem by (cases ws) (auto simp: maxOf_def)
    then show ?thesis by (simp add: maxAbs_def)
  qed
qed

lemma hour_bars_in_plot:
  assumes "w \<in> set ws"
  shows "PAD_top \<le> bar_y (hourBar (maxAbs ws) i w)" "bar_y (hourBar (maxAbs ws) i w) + bar_h (hourBar (maxAbs ws) i w) \<le> PAD_top + PLOT_H"
    "0 \<le> bar_h (hourBar (maxAbs ws) i w)"
proof -
  have m: "0 < maxAbs ws" "\<bar>w\<bar> \<le> maxAbs ws" using maxAbs_bounds(1) [of ws] maxAbs_bounds(2) [OF assms] by simp_all
  then have f: "\<bar>w / maxAbs ws\<bar> \<le> 1" "0 \<le> \<bar>w / maxAbs ws\<bar>" by (simp_all add: abs_divide)
  have p: "0 < PLOT_H" by (simp add: plot_defs)
  define q where "q = \<bar>w / maxAbs ws\<bar> * (PLOT_H / 2)"
  have q: "q \<le> PLOT_H / 2" "0 \<le> q"
    unfolding q_def using mult_right_mono [OF f(1), of "PLOT_H / 2"] f(2) p by simp_all
  have b: "bar_h (hourBar (maxAbs ws) i w) = q" "bar_y (hourBar (maxAbs ws) i w) = (if w \<ge> 0 then midY - q else midY)"
    unfolding hourBar_def Let_def q_def by simp_all
  show "PAD_top \<le> bar_y (hourBar (maxAbs ws) i w)" "bar_y (hourBar (maxAbs ws) i w) + bar_h (hourBar (maxAbs ws) i w) \<le> PAD_top + PLOT_H"
    "0 \<le> bar_h (hourBar (maxAbs ws) i w)"
    using q p by (simp_all add: b midY_def)
qed

lemma band_arith:
  fixes p a b l r :: rat
  assumes "if c then a \<le> l \<and> r \<le> b else r \<le> a \<or> b \<le> l"
  shows "if c then p + a < p + l + 1 \<and> p + r - 1 < p + b else p + r - 1 < p + a \<or> p + b < p + l + 1"
  using assms by (auto split: if_splits)

text \<open>
  The band of a scheduled run that ends by midnight stays inside the plot and covers the
  bars of exactly the hours of the run: these lie strictly inside it and all others strictly
  outside.
\<close>

theorem run_band_covers_its_hours:
  assumes "0 \<le> rn_start_hour r" "0 \<le> rn_duration_hours r" "rn_start_hour r + rn_duration_hours r \<le> int HOURS"
  shows "PAD_left \<le> bd_x (runBand k r) \<and> bd_x (runBand k r) + bd_w (runBand k r) \<le> PAD_left + PLOT_W
    \<and> (\<forall>i m w. let b = hourBar m i w in
         (if rn_start_hour r \<le> int i \<and> int i < rn_start_hour r + rn_duration_hours r
          then bd_x (runBand k r) < bar_x b \<and> bar_x b + bar_w b < bd_x (runBand k r) + bd_w (runBand k r)
          else bar_x b + bar_w b < bd_x (runBand k r) \<or> bd_x (runBand k r) + bd_w (runBand k r) < bar_x b))"
proof -
  let ?s = "of_int (rn_start_hour r) :: rat" and ?e = "of_int (rn_start_hour r + rn_duration_hours r) :: rat"
  have x: "bd_x (runBand k r) = PAD_left + ?s * hourW"
    and e: "bd_x (runBand k r) + bd_w (runBand k r) = PAD_left + ?e * hourW"
    by (simp_all add: runBand_def distrib_right)
  have bx: "bar_x (hourBar m i w) = PAD_left + of_nat i * hourW + 1"
    and be: "bar_x (hourBar m i w) + bar_w (hourBar m i w) = PAD_left + (of_nat i + 1) * hourW - 1" for m i w
    by (simp_all add: hourBar_def Let_def distrib_right)
  have W: "0 < hourW" "PLOT_W = 24 * hourW" by (simp_all add: hourW_eq plot_defs)
  have "?e \<le> of_int (int HOURS)" using assms(3) by (simp only: of_int_le_iff)
  then have "?e * hourW \<le> 24 * hourW" using W by (intro mult_right_mono) (simp_all add: HOURS_def)
  have "0 \<le> ?s * hourW" using W assms(1) by simp
  have "if rn_start_hour r \<le> int i \<and> int i < rn_start_hour r + rn_duration_hours r
      then ?s * hourW \<le> of_nat i * hourW \<and> (of_nat i + 1) * hourW \<le> ?e * hourW
      else (of_nat i + 1) * hourW \<le> ?s * hourW \<or> ?e * hourW \<le> of_nat i * hourW" for i
  proof -
    have c: "a * hourW \<le> b * hourW \<longleftrightarrow> a \<le> b" for a b using W by simp
    have n: "of_nat i = (of_int (int i) :: rat)" "of_nat i + 1 = (of_int (int i + 1) :: rat)" by simp_all
    show ?thesis unfolding c n of_int_le_iff using assms by auto
  qed
  note hours = this
  have "0 \<le> ?s * hourW" "?e * hourW \<le> 24 * hourW" by fact+
  then show ?thesis
    unfolding e be Let_def W(2) unfolding x bx by (intro conjI allI band_arith hours) simp_all
qed

theorem run_band_covers_its_hours_witness:
  "bd_x (runBand 0 \<lparr>rn_graph_id = ''a'', rn_name = ''Washer'', rn_schedulable = True, rn_start_hour = 11, rn_duration_hours = 2,
      rn_avg_power_w = 500, rn_energy_wh = 1000, rn_self_consumption_wh = 800\<rparr>) < bar_x (hourBar 1 12 (1 / 2))"
  using run_band_covers_its_hours [of "\<lparr>rn_graph_id = ''a'', rn_name = ''Washer'', rn_schedulable = True, rn_start_hour = 11, rn_duration_hours = 2,
      rn_avg_power_w = 500, rn_energy_wh = 1000, rn_self_consumption_wh = 800\<rparr>" 0]
  by (force simp: HOURS_def Let_def)

section \<open>The table\<close>

theorem coverage_is_a_percentage:
  assumes "0 \<le> rn_self_consumption_wh r" "rn_self_consumption_wh r \<le> rn_energy_wh r"
  shows "coverage r \<in> {0..100}
    \<and> (coverage r = 100 \<longleftrightarrow> 0 < rn_energy_wh r \<and> rn_energy_wh r \<le> rn_self_consumption_wh r * (200 / 199))"
proof (cases "0 < rn_energy_wh r")
  case True
  let ?q = "rn_self_consumption_wh r / rn_energy_wh r"
  have q: "0 \<le> ?q" "?q \<le> 1" using assms True by simp_all
  have "\<lfloor>?q * 100 + 1 / 2\<rfloor> < 101" "0 \<le> \<lfloor>?q * 100 + 1 / 2\<rfloor>" using q by (simp_all add: floor_less_iff)
  moreover have "100 \<le> \<lfloor>?q * 100 + 1 / 2\<rfloor> \<longleftrightarrow> 199 / 200 \<le> ?q" by (simp add: le_floor_iff field_simps)
  moreover have "199 / 200 \<le> ?q \<longleftrightarrow> rn_energy_wh r \<le> rn_self_consumption_wh r * (200 / 199)"
    using True by (simp add: field_simps)
  ultimately show ?thesis using True unfolding coverage_def math_round_def
    by (simp only: if_True atLeastAtMost_iff) (smt (verit))
next
  case False
  then show ?thesis by (simp add: coverage_def)
qed

theorem coverage_is_a_percentage_witness:
  "coverage \<lparr>rn_graph_id = ''a'', rn_name = ''Washer'', rn_schedulable = True, rn_start_hour = 11, rn_duration_hours = 2,
      rn_avg_power_w = 500, rn_energy_wh = 1000, rn_self_consumption_wh = 800\<rparr> \<in> {0..100}"
  using coverage_is_a_percentage [of "\<lparr>rn_graph_id = ''a'', rn_name = ''Washer'', rn_schedulable = True, rn_start_hour = 11,
      rn_duration_hours = 2, rn_avg_power_w = 500, rn_energy_wh = 1000, rn_self_consumption_wh = 800\<rparr>"] by simp

section \<open>Loading\<close>

theorem failed_reload_keeps_schedule:
  assumes "promiseAll o' (textChecked r1) (surplusChecked (sd_date p) r2) = Inl e" and "e \<noteq> []"
  shows "let p' = schedule_loaded o' (sd_date p) r1 r2 (fst (schedule_load p)) in
    sd_schedule p' = sd_schedule p \<and> sd_slots p' = sd_slots p \<and> \<not> sd_loading p'
    \<and> sv_error (Schedule hourOf p') = Some e \<and> \<not> sv_noSurplus (Schedule hourOf p')
    \<and> sv_rows (Schedule hourOf p') = sv_rows (Schedule hourOf p)
    \<and> (Inl e = textChecked r1 \<or> Inl e = surplusChecked (sd_date p) r2)
    \<and> (\<forall>st b. r2 = Answer st b \<longrightarrow> st = 404 \<longrightarrow> Inl e = textChecked r1)"
proof -
  have "Inl e = textChecked r1 \<or> Inl e = surplusChecked (sd_date p) r2"
    using assms(1) by (auto simp: promiseAll_def split: sum.splits if_splits)
  moreover have "surplusChecked d (Answer 404 b) \<noteq> Inl e" for d b by (simp add: surplusChecked_def)
  ultimately have "\<forall>b. r2 = Answer 404 b \<longrightarrow> Inl e = textChecked r1" "Inl e = textChecked r1 \<or> Inl e = surplusChecked (sd_date p) r2"
    by metis+
  then show ?thesis
    using assms by (auto simp: schedule_loaded_def schedule_load_def Schedule_def Let_def shownText_def)
qed

theorem failed_reload_keeps_schedule_witness:
  "sd_error (schedule_loaded False ''2026-06-01'' (Answer 500 (''no clock'', Inl ''not JSON'')) (Answer 404 ([], Inl ''not JSON''))
     (fst (schedule_load (schedule_closed ''2026-06-01'')))) = Some ''no clock''"
  using failed_reload_keeps_schedule [of False "Answer 500 (''no clock'', Inl ''not JSON'')"
      "schedule_closed ''2026-06-01''" "Answer 404 ([], Inl ''not JSON'')" "''no clock''" "\<lambda>_. 0"]
  by (simp add: schedule_loaded_def promiseAll_def textChecked_def surplusChecked_def is_ok_def schedule_closed_def)

end
