(* ===== verification/AppliancesPage.thy ===== *)
theory AppliancesPage
  imports Graph
begin

text \<open>
  The appliances page (\<open>Appliances.tsx\<close>): the learned profiles joined with the names of the
  graph nodes and the capabilities of the devices, the sketch of a run, and the page's requests.
  The device answers whole minutes and counts; \<open>localeText t\<close> is the localised text of the epoch
  second \<open>t\<close>.
\<close>

record appliance_profile =
  ap_graph_id :: string
  ap_trained :: bool
  ap_standby_w :: "rat option"
  ap_avg_program_power_w :: "rat option"
  ap_std_program_power_w :: "rat option"
  ap_avg_program_len_min :: "nat option"
  ap_std_program_len_min :: "nat option"
  ap_program_count :: "nat option"
  ap_days_with_data :: "nat option"
  ap_trained_unix :: "nat option"
  ap_window_days :: "nat option"

text \<open>A device of the summary list, as far as this page reads it.\<close>

record dem_device =
  dd_nodeId :: nat
  dd_hasDem :: "bool option"

record appliance = appliance_profile +
  ap_name :: string
  ap_dem :: bool

definition formatPower :: "rat \<Rightarrow> string" where
  "formatPower w = (if w \<ge> 1000 then toFixed 2 (w / 1000) @ '' kW'' else int_str (math_round w) @ '' W'')"

definition formatLength :: "nat \<Rightarrow> string" where
  "formatLength mins =
     (if mins \<ge> 60 then
        let h = mins div 60; m = mins mod 60
        in if m > 0 then dec h @ ''h '' @ dec m @ ''m'' else dec h @ ''h''
      else dec mins @ '' min'')"

section \<open>The sketch of a run\<close>

definition A_PAD_top :: rat where "A_PAD_top = 20"
definition A_PAD_right :: rat where "A_PAD_right = 16"
definition A_PAD_bottom :: rat where "A_PAD_bottom = 28"
definition A_PAD_left :: rat where "A_PAD_left = 52"
definition A_PLOT_W :: rat where "A_PLOT_W = 480 - A_PAD_left - A_PAD_right"
definition A_PLOT_H :: rat where "A_PLOT_H = 150 - A_PAD_top - A_PAD_bottom"

lemmas sketch_defs = A_PLOT_W_def A_PLOT_H_def A_PAD_top_def A_PAD_right_def A_PAD_bottom_def A_PAD_left_def

definition maxScale :: "rat \<Rightarrow> rat \<Rightarrow> rat" where
  "maxScale avg stdP = math_max (avg + stdP) [avg, 1] * (11 / 10)"

definition yOf :: "rat \<Rightarrow> rat \<Rightarrow> rat" where
  "yOf scale w = A_PAD_top + A_PLOT_H - (min (max w 0) scale / scale) * A_PLOT_H"

text \<open>Rectangles are given by left edge, top, width and height.\<close>

record sketch =
  sk_scale :: string
  sk_block :: "rat \<times> rat \<times> rat \<times> rat"
  sk_band :: "(rat \<times> rat \<times> rat \<times> rat) option"
  sk_shelves :: "(rat \<times> rat \<times> rat) list"
  sk_power :: string
  sk_length :: string
  sk_standby :: string

definition plus_minus :: string where "plus_minus = [CHR 0xC2, CHR 0xB1]"

definition CycleSketch :: "('a appliance_profile_scheme) \<Rightarrow> sketch" where
  "CycleSketch a =
     (let standby = default_to 0 (ap_standby_w a); avg = default_to 0 (ap_avg_program_power_w a);
          stdP = default_to 0 (ap_std_program_power_w a); len = default_to 0 (ap_avg_program_len_min a);
          stdL = default_to 0 (ap_std_program_len_min a);
          scale = maxScale avg stdP; bottomY = A_PAD_top + A_PLOT_H;
          standbyY = yOf scale standby; programY = yOf scale avg;
          bandTopY = yOf scale (avg + stdP); bandBotY = yOf scale (avg - stdP);
          blockX0 = A_PAD_left + A_PLOT_W * (1 / 5); blockX1 = A_PAD_left + A_PLOT_W * (4 / 5); blockW = blockX1 - blockX0
      in \<lparr>sk_scale = formatPower (of_int (math_round scale)),
          sk_block = (blockX0, programY, blockW, bottomY - programY),
          sk_band = (if stdP > 0 then Some (blockX0, bandTopY, blockW, max (bandBotY - bandTopY) 0) else None),
          sk_shelves = [(A_PAD_left, blockX0, standbyY), (blockX1, A_PAD_left + A_PLOT_W, standbyY),
                        (A_PAD_left, A_PAD_left + A_PLOT_W, bottomY)],
          sk_power = formatPower avg @ (if stdP > 0 then '' '' @ plus_minus @ formatPower stdP else []),
          sk_length = formatLength len @ (if stdL > 0 then '' '' @ plus_minus @ dec stdL @ '' min'' else []),
          sk_standby = ''standby '' @ formatPower standby\<rparr>)"

section \<open>The card\<close>

definition learned :: "('a appliance_profile_scheme) \<Rightarrow> bool" where
  "learned a \<longleftrightarrow> ap_trained a \<and> default_to 0 (ap_program_count a) > 0"

datatype card_body = StillLearning string | LearnedProfile "(string \<times> string) list" sketch string

record card =
  cd_name :: string
  cd_badges :: "string list"
  cd_body :: card_body

definition optText :: "('b \<Rightarrow> string) \<Rightarrow> 'b option \<Rightarrow> string" where
  "optText f v = (case v of None \<Rightarrow> [] | Some x \<Rightarrow> f x)"

definition ApplianceCard :: "(nat \<Rightarrow> string) \<Rightarrow> appliance \<Rightarrow> card" where
  "ApplianceCard localeText a =
     \<lparr>cd_name = ap_name a,
      cd_badges = (if ap_dem a then [''DEM''] else []) @ [if learned a then ''Trained'' else ''Learning''],
      cd_body =
        (if \<not> learned a then
           StillLearning (''No complete runs observed yet''
             @ (if ap_trained a then optText (\<lambda>w. '' '' @ em_dash @ '' standby ~'' @ formatPower w) (ap_standby_w a) else [])
             @ ''. Profile sharpens as the appliance runs over the coming days.'')
         else
           LearnedProfile
             [(''Standby'', formatPower (default_to 0 (ap_standby_w a))),
              (''Avg power'', formatPower (default_to 0 (ap_avg_program_power_w a))),
              (''Avg length'', formatLength (default_to 0 (ap_avg_program_len_min a))),
              (''Runs'', dec (default_to 0 (ap_program_count a)))]
             (CycleSketch a)
             (plus_minus @ '' '' @ formatPower (default_to 0 (ap_std_program_power_w a)) @ '' power '' @ middot @ '' ''
              @ plus_minus @ '' '' @ dec (default_to 0 (ap_std_program_len_min a)) @ '' min length''
              @ optText (\<lambda>d. '' '' @ middot @ '' '' @ dec d @ '' days with data'') (ap_days_with_data a)
              @ optText (\<lambda>d. '' '' @ middot @ '' '' @ dec d @ ''-day window'') (ap_window_days a)
              @ optText (\<lambda>t. if t = 0 then [] else '' '' @ middot @ '' updated '' @ localeText t) (ap_trained_unix a)))\<rparr>"

section \<open>The page\<close>

definition nodeNames :: "saved_node list \<Rightarrow> (string \<rightharpoonup> string)" where
  "nodeNames nodes = foldl (\<lambda>m n. m(n_id n \<mapsto> shown_label (n_id n) (n_settings n))) Map.empty nodes"

definition nodeMatterIds :: "saved_node list \<Rightarrow> (string \<rightharpoonup> nat)" where
  "nodeMatterIds nodes =
     foldl (\<lambda>m n. case opt_field s_nodeId (n_settings n) of None \<Rightarrow> m | Some i \<Rightarrow> m(n_id n \<mapsto> i)) Map.empty nodes"

definition demDevices :: "dem_device list \<Rightarrow> (nat \<rightharpoonup> bool)" where
  "demDevices devices = foldl (\<lambda>m d. if dd_hasDem d = Some True then m(dd_nodeId d \<mapsto> True) else m) Map.empty devices"

text \<open>The lookup of the id \<open>-1\<close>, which no device has, is \<open>None\<close>.\<close>

definition withNames :: "saved_node list \<Rightarrow> dem_device list \<Rightarrow> appliance_profile \<Rightarrow> appliance" where
  "withNames nodes devices p =
     appliance_profile.extend p
       \<lparr>ap_name = or_opt (nodeNames nodes (ap_graph_id p)) (ap_graph_id p),
        ap_dem = default_to False
          (case nodeMatterIds nodes (ap_graph_id p) of None \<Rightarrow> None | Some i \<Rightarrow> demDevices devices i)\<rparr>"

record appliances_page =
  al_appliances :: "appliance list"
  al_loading :: bool
  al_error :: "string option"
  al_training :: bool

definition appliances_open :: appliances_page where
  "appliances_open = \<lparr>al_appliances = [], al_loading = True, al_error = None, al_training = False\<rparr>"

definition appliances_load :: "appliances_page \<Rightarrow> appliances_page" where
  "appliances_load p = p\<lparr>al_loading := True, al_error := None\<rparr>"

text \<open>The flags tell which of the failures came first: \<open>o1\<close> that of the nodes before that of the
  profiles, \<open>o2\<close> that of the devices before the first of these two.\<close>

definition appliances_loaded :: "bool \<Rightarrow> bool \<Rightarrow> (string \<times> (string + appliance_profile list)) answer
    \<Rightarrow> (string \<times> (string + saved_node list)) answer \<Rightarrow> (string \<times> (string + dem_device list)) answer
    \<Rightarrow> appliances_page \<Rightarrow> appliances_page" where
  "appliances_loaded o1 o2 r1 r2 r3 p =
     (case promiseAll o2 (promiseAll o1 (textChecked r1) (textChecked r2)) (textChecked r3) of
        Inr ((profiles, nodes), devices) \<Rightarrow>
          p\<lparr>al_appliances := map (withNames nodes devices) profiles, al_loading := False\<rparr>
      | Inl e \<Rightarrow> p\<lparr>al_error := Some e, al_loading := False\<rparr>)"

definition reanalyse :: "appliances_page \<Rightarrow> appliances_page" where
  "reanalyse p = p\<lparr>al_training := True\<rparr>"

definition reanalysed :: "(string \<times> (string + unit)) answer \<Rightarrow> appliances_page \<Rightarrow> appliances_page" where
  "reanalysed r p =
     (case textChecked r of
        Inr _ \<Rightarrow> appliances_load (p\<lparr>al_training := False\<rparr>)
      | Inl e \<Rightarrow> p\<lparr>al_error := Some e, al_training := False\<rparr>)"

datatype appliances_body = AppliancesLoading | NoAppliances | ApplianceCards "card list"

record appliances_view =
  av_button :: "string \<times> bool"
  av_error :: "string option"
  av_body :: appliances_body

definition Appliances :: "(nat \<Rightarrow> string) \<Rightarrow> appliances_page \<Rightarrow> appliances_view" where
  "Appliances localeText p =
     \<lparr>av_button = (if al_training p then ''Analysing'' @ ellipsis else ''Re-analyse now'', \<not> (al_training p \<or> al_loading p)),
      av_error = shownText (al_error p),
      av_body = (if al_loading p then AppliancesLoading
                 else if al_appliances p = [] then NoAppliances
                 else ApplianceCards (map (ApplianceCard localeText) (al_appliances p)))\<rparr>"

text \<open>
  The page with the requests it has under way: user and server take turns.  The button is pressed
  only when it is enabled; a re-analysis that succeeds starts a load.
\<close>

record appliances_run =
  ar_page :: appliances_page
  ar_loads :: nat
  ar_trains :: nat

inductive appliances_step :: "appliances_run \<Rightarrow> appliances_run \<Rightarrow> bool" where
  press: "snd (av_button (Appliances localeText p)) \<Longrightarrow>
    appliances_step \<lparr>ar_page = p, ar_loads = l, ar_trains = t\<rparr> \<lparr>ar_page = reanalyse p, ar_loads = l, ar_trains = Suc t\<rparr>"
| loaded: "appliances_step \<lparr>ar_page = p, ar_loads = Suc l, ar_trains = t\<rparr>
    \<lparr>ar_page = appliances_loaded o1 o2 r1 r2 r3 p, ar_loads = l, ar_trains = t\<rparr>"
| trained: "appliances_step \<lparr>ar_page = p, ar_loads = l, ar_trains = Suc t\<rparr>
    \<lparr>ar_page = reanalysed r p, ar_loads = (case textChecked r of Inr _ \<Rightarrow> Suc l | Inl _ \<Rightarrow> l), ar_trains = t\<rparr>"

inductive_cases appliances_stepE: "appliances_step s s'"

definition appliances_start :: appliances_run where
  "appliances_start = \<lparr>ar_page = appliances_load appliances_open, ar_loads = 1, ar_trains = 0\<rparr>"

end
