(* ===== verification/AppliancesPageProps.thy ===== *)
theory AppliancesPageProps
  imports AppliancesPage
begin

text \<open>
  The appliances page: profiles are joined with their own node and device, the sketch stays in its
  plot, a printed length determines the minutes, and the page never has more than one request round
  under way.
\<close>

section \<open>The join\<close>

lemma nodeNames_eq: "nodeNames nodes g = map_option (\<lambda>n. shown_label (n_id n) (n_settings n)) (find (\<lambda>n. n_id n = g) (rev nodes))"
  unfolding nodeNames_def using foldl_put [of "\<lambda>_. True" n_id "\<lambda>n. shown_label (n_id n) (n_settings n)" Map.empty nodes g]
  by (simp split: option.split)

lemma nodeMatterIds_eq:
  "nodeMatterIds nodes g =
     (case find (\<lambda>n. opt_field s_nodeId (n_settings n) \<noteq> None \<and> n_id n = g) (rev nodes) of
        Some n \<Rightarrow> opt_field s_nodeId (n_settings n) | None \<Rightarrow> None)"
proof -
  have upd: "(\<lambda>(m::string \<rightharpoonup> nat) n. case opt_field s_nodeId (n_settings n) of None \<Rightarrow> m | Some i \<Rightarrow> m(n_id n \<mapsto> i)) =
    (\<lambda>m n. if opt_field s_nodeId (n_settings n) \<noteq> None then m(n_id n \<mapsto> the (opt_field s_nodeId (n_settings n))) else m)"
    by (intro ext) (simp split: option.split)
  show ?thesis unfolding nodeMatterIds_def upd foldl_put
  proof (cases "find (\<lambda>n. opt_field s_nodeId (n_settings n) \<noteq> None \<and> n_id n = g) (rev nodes)")
    case (Some n)
    then have "opt_field s_nodeId (n_settings n) \<noteq> None" using find_SomeD [OF Some] by blast
    with Some show "(case find (\<lambda>n. opt_field s_nodeId (n_settings n) \<noteq> None \<and> n_id n = g) (rev nodes) of
        None \<Rightarrow> None | Some n \<Rightarrow> Some (the (opt_field s_nodeId (n_settings n)))) =
      (case find (\<lambda>n. opt_field s_nodeId (n_settings n) \<noteq> None \<and> n_id n = g) (rev nodes) of
        None \<Rightarrow> None | Some n \<Rightarrow> opt_field s_nodeId (n_settings n))" by auto
  qed simp
qed

lemma demDevices_eq:
  "demDevices devices i = (if \<exists>d\<in>set devices. dd_hasDem d = Some True \<and> dd_nodeId d = i then Some True else None)"
proof (cases "find (\<lambda>d. dd_hasDem d = Some True \<and> dd_nodeId d = i) (rev devices)")
  case None
  then have "\<not> (\<exists>d\<in>set devices. dd_hasDem d = Some True \<and> dd_nodeId d = i)" using find_rev_NoneD [OF None] by blast
  with None show ?thesis unfolding demDevices_def foldl_put by (simp only: option.case if_False)
next
  case (Some d)
  then have "\<exists>d\<in>set devices. dd_hasDem d = Some True \<and> dd_nodeId d = i" using find_SomeD [OF Some] by auto
  with Some show ?thesis unfolding demDevices_def foldl_put by (simp only: option.case if_True)
qed

lemma or_opt_shown: "or_opt (Some (shown_label g s)) g = shown_label g s"
  by (auto simp: shown_label_def or_opt_def or_str_def split: option.splits)

lemma withNames_name:
  assumes "distinct (map n_id nodes)"
  shows "ap_name (withNames nodes devices p) =
    (case find (\<lambda>n. n_id n = ap_graph_id p) nodes of None \<Rightarrow> ap_graph_id p | Some n \<Rightarrow> shown_label (n_id n) (n_settings n))"
proof -
  have "find (\<lambda>n. n_id n = g) (rev nodes) = find (\<lambda>n. n_id n = g) nodes" for g
  proof (cases "find (\<lambda>n. n_id n = g) nodes")
    case None
    then have "find (\<lambda>n. n_id n = g) (rev nodes) = None" by (simp add: find_None_iff)
    with None show ?thesis by simp
  next
    case (Some n)
    then have "n \<in> set nodes" "n_id n = g" using find_SomeD [OF Some] by simp_all
    then show ?thesis using find_rev_distinct [OF assms, of "\<lambda>_. True" g n] Some by simp
  qed
  then have "nodeNames nodes g = map_option (\<lambda>n. shown_label (n_id n) (n_settings n)) (find (\<lambda>n. n_id n = g) nodes)" for g
    by (simp add: nodeNames_eq)
  moreover
  have "n_id n = g" if "find (\<lambda>n. n_id n = g) nodes = Some n" for g n
    using find_SomeD [OF that] by simp
  note named = this calculation
  show ?thesis
  proof (cases "find (\<lambda>n. n_id n = ap_graph_id p) nodes")
    case None
    show ?thesis unfolding withNames_def named(2) None by (simp add: appliance_profile.defs)
  next
    case (Some n)
    show ?thesis unfolding withNames_def named(2) Some using named(1) [OF Some]
      by (simp add: appliance_profile.defs or_opt_shown)
  qed
qed

lemma withNames_dem:
  assumes "distinct (map n_id nodes)"
  shows "ap_dem (withNames nodes devices p) \<longleftrightarrow>
    (\<exists>n\<in>set nodes. \<exists>d\<in>set devices. n_id n = ap_graph_id p
       \<and> opt_field s_nodeId (n_settings n) = Some (dd_nodeId d) \<and> dd_hasDem d = Some True)"
proof (cases "find (\<lambda>n. opt_field s_nodeId (n_settings n) \<noteq> None \<and> n_id n = ap_graph_id p) (rev nodes)")
  case None
  have "\<not> (opt_field s_nodeId (n_settings n) \<noteq> None \<and> n_id n = ap_graph_id p)" if "n \<in> set nodes" for n
    using find_rev_NoneD [OF None that] .
  moreover have "\<not> ap_dem (withNames nodes devices p)"
    unfolding withNames_def nodeMatterIds_eq None by (simp add: appliance_profile.defs)
  ultimately show ?thesis by force
next
  case (Some n)
  note n = find_SomeD [OF Some]
  then obtain i where i: "opt_field s_nodeId (n_settings n) = Some i" by auto
  have only: "m = n" if "m \<in> set nodes" "n_id m = ap_graph_id p" for m
    using distinct_keyD [OF assms that(1)] that(2) n by simp
  have "ap_dem (withNames nodes devices p) \<longleftrightarrow> (\<exists>d\<in>set devices. dd_hasDem d = Some True \<and> dd_nodeId d = i)"
    unfolding withNames_def nodeMatterIds_eq Some by (simp add: appliance_profile.defs i demDevices_eq)
  also have "\<dots> \<longleftrightarrow> (\<exists>d\<in>set devices. opt_field s_nodeId (n_settings n) = Some (dd_nodeId d) \<and> dd_hasDem d = Some True)"
    using i by auto
  finally show ?thesis using only n by auto
qed

text \<open>
  C37.  The appliances page joins the three lists it loads correctly: one appliance per profile,
  in order, with the name of its own node and with energy management exactly when the device its
  node is bound to has it.
\<close>

theorem profiles_meet_their_node_and_device:
  assumes "textChecked r1 = Inr profiles" "textChecked r2 = Inr nodes" "textChecked r3 = Inr devices"
    and "distinct (map n_id nodes)"
  shows "list_all2 (\<lambda>p a. appliance_profile.truncate a = p
      \<and> ap_name a = (case find (\<lambda>n. n_id n = ap_graph_id p) nodes of None \<Rightarrow> ap_graph_id p | Some n \<Rightarrow> shown_label (n_id n) (n_settings n))
      \<and> (ap_dem a \<longleftrightarrow> (\<exists>n\<in>set nodes. \<exists>d\<in>set devices. n_id n = ap_graph_id p
           \<and> opt_field s_nodeId (n_settings n) = Some (dd_nodeId d) \<and> dd_hasDem d = Some True)))
    profiles (al_appliances (appliances_loaded o1 o2 r1 r2 r3 pg))"
proof -
  have "appliance_profile.truncate (withNames nodes devices p) = p" for p
    by (simp add: withNames_def appliance_profile.defs)
  then show ?thesis
    using assms by (simp add: appliances_loaded_def promiseAll_def list_all2_conv_all_nth withNames_name withNames_dem)
qed

theorem profiles_meet_their_node_and_device_witness:
  "map ap_dem (al_appliances (appliances_loaded False False
     (Answer 200 ([], Inr [\<lparr>ap_graph_id = ''appliance_1'', ap_trained = False, ap_standby_w = None, ap_avg_program_power_w = None,
        ap_std_program_power_w = None, ap_avg_program_len_min = None, ap_std_program_len_min = None, ap_program_count = None,
        ap_days_with_data = None, ap_trained_unix = None, ap_window_days = None\<rparr>]))
     (Answer 200 ([], Inr [\<lparr>n_id = ''appliance_1'', n_x = 0, n_y = 0, n_settings = Some (no_settings\<lparr>s_nodeId := Some 7\<rparr>), n_values = None\<rparr>]))
     (Answer 200 ([], Inr [\<lparr>dd_nodeId = 7, dd_hasDem = Some True\<rparr>])) appliances_open)) = [True]"
proof -
  let ?P = "[\<lparr>ap_graph_id = ''appliance_1'', ap_trained = False, ap_standby_w = None, ap_avg_program_power_w = None,
        ap_std_program_power_w = None, ap_avg_program_len_min = None, ap_std_program_len_min = None, ap_program_count = None,
        ap_days_with_data = None, ap_trained_unix = None, ap_window_days = None\<rparr>]"
    and ?N = "[\<lparr>n_id = ''appliance_1'', n_x = 0, n_y = 0, n_settings = Some (no_settings\<lparr>s_nodeId := Some 7\<rparr>), n_values = None\<rparr>]"
    and ?D = "[\<lparr>dd_nodeId = 7, dd_hasDem = Some True\<rparr>]"
  have ok: "textChecked (Answer 200 ([], Inr x)) = Inr x" for x :: 'a by (simp add: textChecked_def is_ok_def)
  show ?thesis
    using profiles_meet_their_node_and_device [OF ok [of ?P] ok [of ?N] ok [of ?D], of False False appliances_open]
    by (auto simp: list_all2_Cons1)
qed

section \<open>The sketch\<close>

lemma maxScale_bounds: "11 / 10 \<le> maxScale p s" "p + s \<le> maxScale p s \<or> p + s \<le> 0" "p \<le> maxScale p s \<or> p \<le> 0"
proof -
  have "math_max (p + s) [p, 1] = max (max (p + s) p) 1" by (simp add: math_max_def)
  then show "11 / 10 \<le> maxScale p s" "p + s \<le> maxScale p s \<or> p + s \<le> 0" "p \<le> maxScale p s \<or> p \<le> 0"
    by (auto simp: maxScale_def max_def)
qed

lemma yOf_props:
  assumes "0 < scale"
  shows "A_PAD_top \<le> yOf scale w" "yOf scale w \<le> A_PAD_top + A_PLOT_H" "v \<le> w \<Longrightarrow> yOf scale w \<le> yOf scale v"
proof -
  have f: "0 \<le> min (max w 0) scale / scale" "min (max w 0) scale / scale \<le> 1" for w using assms by simp_all
  have p: "0 \<le> A_PLOT_H" by (simp add: sketch_defs)
  show "A_PAD_top \<le> yOf scale w" "yOf scale w \<le> A_PAD_top + A_PLOT_H"
    using mult_right_mono [OF f(2) p, of w] mult_nonneg_nonneg [OF f(1) p, of w] by (simp_all add: yOf_def)
  assume "v \<le> w"
  then have "min (max v 0) scale / scale \<le> min (max w 0) scale / scale"
    using assms by (intro divide_right_mono) auto
  then show "yOf scale w \<le> yOf scale v" using mult_right_mono [OF _ p, of "min (max v 0) scale / scale" "min (max w 0) scale / scale"]
    by (simp add: yOf_def del: times_divide_eq_left)
qed

theorem sketch_stays_in_its_plot:
  "let k = CycleSketch a; (x, y, w, h) = sk_block k in
     A_PAD_top \<le> y \<and> 0 \<le> h \<and> y + h = A_PAD_top + A_PLOT_H \<and> A_PAD_left \<le> x \<and> 0 \<le> w \<and> x + w \<le> A_PAD_left + A_PLOT_W
     \<and> list_all (\<lambda>(x1, x2, sy). A_PAD_left \<le> x1 \<and> x1 \<le> x2 \<and> x2 \<le> A_PAD_left + A_PLOT_W
         \<and> A_PAD_top \<le> sy \<and> sy \<le> A_PAD_top + A_PLOT_H) (sk_shelves k)
     \<and> (case sk_band k of
          None \<Rightarrow> default_to 0 (ap_std_program_power_w a) \<le> 0
        | Some (bx, by', bw, bh) \<Rightarrow> bx = x \<and> bw = w \<and> A_PAD_top \<le> by' \<and> by' \<le> y \<and> y \<le> by' + bh
            \<and> by' + bh \<le> A_PAD_top + A_PLOT_H)"
proof -
  let ?p = "default_to 0 (ap_avg_program_power_w a)" and ?s = "default_to 0 (ap_std_program_power_w a)"
  let ?m = "maxScale ?p ?s"
  have m: "0 < ?m" using maxScale_bounds(1) [of ?p ?s] by simp
  note y = yOf_props(1,2) [OF m]
  have mono: "yOf ?m (?p + ?s) \<le> yOf ?m ?p \<and> yOf ?m ?p \<le> yOf ?m (?p - ?s)" if "0 < ?s"
    using that by (simp add: yOf_props(3) [OF m])
  have h: "0 \<le> A_PLOT_H" by (simp add: sketch_defs)
  have w: "0 \<le> A_PLOT_W" "A_PLOT_W * (1 / 5) \<le> A_PLOT_W * (4 / 5)" "A_PLOT_W * (4 / 5) \<le> A_PLOT_W"
    by (simp_all add: sketch_defs)
  show ?thesis
  proof (cases "0 < ?s")
    case True
    then show ?thesis using y mono w h by (simp add: CycleSketch_def Let_def max_def)
  next
    case False
    then show ?thesis using y w h by (simp add: CycleSketch_def Let_def)
  qed
qed

section \<open>Printed lengths\<close>

definition readLength :: "string \<Rightarrow> nat" where
  "readLength s =
     (let h = takeWhile is_digit s; rest = dropWhile is_digit s
      in if take 1 rest = '' '' then digits_val h
         else digits_val h * 60 + digits_val (takeWhile is_digit (drop 2 rest)))"

lemma digits_split: "\<not> is_digit c \<Longrightarrow> takeWhile is_digit (dec n @ c # s) = dec n"
  "\<not> is_digit c \<Longrightarrow> dropWhile is_digit (dec n @ c # s) = c # s"
  by (simp_all add: dec_digits takeWhile_append2 dropWhile_append2)

text \<open>
  The printed length of a run determines its minutes: reading the text of formatLength
  back gives the number it was printed from.
\<close>

theorem length_text_round_trip: "readLength (formatLength mins) = mins"
proof -
  have nd: "\<not> is_digit CHR '' ''" "\<not> is_digit CHR ''h''" "\<not> is_digit CHR ''m''" by (simp_all add: is_digit_def)
  have "digits_val [] = 0" by (simp add: digits_val_def)
  moreover have "mins div 60 * 60 + mins mod 60 = mins" by simp
  ultimately show ?thesis
    by (auto simp: readLength_def formatLength_def Let_def digits_split [OF nd(1)] digits_split [OF nd(2)] digits_split [OF nd(3)])
qed

section \<open>One request round at a time\<close>

definition appliances_ok :: "appliances_run \<Rightarrow> bool" where
  "appliances_ok s \<longleftrightarrow> ar_loads s = (if al_loading (ar_page s) then 1 else 0)
     \<and> ar_trains s = (if al_training (ar_page s) then 1 else 0)
     \<and> \<not> (al_loading (ar_page s) \<and> al_training (ar_page s))"

lemma appliances_ok_step: "appliances_step s s' \<Longrightarrow> appliances_ok s \<Longrightarrow> appliances_ok s'"
proof (induction rule: appliances_step.induct)
  case (press localeText p l t)
  then show ?case by (auto simp: appliances_ok_def Appliances_def reanalyse_def split: if_splits)
next
  case (loaded p l t o1 o2 r1 r2 r3)
  then show ?case by (auto simp: appliances_ok_def appliances_loaded_def split: if_splits sum.splits)
next
  case (trained p l t r)
  then show ?case by (auto simp: appliances_ok_def reanalysed_def appliances_load_def split: if_splits sum.splits)
qed

text \<open>
  The appliances page has at most one load or re-analysis under way, its button is enabled
  exactly when there is none, and it shows the loading text exactly during a load.
\<close>

theorem one_request_round_at_a_time:
  assumes "appliances_step\<^sup>*\<^sup>* appliances_start s"
  shows "ar_loads s + ar_trains s \<le> 1
    \<and> (snd (av_button (Appliances localeText (ar_page s))) \<longleftrightarrow> ar_loads s + ar_trains s = 0)
    \<and> (ar_loads s = 1 \<longleftrightarrow> av_body (Appliances localeText (ar_page s)) = AppliancesLoading)"
proof -
  have "appliances_ok appliances_start"
    by (simp add: appliances_start_def appliances_ok_def appliances_load_def appliances_open_def)
  with assms have "appliances_ok s" by induction (auto intro: appliances_ok_step)
  then show ?thesis by (auto simp: appliances_ok_def Appliances_def split: if_splits)
qed

theorem one_request_round_at_a_time_witness:
  "\<exists>s. appliances_step\<^sup>*\<^sup>* appliances_start s \<and> ar_trains s = 1 \<and> ar_loads s = 0"
proof -
  let ?e = "NoAnswer ''x''"
  let ?p = "appliances_loaded False False ?e ?e ?e (appliances_load appliances_open)"
  have "appliances_step appliances_start \<lparr>ar_page = ?p, ar_loads = 0, ar_trains = 0\<rparr>"
    unfolding appliances_start_def One_nat_def by (rule loaded)
  moreover have "snd (av_button (Appliances (\<lambda>_. []) ?p))"
    by (simp add: appliances_loaded_def promiseAll_def textChecked_def Appliances_def appliances_load_def appliances_open_def)
  then have "appliances_step \<lparr>ar_page = ?p, ar_loads = 0, ar_trains = 0\<rparr> \<lparr>ar_page = reanalyse ?p, ar_loads = 0, ar_trains = Suc 0\<rparr>"
    by (rule press)
  ultimately have "appliances_step\<^sup>*\<^sup>* appliances_start \<lparr>ar_page = reanalyse ?p, ar_loads = 0, ar_trains = Suc 0\<rparr>" by simp
  from this one_request_round_at_a_time [OF this, of "\<lambda>_. []"] show ?thesis by auto
qed

end
