(* ===== verification/Maintenance.thy ===== *)
theory Maintenance
  imports Forecast
begin

text \<open>
  The settings page with its factory reset (\<open>Settings.tsx\<close>) and the page of test operations
  (\<open>Test.tsx\<close>).
\<close>

section \<open>Factory reset\<close>

datatype reset_state = Idle | Confirm | Resetting | Done | ResetError

definition handleResetClick :: "reset_state \<Rightarrow> reset_state" where
  "handleResetClick s = Confirm"

text \<open>The second component is the request that is sent.\<close>

definition handleConfirm :: "reset_state \<Rightarrow> reset_state \<times> string" where
  "handleConfirm s = (Resetting, ''POST /api/factory-reset'')"

definition reset_answered :: "unit answer \<Rightarrow> reset_state \<Rightarrow> reset_state" where
  "reset_answered r s = (case checked r of Inr _ \<Rightarrow> Done | Inl _ \<Rightarrow> ResetError)"

definition handleCancel :: "reset_state \<Rightarrow> reset_state" where
  "handleCancel s = Idle"

datatype reset_view = ResetButton | CancelOrConfirm | ResetText string

definition SettingsPage :: "reset_state \<Rightarrow> reset_view" where
  "SettingsPage s =
     (case s of
        Idle \<Rightarrow> ResetButton
      | Confirm \<Rightarrow> CancelOrConfirm
      | Resetting \<Rightarrow> ResetText (''Resetting'' @ ellipsis)
      | Done \<Rightarrow> ResetText (''Done '' @ em_dash @ '' device is rebooting'')
      | ResetError \<Rightarrow> ResetText ''Reset failed'')"

text \<open>
  The page in use: its state and the requests sent so far.  Only the buttons that are shown can be
  pressed; an answer arrives while the request is under way.
\<close>

inductive reset_step :: "reset_state \<times> string list \<Rightarrow> reset_state \<times> string list \<Rightarrow> bool" where
  click: "SettingsPage s = ResetButton \<Longrightarrow> reset_step (s, q) (handleResetClick s, q)"
| cancel: "SettingsPage s = CancelOrConfirm \<Longrightarrow> reset_step (s, q) (handleCancel s, q)"
| confirm: "SettingsPage s = CancelOrConfirm \<Longrightarrow> reset_step (s, q) (fst (handleConfirm s), q @ [snd (handleConfirm s)])"
| answer: "s = Resetting \<Longrightarrow> reset_step (s, q) (reset_answered r s, q)"

inductive_cases reset_stepE: "reset_step p p'"

lemma reset_requests:
  assumes "reset_step\<^sup>*\<^sup>* (Idle, []) p"
  shows "snd p = (if fst p \<in> {Idle, Confirm} then [] else [''POST /api/factory-reset''])"
  using assms
proof induction
  case (step p p')
  then show ?case
    by (auto elim!: reset_stepE simp: SettingsPage_def handleResetClick_def handleCancel_def handleConfirm_def reset_answered_def
        split: reset_state.splits sum.splits if_splits)
qed simp

lemma reset_from_confirm:
  "reset_step (s, q) (s', q') \<Longrightarrow> q' \<noteq> q \<Longrightarrow> s = Confirm"
  by (auto elim!: reset_stepE simp: SettingsPage_def split: reset_state.splits)

lemma reset_final: "reset_step (s, q) p \<Longrightarrow> s \<noteq> Done \<and> s \<noteq> ResetError"
  by (auto elim!: reset_stepE simp: SettingsPage_def split: reset_state.splits)

theorem reset_is_sent_once_and_confirmed:
  assumes "reset_step\<^sup>*\<^sup>* (Idle, []) (s, q)"
  shows "(s \<in> {Idle, Confirm} \<longrightarrow> q = []) \<and> length q \<le> 1
    \<and> (\<forall>s' q'. reset_step (s, q) (s', q') \<longrightarrow> q' \<noteq> q \<longrightarrow> s = Confirm \<and> q = [] \<and> q' = [''POST /api/factory-reset''])
    \<and> ((\<nexists>p. reset_step (s, q) p) \<longleftrightarrow> s \<in> {Done, ResetError})"
proof -
  have q: "q = (if s \<in> {Idle, Confirm} then [] else [''POST /api/factory-reset''])" using reset_requests [OF assms] by simp
  have sent: "s = Confirm \<and> q = [] \<and> q' = [''POST /api/factory-reset'']" if st: "reset_step (s, q) (s', q')" and ne: "q' \<noteq> q" for s' q'
  proof -
    have c: "s = Confirm" using reset_from_confirm [OF st ne] .
    with q st ne show ?thesis
      by (auto elim!: reset_stepE simp: SettingsPage_def handleConfirm_def split: reset_state.splits)
  qed
  have "\<exists>p. reset_step (s, q) p" if "s \<notin> {Done, ResetError}"
  proof (cases s)
    case Idle
    then show ?thesis using click [of s q] by (auto simp: SettingsPage_def)
  next
    case Confirm
    then show ?thesis using cancel [of s q] by (auto simp: SettingsPage_def)
  next
    case Resetting
    then show ?thesis using answer [of s q] by auto
  qed (use that in auto)
  then have "(\<nexists>p. reset_step (s, q) p) \<longleftrightarrow> s \<in> {Done, ResetError}" using reset_final [of s q] by blast
  moreover have "(s \<in> {Idle, Confirm} \<longrightarrow> q = []) \<and> length q \<le> 1" using q by simp
  ultimately show ?thesis using sent by blast
qed

theorem reset_is_sent_once_and_confirmed_witness:
  "\<exists>s q. reset_step\<^sup>*\<^sup>* (Idle, []) (s, q) \<and> length q = 1 \<and> (\<nexists>p. reset_step (s, q) p)"
proof -
  have "reset_step (Idle, []) (Confirm, [])" using click [of Idle "[]"] by (simp add: SettingsPage_def handleResetClick_def)
  moreover have "reset_step (Confirm, []) (Resetting, [''POST /api/factory-reset''])"
    using confirm [of Confirm "[]"] by (simp add: SettingsPage_def handleConfirm_def)
  moreover have "reset_step (Resetting, [''POST /api/factory-reset'']) (ResetError, [''POST /api/factory-reset''])"
    using answer [of Resetting "[''POST /api/factory-reset'']" "Answer 500 ()"] by (simp add: reset_answered_def checked_def is_ok_def)
  ultimately have r: "reset_step\<^sup>*\<^sup>* (Idle, []) (ResetError, [''POST /api/factory-reset''])"
    by (meson converse_rtranclp_into_rtranclp rtranclp.rtrancl_refl)
  with reset_is_sent_once_and_confirmed [OF r] show ?thesis by (intro exI) auto
qed

section \<open>Test operations\<close>

record card_state =
  ct_loading :: bool
  ct_result :: "string option"
  ct_error :: "string option"

definition idle :: card_state where "idle = \<lparr>ct_loading = False, ct_result = None, ct_error = None\<rparr>"

definition busy :: card_state where "busy = \<lparr>ct_loading = True, ct_result = None, ct_error = None\<rparr>"

definition finished :: "('a \<Rightarrow> string) \<Rightarrow> (string \<times> (string + 'a)) answer \<Rightarrow> card_state" where
  "finished text r =
     (case textChecked r of
        Inr x \<Rightarrow> \<lparr>ct_loading = False, ct_result = Some (text x), ct_error = None\<rparr>
      | Inl e \<Rightarrow> \<lparr>ct_loading = False, ct_result = None, ct_error = Some e\<rparr>)"

datatype feedback = NoFeedback | Failed string | Succeeded string

definition Feedback :: "card_state \<Rightarrow> feedback" where
  "Feedback s =
     (case shownText (ct_error s) of
        Some e \<Rightarrow> Failed e
      | None \<Rightarrow> (case shownText (ct_result s) of Some t \<Rightarrow> Succeeded t | None \<Rightarrow> NoFeedback))"

text \<open>\<open>shift k t\<close> is the instant \<open>t\<close> moved by \<open>k\<close> local calendar days.\<close>

definition test_yesterday :: "(int \<Rightarrow> int \<Rightarrow> int) \<Rightarrow> int \<Rightarrow> string" where
  "test_yesterday shift now = isoDay (shift (-1) now)"

definition test_today :: "int \<Rightarrow> string" where
  "test_today now = isoDay now"

definition test_tomorrow :: "(int \<Rightarrow> int \<Rightarrow> int) \<Rightarrow> int \<Rightarrow> string" where
  "test_tomorrow shift now = isoDay (shift 1 now)"

record test_page =
  tp_sample :: card_state
  tp_sampleDate :: string
  tp_rollup :: card_state
  tp_rollupDate :: string
  tp_forecast :: card_state
  tp_forecastDate :: string
  tp_solar :: card_state
  tp_daily :: card_state

definition test_open :: "(int \<Rightarrow> int \<Rightarrow> int) \<Rightarrow> int \<Rightarrow> test_page" where
  "test_open shift now =
     \<lparr>tp_sample = idle, tp_sampleDate = test_yesterday shift now, tp_rollup = idle, tp_rollupDate = test_yesterday shift now,
      tp_forecast = idle, tp_forecastDate = test_tomorrow shift now, tp_solar = idle, tp_daily = idle\<rparr>"

text \<open>The triggers: the new page and the path of the POST request; \<open>...ed\<close> is its answer, with the
  date the request was made for.\<close>

definition triggerGenerate :: "test_page \<Rightarrow> test_page \<times> string" where
  "triggerGenerate p = (p\<lparr>tp_sample := busy\<rparr>, ''/api/test/generate-sample-data?date='' @ tp_sampleDate p)"

definition generated :: "string \<Rightarrow> (string \<times> (string + unit)) answer \<Rightarrow> test_page \<Rightarrow> test_page" where
  "generated date r p =
     p\<lparr>tp_sample := finished (\<lambda>_. ''1440 minutes of sample data written for '' @ date @ ''.'') r\<rparr>"

definition triggerRollup :: "test_page \<Rightarrow> test_page \<times> string" where
  "triggerRollup p = (p\<lparr>tp_rollup := busy\<rparr>, ''/api/test/rollup-hourly?date='' @ tp_rollupDate p)"

definition rolledUp :: "string \<Rightarrow> (string \<times> (string + unit)) answer \<Rightarrow> test_page \<Rightarrow> test_page" where
  "rolledUp date r p = p\<lparr>tp_rollup := finished (\<lambda>_. ''Hourly rollup complete for '' @ date @ ''.'') r\<rparr>"

definition triggerForecast :: "test_page \<Rightarrow> test_page \<times> string" where
  "triggerForecast p = (p\<lparr>tp_forecast := busy\<rparr>, ''/api/test/consumption-forecast/compute?date='' @ tp_forecastDate p)"

definition forecasted :: "string \<Rightarrow> (string \<times> (string + unit)) answer \<Rightarrow> test_page \<Rightarrow> test_page" where
  "forecasted date r p = p\<lparr>tp_forecast := finished (\<lambda>_. ''Consumption forecast computed for '' @ date @ ''.'') r\<rparr>"

definition triggerDailyJob :: "test_page \<Rightarrow> test_page \<times> string" where
  "triggerDailyJob p = (p\<lparr>tp_daily := busy\<rparr>, ''/api/test/run-daily-job'')"

definition dailyJobDone :: "int \<Rightarrow> (string \<times> (string + unit)) answer \<Rightarrow> test_page \<Rightarrow> test_page" where
  "dailyJobDone now r p =
     p\<lparr>tp_daily := finished (\<lambda>_. ''Nightly forecast job complete for '' @ test_today now @ '' (solar, consumption, surplus).'') r\<rparr>"

definition triggerSolar :: "test_page \<Rightarrow> test_page \<times> string" where
  "triggerSolar p = (p\<lparr>tp_solar := busy\<rparr>, ''/api/forecast/solar/fetch'')"

text \<open>The answer carries the total energy and the date.\<close>

definition solarFetched :: "(string \<times> (string + rat \<times> string)) answer \<Rightarrow> test_page \<Rightarrow> test_page" where
  "solarFetched r p =
     p\<lparr>tp_solar := finished (\<lambda>(total_wh, date). ''Fetched solar forecast for '' @ date @ '' '' @ em_dash @ '' ''
          @ toFixed 2 (total_wh / 1000) @ '' kWh total.'') r\<rparr>"

text \<open>The three date fields.\<close>

definition setSampleDate :: "string \<Rightarrow> test_page \<Rightarrow> test_page" where "setSampleDate d p = p\<lparr>tp_sampleDate := d\<rparr>"
definition setRollupDate :: "string \<Rightarrow> test_page \<Rightarrow> test_page" where "setRollupDate d p = p\<lparr>tp_rollupDate := d\<rparr>"
definition setForecastDate :: "string \<Rightarrow> test_page \<Rightarrow> test_page" where "setForecastDate d p = p\<lparr>tp_forecastDate := d\<rparr>"

text \<open>A card as it is drawn: its title and text, its date, the text and state of its button, and the
  feedback.\<close>

record test_card =
  tc_title :: string
  tc_text :: string
  tc_date :: "string option"
  tc_button :: string
  tc_enabled :: bool
  tc_feedback :: feedback

definition testCard :: "string \<Rightarrow> string \<Rightarrow> string option \<Rightarrow> string \<Rightarrow> string \<Rightarrow> card_state \<Rightarrow> test_card" where
  "testCard title text date busyText label s =
     \<lparr>tc_title = title, tc_text = text, tc_date = date,
      tc_button = (if ct_loading s then busyText @ ellipsis else label),
      tc_enabled = (\<not> ct_loading s), tc_feedback = Feedback s\<rparr>"

definition TestPage :: "test_page \<Rightarrow> test_card list" where
  "TestPage p =
     [testCard ''Run Nightly Forecast Job''
        (''Trigger the full nightly pipeline for the current date: fetch the solar forecast, compute the ''
          @ ''consumption forecast, then derive and save the surplus forecast. Overwrites any existing files for that day.'')
        None ''Running'' ''Run Nightly Job'' (tp_daily p),
      testCard ''Generate Sample Data''
        ''Write 1440 synthetic 1-minute power readings for a date, ready for rollup and forecast testing.''
        (Some (tp_sampleDate p)) ''Generating'' ''Generate'' (tp_sample p),
      testCard ''Hourly Rollup'' ''Average a day's 1-min grid records into 24 hourly buckets.''
        (Some (tp_rollupDate p)) ''Running'' ''Run'' (tp_rollup p),
      testCard ''Compute Consumption Forecast'' ''Run the same-weekday baseline to predict hourly consumption for a date.''
        (Some (tp_forecastDate p)) ''Running'' ''Run'' (tp_forecast p),
      testCard ''Fetch Solar Forecast'' ''Pull tomorrow's PV generation estimate from Forecast.Solar.''
        None ''Fetching'' ''Fetch'' (tp_solar p)]"

lemma Feedback_finished:
  "Feedback (finished text r) =
     (case textChecked r of
        Inr x \<Rightarrow> if text x = [] then NoFeedback else Succeeded (text x)
      | Inl e \<Rightarrow> if e = [] then NoFeedback else Failed e)"
  by (simp add: Feedback_def finished_def shownText_def split: sum.split)

text \<open>A failure whose answer has no text leaves no trace on the card.\<close>

lemma silent_failure: "Feedback (finished text (Answer 500 ([], x))) = NoFeedback"
  by (simp add: Feedback_finished textChecked_def is_ok_def)

end
