(* ===== verification/MockEnergy.thy ===== *)
theory MockEnergy
  imports MockServer PowerHistory "HOL-Library.Word"
begin

text \<open>
  The daily energies the development server makes up (\<open>GET /api/data/daily-energy\<close> of
  \<open>mocks/handlers.ts\<close>): noise from a 32-bit hash, loads, solar and grid streams, the split between
  solar and grid, and the costs.  Ids are ASCII, so a character is one code unit.
\<close>

unbundle bit_operations_syntax

section \<open>The noise\<close>

text \<open>One round of the hash: \<open>Math.imul(h ^ c, 16777619)\<close>, the low 32 bits of the product.\<close>

definition hashStep :: "32 word \<Rightarrow> char \<Rightarrow> 32 word" where
  "hashStep h c = (h XOR of_nat (of_char c)) * 16777619"

definition randHash :: "string \<Rightarrow> 32 word" where
  "randHash text = foldl hashStep 2166136261 text"

definition rand :: "string \<Rightarrow> rat" where
  "rand text = of_nat (unat (randHash text) mod 1000) / 1000"

text \<open>\<open>+x.toFixed(f)\<close>: the number that is printed with \<open>f\<close> decimals.\<close>

definition fixed :: "nat \<Rightarrow> rat \<Rightarrow> rat" where
  "fixed f x = (if x < 0 then -1 else 1) * of_int \<lfloor>\<bar>x\<bar> * 10 ^ f + 1 / 2\<rfloor> / 10 ^ f"

section \<open>One day\<close>

type_synonym stream = "string \<times> string"

definition loadStreams :: "stream list \<Rightarrow> stream list" where
  "loadStreams ss = filter (\<lambda>s. snd s = ''load'') ss"

definition loadKwh :: "string \<Rightarrow> stream \<Rightarrow> rat" where
  "loadKwh date s = fixed 3 (1 / 2 + rand (fst s @ ''-'' @ date) * 3)"

text \<open>The loop over the loads: the object being filled and the sum.\<close>

definition loadLoop :: "string \<Rightarrow> stream list \<Rightarrow> (string \<rightharpoonup> rat) \<times> rat" where
  "loadLoop date ss =
     foldl (\<lambda>(kwh, loads) s. let v = loadKwh date s in (kwh(fst s \<mapsto> v), loads + v)) (Map.empty, 0) (loadStreams ss)"

definition mockTotal :: "string \<Rightarrow> stream list \<Rightarrow> rat" where
  "mockTotal date ss = snd (loadLoop date ss) + 4 + rand (''base-'' @ date) * 3"

definition mockSolar :: "string \<Rightarrow> stream list \<Rightarrow> rat" where
  "mockSolar date ss = (if list_ex (\<lambda>s. snd s = ''solar'') ss then rand (''sun-'' @ date) * 10 else 0)"

definition meterStep :: "rat \<Rightarrow> rat \<Rightarrow> (string \<rightharpoonup> rat) \<Rightarrow> stream \<Rightarrow> (string \<rightharpoonup> rat)" where
  "meterStep tot solar kwh s =
     (let kwh1 = (if snd s = ''solar'' then kwh(fst s \<mapsto> - fixed 3 solar) else kwh)
      in if snd s = ''grid'' then kwh1(fst s \<mapsto> fixed 3 (tot - solar)) else kwh1)"

definition mockKwh :: "string \<Rightarrow> stream list \<Rightarrow> (string \<rightharpoonup> rat)" where
  "mockKwh date ss = foldl (meterStep (mockTotal date ss) (mockSolar date ss)) (fst (loadLoop date ss)) ss"

definition selfFrac :: "string \<Rightarrow> stream list \<Rightarrow> rat" where
  "selfFrac date ss =
     (if mockSolar date ss > 0 then min 1 (mockSolar date ss / mockTotal date ss) else rand (''sun-'' @ date) * (6 / 10))"

definition splitInto :: "rat \<Rightarrow> string \<times> rat \<Rightarrow> (string \<rightharpoonup> rat) \<times> (string \<rightharpoonup> rat) \<Rightarrow> (string \<rightharpoonup> rat) \<times> (string \<rightharpoonup> rat)" where
  "splitInto self p m =
     (let (i, v) = p; (solar_kwh, grid_kwh) = m; f = min 1 (self * (1 / 2 + rand (''self-'' @ i)))
      in (solar_kwh(i \<mapsto> fixed 3 (v * f)), grid_kwh(i \<mapsto> fixed 3 (v * (1 - f)))))"

definition mockSplit :: "string \<Rightarrow> stream list \<Rightarrow> (string \<rightharpoonup> rat) \<times> (string \<rightharpoonup> rat)" where
  "mockSplit date ss =
     foldl (\<lambda>m p. splitInto (selfFrac date ss) p m) (Map.empty, Map.empty)
       (map (\<lambda>s. (fst s, default_to 0 (mockKwh date ss (fst s)))) (loadStreams ss)
        @ [(UNMONITORED_ID, mockTotal date ss - snd (loadLoop date ss))])"

definition mockCost :: "string \<Rightarrow> stream list \<Rightarrow> (string \<rightharpoonup> rat)" where
  "mockCost date ss =
     (let total = mockTotal date ss; importCost = max 0 (total - mockSolar date ss) * (22 / 100)
      in (foldl (\<lambda>m s. m(fst s \<mapsto> fixed 4 (importCost * default_to 0 (mockKwh date ss (fst s)) / total))) Map.empty (loadStreams ss))
           (UNMONITORED_ID \<mapsto> fixed 4 (importCost * (total - snd (loadLoop date ss)) / total)))"

definition mockDay :: "bool \<Rightarrow> nat \<Rightarrow> string \<Rightarrow> stream list \<Rightarrow> energy_day" where
  "mockDay tariff ago date ss =
     (if ago = 12 \<or> ago = 13
      then \<lparr>ed_date = date, ed_kwh = Map.empty, ed_cost = None, ed_solar_kwh = None, ed_grid_kwh = None\<rparr>
      else \<lparr>ed_date = date, ed_kwh = mockKwh date ss,
             ed_cost = (if ago < TARIFF_DAYS_OF_HISTORY \<and> tariff then Some (mockCost date ss) else None),
             ed_solar_kwh = Some (fst (mockSplit date ss)), ed_grid_kwh = Some (snd (mockSplit date ss))\<rparr>)"

section \<open>The route\<close>

text \<open>The number of days asked for, a whole number: \<open>Some None\<close> is a text that is not a number.\<close>

definition historyDays :: "int option option \<Rightarrow> nat" where
  "historyDays days =
     (let n = default_to 0 (case days of None \<Rightarrow> Some 30 | Some v \<Rightarrow> v)
      in nat (min 60 (max 1 (if n = 0 then 30 else n))))"

definition roleOf :: "string \<Rightarrow> energy_role" where
  "roleOf r = (if r = ''grid'' then EGrid else if r = ''solar'' then ESolar else ELoad)"

text \<open>\<open>dateOf k\<close> is the local date \<open>k\<close> days ago.\<close>

definition dailyEnergy :: "(nat \<Rightarrow> string) \<Rightarrow> int option option \<Rightarrow> server \<Rightarrow> daily_energy" where
  "dailyEnergy dateOf days sv =
     (let ss = streams (sv_edges sv); tariff = has_node ''tariff'' (sv_nodes sv)
      in \<lparr>dy_nodes = map (\<lambda>s. \<lparr>eg_id = fst s, eg_role = roleOf (snd s)\<rparr>) ss,
          dy_days = map (\<lambda>ago. mockDay tariff ago (dateOf ago) ss) (rev [0..<historyDays days]),
          dy_currency = (if tariff then Some 826 else None)\<rparr>)"

end
