(* ===== verification/MockEnergyProps.thy ===== *)
theory MockEnergyProps
  imports MockEnergy PowerHistoryProps
begin

text \<open>
  The energies the development server makes up are what the usage history reads back: the total of
  a day agrees up to rounding, the parts of the loads exactly.
\<close>

section \<open>Noise and rounding\<close>

lemma rand_bounds: "0 \<le> rand t" "rand t < 1"
proof -
  have "unat (randHash t) mod 1000 < 1000" by simp
  then have "(of_nat (unat (randHash t) mod 1000) :: rat) < 1000" by (metis of_nat_less_iff of_nat_numeral)
  then show "rand t < 1" by (simp add: rand_def)
qed (simp add: rand_def)

lemma fixed_near: "\<bar>fixed f x - x\<bar> \<le> 1 / (2 * 10 ^ f)"
proof -
  define y where "y = \<bar>x\<bar> * 10 ^ f"
  have p: "(0::rat) < 10 ^ f" by simp
  have "\<bar>of_int \<lfloor>y + 1 / 2\<rfloor> - y\<bar> \<le> 1 / 2" by linarith
  then have "\<bar>of_int \<lfloor>y + 1 / 2\<rfloor> - y\<bar> / 10 ^ f \<le> (1 / 2) / 10 ^ f" using p by (intro divide_right_mono) simp_all
  moreover have "\<bar>of_int \<lfloor>y + 1 / 2\<rfloor> - y\<bar> / 10 ^ f = \<bar>of_int \<lfloor>y + 1 / 2\<rfloor> / 10 ^ f - \<bar>x\<bar>\<bar>"
  proof -
    have "\<bar>of_int \<lfloor>y + 1 / 2\<rfloor> - y\<bar> / 10 ^ f = \<bar>(of_int \<lfloor>y + 1 / 2\<rfloor> - y) / 10 ^ f\<bar>" using p by simp
    also have "(of_int \<lfloor>y + 1 / 2\<rfloor> - y) / 10 ^ f = of_int \<lfloor>y + 1 / 2\<rfloor> / 10 ^ f - \<bar>x\<bar>"
      using p by (simp add: diff_divide_distrib y_def)
    finally show ?thesis .
  qed
  moreover have "\<bar>fixed f x - x\<bar> = \<bar>of_int \<lfloor>y + 1 / 2\<rfloor> / 10 ^ f - \<bar>x\<bar>\<bar>"
    by (simp add: fixed_def y_def) (simp add: abs_if)
  ultimately show ?thesis by simp
qed

lemma fixed_exact: "0 \<le> k \<Longrightarrow> fixed f (of_int k / 10 ^ f) = of_int k / 10 ^ f"
proof -
  assume "0 \<le> k"
  then have "\<bar>(of_int k :: rat) / 10 ^ f\<bar> * 10 ^ f + 1 / 2 = of_int k + 1 / 2" by simp
  moreover have "\<lfloor>of_int k + 1 / 2 :: rat\<rfloor> = k" by linarith
  moreover have "\<not> (of_int k :: rat) / 10 ^ f < 0" using \<open>0 \<le> k\<close> by (simp add: not_less)
  ultimately show ?thesis by (simp add: fixed_def)
qed

lemma fixed_0 [simp]: "fixed f 0 = 0"
  using fixed_exact [of 0 f] by simp

lemma loadKwh_exact: "loadKwh date s = 1 / 2 + rand (fst s @ ''-'' @ date) * 3"
proof -
  let ?k = "500 + 3 * int (unat (randHash (fst s @ ''-'' @ date)) mod 1000)"
  have "1 / 2 + rand (fst s @ ''-'' @ date) * 3 = of_int ?k / 10 ^ 3" by (simp add: rand_def field_simps)
  moreover have "fixed 3 (of_int ?k / 10 ^ 3) = of_int ?k / 10 ^ 3" by (rule fixed_exact) simp
  ultimately show ?thesis unfolding loadKwh_def by metis
qed

lemma loadKwh_bounds: "1 / 2 \<le> loadKwh date s" "loadKwh date s < 7 / 2"
  using rand_bounds [of "fst s @ ''-'' @ date"] by (simp_all add: loadKwh_exact)

section \<open>What a day holds\<close>

lemma loadLoop_eq:
  "loadLoop date ss = (foldl (\<lambda>m s. m(fst s \<mapsto> loadKwh date s)) Map.empty (loadStreams ss),
     sum_list (map (loadKwh date) (loadStreams ss)))"
proof -
  have "foldl (\<lambda>(kwh, loads) s. let v = loadKwh date s in (kwh(fst s \<mapsto> v), loads + v)) (m, a) xs =
    (foldl (\<lambda>m s. m(fst s \<mapsto> loadKwh date s)) m xs, a + sum_list (map (loadKwh date) xs))" for m :: "string \<rightharpoonup> rat" and a xs
    by (induction xs arbitrary: m a) (simp_all add: Let_def add.assoc)
  then show ?thesis by (simp add: loadLoop_def)
qed

definition meterValue :: "rat \<Rightarrow> rat \<Rightarrow> stream \<Rightarrow> rat" where
  "meterValue tot solar s = (if snd s = ''grid'' then fixed 3 (tot - solar) else - fixed 3 solar)"

lemma meterStep_put:
  "meterStep tot solar = (\<lambda>m s. if snd s \<in> {''grid'', ''solar''} then m(fst s \<mapsto> meterValue tot solar s) else m)"
  by (intro ext) (simp add: meterStep_def meterValue_def Let_def)

lemma mockKwh_load:
  assumes "distinct (map fst ss)" and "s \<in> set (loadStreams ss)"
  shows "mockKwh date ss (fst s) = Some (loadKwh date s)"
proof -
  have s: "s \<in> set ss" "snd s = ''load''" using assms(2) by (simp_all add: loadStreams_def)
  have "find (\<lambda>x. snd x \<in> {''grid'', ''solar''} \<and> fst x = fst s) (rev ss) = None"
  proof (rule ccontr)
    assume "\<not> ?thesis"
    then obtain x where x: "find (\<lambda>x. snd x \<in> {''grid'', ''solar''} \<and> fst x = fst s) (rev ss) = Some x" by auto
    have "x \<in> set ss" "fst x = fst s" "snd x \<in> {''grid'', ''solar''}" using find_SomeD [OF x] by auto
    then have "x = s" using distinct_keyD [OF assms(1) _ s(1), of x] by blast
    then show False using \<open>snd x \<in> _\<close> s(2) by simp
  qed
  then have "mockKwh date ss (fst s) = fst (loadLoop date ss) (fst s)"
    unfolding mockKwh_def meterStep_put foldl_put by simp
  moreover have "distinct (map fst (loadStreams ss))"
    using assms(1) by (simp add: loadStreams_def distinct_map_filter_key)
  then have "find (\<lambda>x. True \<and> fst x = fst s) (rev (loadStreams ss)) = Some s"
    using assms(2) find_rev_distinct [of fst "loadStreams ss" "\<lambda>_. True" "fst s" s] by simp
  then have "foldl (\<lambda>m s. if True then m(fst s \<mapsto> loadKwh date s) else m) Map.empty (loadStreams ss) (fst s) = Some (loadKwh date s)"
    unfolding foldl_put by simp
  ultimately show ?thesis by (simp add: loadLoop_eq)
qed

lemma mockKwh_meter:
  assumes "distinct (map fst ss)" and "s \<in> set ss" and "snd s \<in> {''grid'', ''solar''}"
  shows "mockKwh date ss (fst s) = Some (meterValue (mockTotal date ss) (mockSolar date ss) s)"
proof -
  have "find (\<lambda>x. snd x \<in> {''grid'', ''solar''} \<and> fst x = fst s) (rev ss) = Some s"
    using find_rev_distinct [OF assms(1), of "\<lambda>x. snd x \<in> {''grid'', ''solar''}" "fst s" s] assms(2,3) by simp
  then show ?thesis unfolding mockKwh_def meterStep_put foldl_put by simp
qed

lemma streams_roles: "s \<in> set (streams es) \<Longrightarrow> snd s \<in> {''grid'', ''solar'', ''load''}"
  unfolding streams_def
  by (induction es rule: rev_induct) (auto simp: streamStep_def streamRole_def Let_def split: if_splits option.splits)

lemma streams_distinct: "distinct (map fst (streams es))"
  unfolding streams_def by (induction es rule: rev_induct) (auto simp: streamStep_def Let_def)

section \<open>The history reads it back\<close>

lemma idsOf_dailyEnergy:
  "idsOf EGrid (dailyEnergy dateOf days sv) = map fst (filter (\<lambda>s. snd s = ''grid'') (streams (sv_edges sv)))"
  "idsOf ESolar (dailyEnergy dateOf days sv) = map fst (filter (\<lambda>s. snd s = ''solar'') (streams (sv_edges sv)))"
  "idsOf ELoad (dailyEnergy dateOf days sv) = map fst (loadStreams (streams (sv_edges sv)))"
proof -
  have "filter (\<lambda>s. roleOf (snd s) = ELoad) (streams (sv_edges sv)) = loadStreams (streams (sv_edges sv))"
    unfolding loadStreams_def using streams_roles by (intro filter_cong) (auto simp: roleOf_def)
  moreover have "roleOf r = EGrid \<longleftrightarrow> r = ''grid''" "roleOf r = ESolar \<longleftrightarrow> r = ''solar''" for r by (simp_all add: roleOf_def)
  ultimately show
    "idsOf EGrid (dailyEnergy dateOf days sv) = map fst (filter (\<lambda>s. snd s = ''grid'') (streams (sv_edges sv)))"
    "idsOf ESolar (dailyEnergy dateOf days sv) = map fst (filter (\<lambda>s. snd s = ''solar'') (streams (sv_edges sv)))"
    "idsOf ELoad (dailyEnergy dateOf days sv) = map fst (loadStreams (streams (sv_edges sv)))"
    by (simp_all add: idsOf_def dailyEnergy_def Let_def filter_map comp_def)
qed

lemma solar_reading:
  assumes "distinct (map fst ss)" and "length (filter (\<lambda>s. snd s = ''solar'') ss) \<le> 1" and "ed_kwh d = mockKwh date ss"
  shows "sumKwh d (map fst (filter (\<lambda>s. snd s = ''solar'') ss)) = - fixed 3 (mockSolar date ss)"
proof (cases "filter (\<lambda>s. snd s = ''solar'') ss")
  case Nil
  then have "\<not> list_ex (\<lambda>s. snd s = ''solar'') ss" by (auto simp: list_ex_iff filter_empty_conv)
  then show ?thesis unfolding Nil by (simp add: sumKwh_def mockSolar_def)
next
  case (Cons s xs)
  then have xs: "filter (\<lambda>s. snd s = ''solar'') ss = [s]" using assms(2) by simp
  then have s: "s \<in> set ss" "snd s = ''solar''" by (auto dest: filter_eq_singleD)
  have "mockKwh date ss (fst s) = Some (- fixed 3 (mockSolar date ss))"
    using mockKwh_meter [OF assms(1) s(1), of date] s(2) by (simp add: meterValue_def)
  then show ?thesis unfolding xs by (simp add: sumKwh_def assms(3))
qed

text \<open>
  The usage history reads back the energies the development server makes up: the total of
  a day agrees with the one they were generated from up to a watt hour of rounding, every load
  has exactly its own energy, and the unmonitored rest is what the generator left unmetered,
  between four and seven kilowatt hours.
\<close>

theorem mock_day_reads_back:
  assumes "filter (\<lambda>s. snd s = ''grid'') (streams (sv_edges sv)) = [g]"
    and "length (filter (\<lambda>s. snd s = ''solar'') (streams (sv_edges sv))) \<le> 1"
    and "UNMONITORED_ID \<notin> fst ` set (streams (sv_edges sv))" and "ago \<noteq> 12" "ago \<noteq> 13"
    and b: "b = buildDay (dailyEnergy dateOf days sv) (mockDay tariff ago date (streams (sv_edges sv)))"
  shows "(\<exists>t. db_total b = Some t \<and> \<bar>t - mockTotal date (streams (sv_edges sv))\<bar> \<le> 1 / 1000)
    \<and> (\<forall>s\<in>set (loadStreams (streams (sv_edges sv))). part b (fst s) = loadKwh date s)
    \<and> 3999 / 1000 \<le> part b UNMONITORED_ID \<and> part b UNMONITORED_ID < 7001 / 1000"
proof -
  let ?ss = "streams (sv_edges sv)" and ?data = "dailyEnergy dateOf days sv"
  let ?d = "mockDay tariff ago date ?ss"
  have dist: "distinct (map fst ?ss)" by (rule streams_distinct)
  have kwh: "ed_kwh ?d = mockKwh date ?ss" using assms(4,5) by (simp add: mockDay_def)
  have g: "g \<in> set ?ss" "snd g = ''grid''" using filter_eq_singleD [OF assms(1)] by auto
  define tot where "tot = mockTotal date ?ss"
  define sol where "sol = mockSolar date ?ss"
  have gk: "ed_kwh ?d (fst g) = Some (fixed 3 (tot - sol))"
    using mockKwh_meter [OF dist g(1), of date] g(2) by (simp add: kwh meterValue_def tot_def sol_def)
  have grid: "idsOf EGrid ?data = [fst g]" by (simp add: idsOf_dailyEnergy assms(1))
  have solar: "sumKwh ?d (idsOf ESolar ?data) = - fixed 3 sol"
    unfolding idsOf_dailyEnergy sol_def by (rule solar_reading [OF dist assms(2) kwh])
  have ok: "streams_ok ?data"
    using dist assms(3) by (auto simp: streams_ok_def idsOf_dailyEnergy loadStreams_def distinct_map_filter_key)
  define loads where "loads = partsSum (loadParts ?d (loadIds ?data)) (loadIds ?data)"
  have lp: "loadParts ?d (loadIds ?data) (fst s) = Some (loadKwh date s)" if "s \<in> set (loadStreams ?ss)" for s
    using that loadKwh_bounds(1) [of date s] mockKwh_load [OF dist that, of date]
    by (auto simp: loadParts_lookup loadIds_def idsOf_dailyEnergy kwh max_def)
  have "loads = sum_list (map (\<lambda>i. default_to 0 (loadParts ?d (loadIds ?data) i)) (loadIds ?data))"
    using streams_ok_loadIds(1) [OF ok] by (simp add: loads_def partsSum_sum distinct_remdups_id)
  also have "\<dots> = sum_list (map (\<lambda>i. default_to 0 (loadParts ?d (loadIds ?data) i)) (idsOf ELoad ?data))"
    unfolding sum_mset_sum_list [symmetric] by (rule arg_cong [where f = sum_mset]) (simp add: loadIds_def)
  also have "\<dots> = sum_list (map (loadKwh date) (loadStreams ?ss))"
    unfolding idsOf_dailyEnergy map_map by (rule sum_list_cong) (simp add: lp)
  finally have l: "loads = snd (loadLoop date ?ss)" by (simp add: loadLoop_eq)
  define t where "t = fixed 3 (tot - sol) + fixed 3 sol"
  have t: "\<bar>t - tot\<bar> \<le> 1 / 1000"
  proof -
    have "t - tot = (fixed 3 (tot - sol) - (tot - sol)) + (fixed 3 sol - sol)" by (simp add: t_def)
    then have "\<bar>t - tot\<bar> \<le> \<bar>fixed 3 (tot - sol) - (tot - sol)\<bar> + \<bar>fixed 3 sol - sol\<bar>" using abs_triangle_ineq by metis
    also have "\<dots> \<le> 1 / 2000 + 1 / 2000" using fixed_near [of 3 "tot - sol"] fixed_near [of 3 sol] by (intro add_mono) simp_all
    finally show ?thesis by simp
  qed
  have tl: "loads + 4 \<le> tot" "tot < loads + 7"
    using rand_bounds [of "''base-'' @ date"] by (simp_all add: l tot_def mockTotal_def)
  have mx: "max loads (sumKwh ?d (idsOf EGrid ?data) - sumKwh ?d (idsOf ESolar ?data)) = t"
  proof -
    have "sumKwh ?d (idsOf EGrid ?data) - sumKwh ?d (idsOf ESolar ?data) = t"
      unfolding solar by (simp add: grid sumKwh_def gk t_def)
    moreover have "loads \<le> t" using abs_le_D2 [OF t] tl(1) by linarith
    ultimately show ?thesis by (simp only: max_absorb2)
  qed
  have ex: "list_ex (\<lambda>i. ed_kwh ?d i \<noteq> None) (idsOf EGrid ?data)" by (simp add: grid gk)
  have bt: "b = \<lparr>db_date = ed_date ?d, db_total = Some t, db_parts = (loadParts ?d (loadIds ?data))(UNMONITORED_ID \<mapsto> t - loads)\<rparr>"
    unfolding b buildDay_def Let_def mx loads_def [symmetric] using ex by simp
  have "part b (fst s) = loadKwh date s" if "s \<in> set (loadStreams ?ss)" for s
  proof -
    have "fst s \<noteq> UNMONITORED_ID" using that assms(3) by (metis (no_types, lifting) image_eqI loadStreams_def mem_Collect_eq set_filter)
    then show ?thesis using lp [OF that] by (simp add: bt part_def)
  qed
  moreover have "part b UNMONITORED_ID = t - loads" by (simp add: bt part_def)
  moreover have "3999 / 1000 \<le> t - loads" "t - loads < 7001 / 1000"
    using abs_le_D1 [OF t] abs_le_D2 [OF t] tl by linarith+
  ultimately show ?thesis using t by (simp add: bt tot_def)
qed

definition small_server :: server where
  "small_server = seed\<lparr>sv_edges :=
     [\<lparr>se_id = ''g'', se_source = ''meter'', se_target = ''consumer_unit'', se_sourceHandle = None, se_targetHandle = Some ''grid''\<rparr>,
      \<lparr>se_id = ''o'', se_source = ''consumer_unit'', se_target = ''oven'', se_sourceHandle = Some ''circuit_1'', se_targetHandle = None\<rparr>]\<rparr>"

theorem mock_day_reads_back_witness:
  "\<exists>t. db_total (buildDay (dailyEnergy (\<lambda>_. ''2026-06-01'') None small_server)
      (mockDay True 0 ''2026-06-01'' (streams (sv_edges small_server)))) = Some t
    \<and> \<bar>t - mockTotal ''2026-06-01'' (streams (sv_edges small_server))\<bar> \<le> 1 / 1000"
proof -
  have ss: "streams (sv_edges small_server) = [(''meter'', ''grid''), (''oven'', ''load'')]"
    by (simp add: small_server_def streams_def streamStep_def streamRole_def starts_with_def)
  show ?thesis
    using mock_day_reads_back [of small_server "(''meter'', ''grid'')" 0 _ "\<lambda>_. ''2026-06-01''" None True "''2026-06-01''"]
    by (simp add: ss UNMONITORED_ID_def)
qed

end
