(* ===== verification/MockRecords.thy ===== *)
theory MockRecords
  imports PowerChart
begin

text \<open>
  The power records the development server makes up (\<open>GET /api/data/grid\<close> and \<open>/api/data/node\<close>
  of \<open>mocks/handlers.ts\<close>), and what the daily chart draws of them.  \<open>rnd t\<close> is the random number
  in \<open>[0, 1)\<close> drawn for minute \<open>t\<close>, \<open>sinPi x\<close> the sine of \<open>x\<close> half turns.
\<close>

text \<open>\<open>for (let t = start; t < end; t += 60)\<close>.\<close>

function minuteTimes :: "int \<Rightarrow> int \<Rightarrow> int list" where
  "minuteTimes t hi = (if t < hi then t # minuteTimes (t + 60) hi else [])"
  by auto
termination by (relation "measure (\<lambda>(t, hi). nat (hi - t))") auto

declare minuteTimes.simps [simp del]

text \<open>The end of the loop: the end of the day, or now.\<close>

definition endTime :: "int \<Rightarrow> int \<Rightarrow> int" where
  "endTime startOfDay nowSec = min nowSec (startOfDay + 86400)"

definition hourOfDay :: "int \<Rightarrow> int \<Rightarrow> rat" where
  "hourOfDay startOfDay t = of_int (t - startOfDay) / 3600"

definition gridPower :: "(rat \<Rightarrow> rat) \<Rightarrow> (int \<Rightarrow> rat) \<Rightarrow> int \<Rightarrow> int \<Rightarrow> rat" where
  "gridPower sinPi rnd startOfDay t =
     (let hour = hourOfDay startOfDay t;
          morning = (if hour \<ge> 7 \<and> hour < 9 then 1800 * sinPi ((hour - 7) / 2) else 0);
          evening = (if hour \<ge> 17 \<and> hour < 21 then 2500 * sinPi ((hour - 17) / 4) else 0);
          solar = (if hour \<ge> 9 \<and> hour < 17 then 3000 * sinPi ((hour - 9) / 8) else 0);
          noise = (rnd t - 1 / 2) * 150
      in of_int (math_round (400 + morning + evening - solar + noise)))"

definition gridRecords :: "(rat \<Rightarrow> rat) \<Rightarrow> (int \<Rightarrow> rat) \<Rightarrow> int \<Rightarrow> int \<Rightarrow> power_record list" where
  "gridRecords sinPi rnd startOfDay nowSec =
     map (\<lambda>t. \<lparr>pr_minute = t, pr_power = gridPower sinPi rnd startOfDay t\<rparr>)
       (minuteTimes startOfDay (endTime startOfDay nowSec))"

definition bursts :: "(rat \<times> rat) list" where
  "bursts = [(11, 118 / 10), (18, 1925 / 100)]"

definition duty :: "int \<Rightarrow> int \<Rightarrow> bool" where
  "duty startOfDay t \<longleftrightarrow>
     list_ex (\<lambda>(a, b). hourOfDay startOfDay t \<ge> a \<and> hourOfDay startOfDay t < b) bursts
     \<and> (t - startOfDay) div 60 mod 5 < 3"

definition nodePower :: "(int \<Rightarrow> rat) \<Rightarrow> int \<Rightarrow> int \<Rightarrow> rat" where
  "nodePower rnd startOfDay t =
     (let noise = (if duty startOfDay t then (rnd t - 1 / 2) * 120 else 0)
      in of_int (math_round ((if duty startOfDay t then 2000 else 0) + noise)))"

definition nodeRecords :: "(int \<Rightarrow> rat) \<Rightarrow> string \<Rightarrow> int \<Rightarrow> int \<Rightarrow> power_record list" where
  "nodeRecords rnd i startOfDay nowSec =
     (if i \<noteq> ''node_11'' then []
      else map (\<lambda>t. \<lparr>pr_minute = t, pr_power = nodePower rnd startOfDay t\<rparr>)
        (minuteTimes startOfDay (endTime startOfDay nowSec)))"

section \<open>The chart of a made-up day\<close>

lemma minuteTimes_range: "x \<in> set (minuteTimes t hi) \<Longrightarrow> t \<le> x \<and> x < hi"
proof (induction t hi rule: minuteTimes.induct)
  case (1 t hi)
  then show ?case by (subst (asm) (2) minuteTimes.simps) (fastforce split: if_splits)
qed

lemma minuteTimes_ends:
  "t < hi \<Longrightarrow> minuteTimes t hi \<noteq> [] \<and> hd (minuteTimes t hi) = t \<and> hi \<le> last (minuteTimes t hi) + 60"
proof (induction t hi rule: minuteTimes.induct)
  case (1 t hi)
  show ?case
  proof (cases "t + 60 < hi")
    case True
    then show ?thesis using 1 by (subst (1 2 3) minuteTimes.simps) simp
  next
    case False
    then have "minuteTimes (t + 60) hi = []" by (simp add: minuteTimes.simps [of "t + 60"])
    then show ?thesis using False 1(2) by (subst (1 2 3) minuteTimes.simps) simp
  qed
qed

lemma minuteTimes_unbroken: "unbroken (map (\<lambda>t. \<lparr>pr_minute = t, pr_power = f t\<rparr>) (minuteTimes t hi))"
proof (induction t hi rule: minuteTimes.induct)
  case (1 t hi)
  show ?case
  proof (cases "t + 60 < hi")
    case True
    then have m: "minuteTimes t hi = t # minuteTimes (t + 60) hi" "minuteTimes (t + 60) hi = (t + 60) # minuteTimes (t + 60 + 60) hi"
      by (simp_all add: minuteTimes.simps [of t] minuteTimes.simps [of "t + 60"])
    have "unbroken (map (\<lambda>t. \<lparr>pr_minute = t, pr_power = f t\<rparr>) (minuteTimes (t + 60) hi))" using 1 True by simp
    then show ?thesis unfolding m(1) unfolding m(2) by (simp add: joined_def GAP_THRESHOLD_S_def)
  next
    case False
    then have "minuteTimes (t + 60) hi = []" by (simp add: minuteTimes.simps [of "t + 60"])
    then show ?thesis by (subst minuteTimes.simps) simp
  qed
qed

lemma unbroken_one_segment: "unbroken rs \<Longrightarrow> rs \<noteq> [] \<Longrightarrow> segments rs = [rs]"
proof -
  assume "unbroken rs" "rs \<noteq> []"
  then have "segmented [rs] rs" by (simp add: segmented_def)
  then show ?thesis using segmented_unique segments_segmented by metis
qed

lemma minutes_have_no_gap:
  fixes f :: "int \<Rightarrow> rat"
  assumes "dayBounds midnight now date = (minT, maxT)" and "midnight date < now"
    and rs: "rs = map (\<lambda>t. \<lparr>pr_minute = t, pr_power = f t\<rparr>) (minuteTimes (midnight date) (endTime (midnight date) now))"
  shows "rs \<noteq> [] \<and> segments rs = [rs] \<and> noData minT maxT rs = []"
proof -
  let ?ts = "minuteTimes (midnight date) (endTime (midnight date) now)"
  have lt: "midnight date < endTime (midnight date) now" using assms(2) by (simp add: endTime_def)
  note ends = minuteTimes_ends [OF lt]
  have ne: "rs \<noteq> []" using ends by (simp add: rs)
  have seg: "segments rs = [rs]" using minuteTimes_unbroken ne unfolding rs by (rule unbroken_one_segment)
  have b: "minT = midnight date" "maxT = endTime (midnight date) now"
    using assms(1,2) by (auto simp: dayBounds_def endTime_def Let_def split: if_splits)
  have "pr_minute (hd rs) = minT" "maxT \<le> pr_minute (last rs) + 60"
    using ends ne by (simp_all add: rs hd_map last_map b)
  then show ?thesis using ne seg by (simp add: noData_def Let_def GAP_THRESHOLD_S_def)
qed

theorem made_up_days_have_no_gap:
  assumes "dayBounds midnight now date = (minT, maxT)" and "midnight date < now"
    and "rs \<in> {gridRecords sinPi rnd (midnight date) now, nodeRecords rnd ''node_11'' (midnight date) now}"
  shows "rs \<noteq> [] \<and> segments rs = [rs] \<and> noData minT maxT rs = []
    \<and> list_all (\<lambda>r. minT \<le> pr_minute r \<and> pr_minute r < maxT) rs"
proof -
  have b: "minT = midnight date" "maxT = endTime (midnight date) now"
    using assms(1,2) by (auto simp: dayBounds_def endTime_def Let_def split: if_splits)
  obtain f where rs: "rs = map (\<lambda>t. \<lparr>pr_minute = t, pr_power = f t\<rparr>) (minuteTimes (midnight date) (endTime (midnight date) now))"
    using assms(3) by (auto simp: gridRecords_def nodeRecords_def)
  then have "list_all (\<lambda>r. minT \<le> pr_minute r \<and> pr_minute r < maxT) rs"
    using minuteTimes_range [of _ "midnight date" "endTime (midnight date) now"] by (auto simp: list_all_iff b)
  then show ?thesis using minutes_have_no_gap [OF assms(1,2) rs] by simp
qed

theorem made_up_days_have_no_gap_witness:
  "noData 0 300 (nodeRecords (\<lambda>_. 1 / 2) ''node_11'' 0 300) = []"
proof -
  have "dayBounds (\<lambda>_. 0) 300 ''2026-06-01'' = (0, 300)" by (simp add: dayBounds_def)
  from made_up_days_have_no_gap [OF this, of "nodeRecords (\<lambda>_. 1 / 2) ''node_11'' 0 300" "\<lambda>_. 0" "\<lambda>_. 1 / 2"]
  show ?thesis by simp
qed

end
