(* ===== verification/MockLive.thy ===== *)
theory MockLive
  imports Forecast AppliancesPage CanvasLoad CanvasFacts
begin

text \<open>
  The live side of the development server (\<open>mocks/handlers.ts\<close>): forecasts, learned profiles and
  the frames it pushes over the socket.  \<open>hourTs date h\<close> is the epoch second of local hour \<open>h\<close> of a
  day, \<open>sinPi x\<close> the sine of \<open>x\<close> half turns, \<open>sine x\<close> the sine of \<open>x\<close> radians, \<open>bell x\<close> the value of
  \<open>exp(-x * x)\<close>, and \<open>rnd\<close> the random numbers drawn.
\<close>

section \<open>Forecasts\<close>

definition solarCurve :: "(rat \<Rightarrow> rat) \<Rightarrow> nat \<Rightarrow> rat" where
  "solarCurve sinPi h = (if h \<ge> 9 \<and> h < 17 then 3000 * sinPi ((of_nat h - 9) / 8) else 0)"

definition morningCurve :: "(rat \<Rightarrow> rat) \<Rightarrow> nat \<Rightarrow> rat" where
  "morningCurve sinPi h = (if h \<ge> 7 \<and> h < 9 then 1800 * sinPi ((of_nat h - 7) / 2) else 0)"

definition eveningCurve :: "(rat \<Rightarrow> rat) \<Rightarrow> nat \<Rightarrow> rat" where
  "eveningCurve sinPi h = (if h \<ge> 17 \<and> h < 21 then 2500 * sinPi ((of_nat h - 17) / 4) else 0)"

definition mockSurplus :: "(rat \<Rightarrow> rat) \<Rightarrow> (string \<Rightarrow> nat \<Rightarrow> int) \<Rightarrow> string \<Rightarrow> surplus_forecast" where
  "mockSurplus sinPi hourTs date =
     \<lparr>sf_date = date,
      sf_slots = map (\<lambda>h. let consumption = 400 + morningCurve sinPi h + eveningCurve sinPi h
          in \<lparr>sp_hour_ts = hourTs date h, sp_surplus_w = of_int (math_round (solarCurve sinPi h - consumption))\<rparr>) [0..<24],
      sf_learning = None, sf_usable_days = None, sf_mature_days = None\<rparr>"

definition mockConsumption :: "(rat \<Rightarrow> rat) \<Rightarrow> (string \<Rightarrow> nat \<Rightarrow> int) \<Rightarrow> string \<Rightarrow> solar_forecast" where
  "mockConsumption sinPi hourTs date =
     \<lparr>slf_date = date,
      slf_slots = map (\<lambda>h. \<lparr>so_hour_ts = hourTs date h,
          so_power_w = of_int (math_round (400 + morningCurve sinPi h + eveningCurve sinPi h - solarCurve sinPi h))\<rparr>) [0..<24]\<rparr>"

definition mockSolarForecast :: "(rat \<Rightarrow> rat) \<Rightarrow> (string \<Rightarrow> nat \<Rightarrow> int) \<Rightarrow> string \<Rightarrow> solar_forecast" where
  "mockSolarForecast bell hourTs date =
     \<lparr>slf_date = date,
      slf_slots = map (\<lambda>h. \<lparr>so_hour_ts = hourTs date h,
          so_power_w = (if h \<ge> 6 \<and> h \<le> 20 then of_int (math_round (3500 * bell ((of_nat h - 13) / 4))) else 0)\<rparr>) [0..<24]\<rparr>"

definition mockFetch :: "(rat \<Rightarrow> rat) \<Rightarrow> (nat \<Rightarrow> rat) \<Rightarrow> int \<Rightarrow> forecast_result" where
  "mockFetch bell rnd now =
     (let estimates = map (\<lambda>h. \<lparr>es_time = hourLabel h,
            es_watts = max 0 (of_int (math_round (3500 * bell ((of_nat h - 13) / 4) + (rnd h - 1 / 2) * 80)))\<rparr>) [6..<21]
      in \<lparr>fr_date = isoDay now, fr_estimates = estimates, fr_total_wh = foldl (\<lambda>s e. s + es_watts e) 0 estimates\<rparr>)"

section \<open>Learned profiles\<close>

definition trainedProfile :: "nat \<Rightarrow> string \<Rightarrow> rat \<Rightarrow> rat \<Rightarrow> rat \<Rightarrow> nat \<Rightarrow> nat \<Rightarrow> nat \<Rightarrow> appliance_profile" where
  "trainedProfile now i standby avg std len stdLen count' =
     \<lparr>ap_graph_id = i, ap_trained = True, ap_standby_w = Some standby, ap_avg_program_power_w = Some avg,
      ap_std_program_power_w = Some std, ap_avg_program_len_min = Some len, ap_std_program_len_min = Some stdLen,
      ap_program_count = Some count', ap_days_with_data = Some 26, ap_trained_unix = Some (now - 3600),
      ap_window_days = Some 30\<rparr>"

definition mockProfiles :: "nat \<Rightarrow> appliance_profile list" where
  "mockProfiles now =
     [trainedProfile now ''node_11'' 3 1820 210 112 9 14,
      trainedProfile now ''node_12'' (75 / 10) 1150 90 95 12 9,
      trainedProfile now ''node_13'' 0 2900 60 4 1 40,
      \<lparr>ap_graph_id = ''node_42'', ap_trained = False, ap_standby_w = None, ap_avg_program_power_w = None,
       ap_std_program_power_w = None, ap_avg_program_len_min = None, ap_std_program_len_min = None,
       ap_program_count = None, ap_days_with_data = None, ap_trained_unix = None, ap_window_days = None\<rparr>]"

text \<open>What the topology page reads of a profile.\<close>

definition topologyProfile :: "appliance_profile \<Rightarrow> profile" where
  "topologyProfile p = \<lparr>pr_graph_id = ap_graph_id p, pr_trained = ap_trained p, pr_standby_w = ap_standby_w p\<rparr>"

section \<open>Pushed frames\<close>

definition liveEntry :: "nat \<Rightarrow> rat \<Rightarrow> nat \<Rightarrow> nat \<Rightarrow> attr_entry" where
  "liveEntry endpointId v clusterId attributeId =
     \<lparr>a_nodeId = 10000, a_endpointId = endpointId, a_cluster = clusterId, a_attribute = attributeId, a_value = v\<rparr>"

definition liveFrame :: "(rat \<Rightarrow> rat) \<Rightarrow> (nat \<Rightarrow> rat) \<Rightarrow> nat \<Rightarrow> ws_message" where
  "liveFrame sine rnd tick =
     \<lparr>ws_type = ''attribute_batch'',
      ws_payload = Batch
        [liveEntry 13482 (of_int (math_round (1500000 + rnd tick * 600000))) 144 8,
         liveEntry 13484 (of_int (math_round (2600000 * sine (of_nat tick / 3)))) 144 8,
         liveEntry 13484 (of_int (math_round (150 + 30 * sine (of_nat tick / 5)))) 0x2f 0x0c,
         \<lparr>a_nodeId = 20002, a_endpointId = 1, a_cluster = 144, a_attribute = 8,
          a_value = (if (tick div 3) mod 2 \<noteq> 0 then 1150000 else 6000)\<rparr>]\<rparr>"

definition commissionedFrame :: ws_message where
  "commissionedFrame = \<lparr>ws_type = ''device_commissioned'', ws_payload = Commissioned (Some ''Shelly'') (Some ''Pro 1PM'')\<rparr>"

text \<open>A client's connection: the ticks so far, and the timers that are still set.\<close>

record client =
  cl_tick :: nat
  cl_interval :: bool
  cl_commission :: bool

definition client_connected :: client where
  "client_connected = \<lparr>cl_tick = 0, cl_interval = True, cl_commission = True\<rparr>"

definition client_tick :: "(rat \<Rightarrow> rat) \<Rightarrow> (nat \<Rightarrow> rat) \<Rightarrow> client \<Rightarrow> client \<times> ws_message list" where
  "client_tick sine rnd c =
     (if cl_interval c then (c\<lparr>cl_tick := Suc (cl_tick c)\<rparr>, [liveFrame sine rnd (Suc (cl_tick c))]) else (c, []))"

definition client_commission :: "client \<Rightarrow> client \<times> ws_message list" where
  "client_commission c = (if cl_commission c then (c\<lparr>cl_commission := False\<rparr>, [commissionedFrame]) else (c, []))"

definition client_closed :: "client \<Rightarrow> client" where
  "client_closed c = c\<lparr>cl_interval := False, cl_commission := False\<rparr>"

section \<open>The pages and the live server\<close>

lemma keys_nodup [simp]:
  "measure_key (Some 20002) (Some 1) = measure_key (Some 10000) (Some e) \<longleftrightarrow> False"
  by (simp add: measure_key_eq_iff)

lemma liveFrame_readings:
  assumes "ws_payload (liveFrame sine rnd tick) = Batch es"
  shows "map_of (powerByKey es) (measure_key (Some 20002) (Some 1))
      = Some (no_power\<lparr>pm_power := Some (if (tick div 3) mod 2 \<noteq> 0 then 1150000 else 6000)\<rparr>)"
  using assms
  by (auto simp: liveFrame_def powerByKey_def map_of_accPower entry_key_def liveEntry_def powerFromAttribute_def
      EPM_CLUSTER_def EPM_VOLTAGE_def EPM_CURRENT_def EPM_POWER_def has_keys_def no_power_def pm_merge_def or_else_def)

lemma dishwasher_standby: "standbyMap (map topologyProfile (mockProfiles now)) ''node_12'' = Some (15 / 2)"
  by (simp add: standbyMap_def mockProfiles_def trainedProfile_def topologyProfile_def profileStandby_def STANDBY_BAND_HALF_W_def)

lemma dishwasher_status:
  "loadStatus (Some (if b then 1150000 else 6000)) (15 / 2) = Some (if b then Running else Standby)"
  by (simp add: loadStatus_def Let_def STANDBY_BAND_HALF_W_def OFF_FLOOR_W_def)

theorem dishwasher_alternates:
  assumes "n \<in> set (cv_nodes cv)" and "c_id n = ''node_12''" and "node_key n = measure_key (Some 20002) (Some 1)"
    and "cv_standby cv = standbyMap (map topologyProfile (mockProfiles now))"
  shows "\<exists>m\<in>set (cv_nodes (fst (handleWsMessage (liveFrame sine rnd tick) cv))). c_id m = ''node_12''
    \<and> nd_status (c_data m) = Some (if (tick div 3) mod 2 \<noteq> 0 then Running else Standby)"
proof -
  obtain es where es: "ws_payload (liveFrame sine rnd tick) = Batch es" by (simp add: liveFrame_def)
  have ty: "ws_type (liveFrame sine rnd tick) = ''attribute_batch''" by (simp add: liveFrame_def)
  define b where "b = ((tick div 3) mod 2 \<noteq> 0)"
  have "cv_nodes (fst (handleWsMessage (liveFrame sine rnd tick) cv)) = map (updateBy es (cv_standby cv)) (cv_nodes cv)"
    by (simp add: handleWsMessage_def ty es applyEntries_nodes)
  moreover have "nd_status (c_data (updateBy es (cv_standby cv) n)) = Some (if b then Running else Standby)"
    using liveFrame_readings [OF es, folded b_def] dishwasher_status [of b]
    by (cases b) (simp_all add: updateNode_def Let_def assms(2-4) dishwasher_standby del: One_nat_def)
  moreover have "c_id (updateBy es (cv_standby cv) n) = ''node_12''"
    by (simp add: updateNode_def Let_def assms(2))
  ultimately show ?thesis using assms(1) unfolding b_def [symmetric] by auto
qed

end
