(* ===== verification/HomeSession.thy ===== *)
theory HomeSession
  imports Session HomeProps
begin

text \<open>
  The Home page together with the server behind it: what a visitor saves in a dialog or removes is
  sent as requests, applied by the store, read back by \<open>loadTopology\<close> and laid over the slots.
\<close>

section \<open>Reading the store\<close>

definition home_node_of :: "saved_node \<Rightarrow> home_node" where
  "home_node_of n = \<lparr>hn_id = n_id n, hn_x = Some (n_x n), hn_y = Some (n_y n), hn_settings = n_settings n\<rparr>"

text \<open>\<open>loadTopology\<close> with the answer of \<open>GET /api/nodes\<close>.\<close>

definition reload :: "server \<Rightarrow> home \<Rightarrow> home" where
  "reload sv = loadTopology (Some (map home_node_of (fst (getNodes sv)), Some (snd (getNodes sv))))"

abbreviation home_nodes :: "server \<Rightarrow> home_node list" where
  "home_nodes sv \<equiv> map home_node_of (sv_nodes sv)"

lemma home_nodes_served: "map home_node_of (fst (getNodes sv)) = home_nodes sv"
  by (simp add: getNodes_def home_node_of_def comp_def)

lemma reload_simps [simp]:
  "hm_appliances (reload sv h) = applianceSlots (home_nodes sv) (sv_edges sv)"
  "hm_edges (reload sv h) = sv_edges sv"
  "hm_applianceModalSlot (reload sv h) = hm_applianceModalSlot h"
  "hm_gridSensor (reload sv h) = roleDevice ''grid_meter'' True False (home_nodes sv) (hm_gridSensor h)"
  "hm_solarInverter (reload sv h) = roleDevice ''solar_inverter'' False True (home_nodes sv) (hm_solarInverter h)"
  "hm_tariff (reload sv h) = roleDevice ''tariff'' False False (home_nodes sv) (hm_tariff h)"
  by (simp_all add: reload_def loadTopology_def home_nodes_served) (simp_all add: getNodes_def)

lemma home_node_of_id [simp]: "hn_id (home_node_of n) = n_id n"
  by (simp add: home_node_of_def)

lemma home_nodes_ids: "map hn_id (home_nodes sv) = map n_id (sv_nodes sv)"
  by simp

text \<open>
  The store the page relies on: unique ids, appliance ids written without leading zeros and used
  for loads only, and a consumer unit that is not a load.
\<close>

definition home_store_ok :: "server \<Rightarrow> bool" where
  "home_store_ok sv \<longleftrightarrow> store_ok sv
     \<and> (\<forall>n\<in>set (sv_nodes sv). n_id n \<noteq> [] \<and> canonical (n_id n)
          \<and> (\<forall>k<APPLIANCE_SLOTS. n_id n = applianceNodeId k \<longrightarrow> slotOf (supplyIds (sv_edges sv)) (home_node_of n) \<noteq> None)
          \<and> (n_id n = HOME_CU \<longrightarrow> slotOf (supplyIds (sv_edges sv)) (home_node_of n) = None))
     \<and> (\<forall>e\<in>set (sv_edges sv). \<forall>k<APPLIANCE_SLOTS. applianceNodeId k \<in> {se_source e, se_target e}
          \<longrightarrow> applianceNodeId k \<in> server_nodes sv)"

lemma home_store_layout:
  assumes "home_store_ok sv"
  shows "distinct (map hn_id (home_nodes sv))" "\<forall>n\<in>set (home_nodes sv). canonical (hn_id n)"
  using assms by (simp_all add: home_store_ok_def store_ok_def comp_def)

section \<open>Supplies\<close>

lemma supplyIds_snoc:
  "supplyIds (E @ [e]) =
     (let ids = supplyIds E; ids' = (if se_target e = HOME_CU \<and> isSupplyHandle (se_targetHandle e) then se_source e # ids else ids)
      in if se_source e = HOME_CU \<and> isSupplyHandle (se_sourceHandle e) then se_target e # ids' else ids')"
  by (simp add: supplyIds_def Let_def)

lemma set_supplyIds:
  "i \<in> set (supplyIds E) \<longleftrightarrow> i = ''grid_meter''
     \<or> (\<exists>e\<in>set E. se_target e = HOME_CU \<and> isSupplyHandle (se_targetHandle e) \<and> se_source e = i
          \<or> se_source e = HOME_CU \<and> isSupplyHandle (se_sourceHandle e) \<and> se_target e = i)"
proof (induction E rule: rev_induct)
  case Nil
  show ?case by (simp add: supplyIds_def)
next
  case (snoc e E)
  then show ?case by (auto simp: supplyIds_snoc Let_def)
qed

lemma slotOf_cong: "(hn_id n \<in> set S \<longleftrightarrow> hn_id n \<in> set S') \<Longrightarrow> slotOf S n = slotOf S' n"
  by (simp add: slotOf_def cong: option.case_cong)

lemma slotOf_supply: "slotOf S n = Some s \<Longrightarrow> hn_id n \<notin> set S"
  by (auto simp: slotOf_def split: option.splits if_splits)

section \<open>A load added to an empty slot\<close>

lemma fillStep_keeps: "i < length xs \<Longrightarrow> xs ! i \<noteq> None \<Longrightarrow> fillStep xs x ! i = xs ! i \<and> length xs \<le> length (fillStep xs x)"
proof (cases "indexOfNull xs")
  case (Some k)
  assume "i < length xs" "xs ! i \<noteq> None"
  then have "k \<noteq> i" using indexOfNull_Some [OF Some] by auto
  with \<open>i < length xs\<close> show ?thesis by (simp add: fillStep_def Some nth_append)
qed (simp add: fillStep_def nth_append)

lemma fillStep_length: "length xs \<le> length (fillStep xs x)"
  by (auto simp: fillStep_def split: option.split)

lemma foldl_fill_keeps:
  "i < length xs \<Longrightarrow> xs ! i \<noteq> None \<Longrightarrow> foldl fillStep xs os ! i = xs ! i"
proof (induction os arbitrary: xs)
  case (Cons x os)
  then show ?case using fillStep_keeps [of i xs x] by (metis foldl_Cons order_less_le_trans)
qed simp

lemma indexOfNull_update:
  "indexOfNull xs = Some k \<Longrightarrow> k < i \<Longrightarrow> indexOfNull (xs[i := Some s]) = Some k"
proof (induction xs arbitrary: k i rule: indexOfNull.induct)
  case (2 xs)
  then show ?case by (cases i) auto
next
  case (3 x xs)
  then show ?case by (cases i) (auto split: option.splits)
qed simp

lemma indexOfNull_first: "i < length xs \<Longrightarrow> xs ! i = None \<Longrightarrow> \<exists>k\<le>i. indexOfNull xs = Some k"
proof (induction xs arbitrary: i rule: indexOfNull.induct)
  case (3 x xs)
  then obtain j where j: "i = Suc j" by (cases i) auto
  with 3 obtain k where "k \<le> j" "indexOfNull xs = Some k" by auto
  with j show ?case by auto
qed auto

text \<open>The remaining loads fill the same slots when one that stays empty is taken beforehand.\<close>

lemma fill_around:
  assumes "i < length xs" "i < APPLIANCE_SLOTS" and "foldl fillStep xs os ! i = None"
  shows "foldl fillStep (xs[i := Some s]) os = (foldl fillStep xs os)[i := Some s]"
  using assms
proof (induction os arbitrary: xs)
  case (Cons x os)
  have empty: "fillStep xs x ! i = None"
    using Cons.prems foldl_fill_keeps [of i "fillStep xs x" os] fillStep_length [of xs x] by fastforce
  then have "xs ! i = None" using fillStep_keeps [OF Cons.prems(1), of x] by fastforce
  then obtain k where k: "k \<le> i" "indexOfNull xs = Some k" using indexOfNull_first [OF Cons.prems(1)] by auto
  have f: "fillStep xs x = xs[k := Some x]" using k Cons.prems(2) by (simp add: fillStep_def)
  have "k \<noteq> i" using empty Cons.prems(1) unfolding f by auto
  then have ki: "k < i" using k by simp
  have "fillStep (xs[i := Some s]) x = (fillStep xs x)[i := Some s]"
    using indexOfNull_update [OF k(2) ki] k Cons.prems(2) \<open>k \<noteq> i\<close>
    by (simp add: fillStep_def f list_update_swap)
  then show ?case using Cons.IH [of "fillStep xs x"] Cons.prems f by simp
qed simp

lemma applianceSlots_add:
  assumes "distinct (map hn_id N)" and "\<forall>n\<in>set N. canonical (hn_id n)"
    and "slot < APPLIANCE_SLOTS" "applianceSlots N E ! slot = None"
    and n: "hn_id n = applianceNodeId slot" "slotOf (supplyIds E) n = Some s" and E': "supplyIds E' = supplyIds E"
  shows "applianceSlots (N @ [n]) E' = (applianceSlots N E)[slot := Some s]"
proof -
  from placed_all [OF assms(1,2), of "supplyIds E"]
  obtain slots others where st: "foldl (placeStep (supplyIds E)) (replicate APPLIANCE_SLOTS None, []) N = (slots, others)"
    and len: "length slots = APPLIANCE_SLOTS" by (auto simp: placed_def)
  have own: "ownIndex (applianceNodeId slot) (length slots) = Some slot"
    using ownIndex_applianceNodeId assms(3) len by simp
  have "foldl (placeStep (supplyIds E)) (replicate APPLIANCE_SLOTS None, []) (N @ [n]) = (slots[slot := Some s], others)"
    using st n own by (simp add: placeStep_def)
  then show ?thesis
    using fill_around [of slot slots "sort_key (\<lambda>s. order (as_graphId s)) others" s] assms(3,4) len
    by (simp add: applianceSlots_def E' st)
qed

section \<open>Saving a new appliance\<close>

lemma serveAll_simps [simp]: "serveAll [] sv = sv" "serveAll (r # rs) sv = serveAll rs (serve r sv)"
  by (simp_all add: serveAll_def)

lemma run_requests_ok: "run_requests (\<lambda>_. None) rs = (None, rs)"
  by (induction rs) simp_all

lemma editProps_empty:
  assumes "slot < APPLIANCE_SLOTS" "home_store_ok sv" "hm_appliances (reload sv h0) ! slot = None"
    and p: "p = editProps slot (reload sv h0)"
  shows "ep_topologyNodeId p = applianceNodeId slot" "ep_nodeType p = ''appliance''" "ep_wire p"
    "ep_sourceHandle p = freeCircuitHandle (sv_edges sv) slot"
proof -
  have "slot < length (hm_appliances (reload sv h0))"
    using applianceSlots_layout [OF home_store_layout [OF assms(2)], of "sv_edges sv"] assms(1) by simp
  then have "(if slot < length (hm_appliances (reload sv h0)) then hm_appliances (reload sv h0) ! slot else None) = None"
    using assms(3) by simp
  then show "ep_topologyNodeId p = applianceNodeId slot" "ep_nodeType p = ''appliance''" "ep_wire p"
    "ep_sourceHandle p = freeCircuitHandle (sv_edges sv) slot"
    unfolding p editProps_def Let_def by simp_all
qed

lemma circuit_no_supply: "\<not> isSupplyHandle (Some (applianceCircuitHandle k))"
  by (simp add: isSupplyHandle_def applianceCircuitHandle_def starts_with_def)

lemma empty_slot_id_free:
  assumes "home_store_ok sv" "slot < APPLIANCE_SLOTS" "hm_appliances (reload sv h0) ! slot = None"
  shows "applianceNodeId slot \<notin> server_nodes sv"
proof
  assume "applianceNodeId slot \<in> server_nodes sv"
  then obtain n where n: "n \<in> set (sv_nodes sv)" "n_id n = applianceNodeId slot" by (auto simp: server_nodes_def)
  then have "slotOf (supplyIds (sv_edges sv)) (home_node_of n) \<noteq> None"
    using assms(1,2) unfolding home_store_ok_def by blast
  then obtain s where "slotOf (supplyIds (sv_edges sv)) (home_node_of n) = Some s" by blast
  moreover have "ownIndex (hn_id (home_node_of n)) APPLIANCE_SLOTS = Some slot"
    using ownIndex_applianceNodeId assms(2) n(2) by simp
  ultimately have "applianceSlots (home_nodes sv) (sv_edges sv) ! slot = Some s"
    using applianceSlots_layout [OF home_store_layout [OF assms(1)], of "sv_edges sv"] n(1) by fastforce
  with assms(3) show False by simp
qed

text \<open>
  C10.  From the Home page to the store and back: saving a new appliance in an empty slot, with
  every request answered, makes the reloaded page show it in exactly that slot with the chosen
  device, leaves all the other slots as they were, adds one edge to the store, and leaves the
  store well formed. The store has unique node and edge ids, node ids are not empty and written
  without leading zeros, the id of a slot is used for a load only, and one that is not wired to
  a supply handle of the consumer unit, no edge names the id of a slot whose node is missing,
  and the consumer unit is not a load. The chosen device has a label that is not empty, and the
  edge id of the slot is not taken.
\<close>

theorem saved_appliance_fills_its_slot:
  assumes ok: "home_store_ok sv" and page: "h = reload sv h0"
    and slot: "slot < APPLIANCE_SLOTS" "hm_appliances h ! slot = None"
    and m: "ap_selected m = Some d" "sd_label d \<noteq> []"
    and p: "p = editProps slot h" and "ep_edgeId p \<notin> se_id ` set (sv_edges sv)"
    and save: "applianceModal_save (\<lambda>_. None) p m = (Inr d', reqs)"
    and sv': "sv' = serveAll reqs sv"
  shows "hm_appliances (handleApplianceSave (reload sv') h) = (hm_appliances h)[slot := Some
      \<lparr>as_graphId = applianceNodeId slot, as_type = ''appliance'', as_x = Some (fst (ep_position p)),
       as_y = Some (snd (ep_position p)), as_device = d'\<lparr>sd_hasElectricalSensor := True, sd_hasSolarPower := False\<rparr>\<rparr>]
    \<and> sv_edges sv' = sv_edges sv @ [applianceEdge p]
    \<and> home_store_ok sv'"
proof -
  note pf = editProps_empty [OF slot(1) ok slot(2) [unfolded page] p [unfolded page]]
  define i where "i = applianceNodeId slot"
  have fresh: "i \<notin> server_nodes sv" unfolding i_def using empty_slot_id_free [OF ok slot(1)] slot(2) page by blast
  define x where "x = fst (ep_position p)"
  define y where "y = snd (ep_position p)"
  define st where "st = applianceSettings p d m"
  define n where "n = config i x y st"
  have d': "d' = d\<lparr>sd_name := Some (or_str (trim (ap_name m)) (sd_label d)), sd_excludeFromScheduling := Some (ap_exclude m)\<rparr>"
    and reqs: "reqs = [PutNode i x y (Some st), PostEdge (applianceEdge p)]"
    using save m(1) pf by (simp_all add: applianceModal_save_def run_requests_ok applianceModal_requests_def i_def x_def y_def st_def)
  have nh: "\<not> has_node i (sv_nodes sv)" using fresh by (auto simp: has_node_def server_nodes_def)
  have eid: "\<not> (\<exists>e\<in>set (sv_edges sv). se_id e = se_id (applianceEdge p))"
    using assms(8) by (force simp: applianceEdge_def)
  have nodes: "sv_nodes sv' = sv_nodes sv @ [n]" and edges: "sv_edges sv' = sv_edges sv @ [applianceEdge p]"
    using nh eid by (simp_all add: sv' reqs serve_def putNode_def n_def upsertEdge_def)
  obtain k where k: "ep_sourceHandle p = applianceCircuitHandle k"
    using freeCircuitHandle_cases [OF slot(1), of "sv_edges sv"] pf(4) by auto
  have sup: "supplyIds (sv_edges sv') = supplyIds (sv_edges sv)"
    using circuit_no_supply [of k] pf(1) applianceNodeId_def
    by (simp add: edges supplyIds_snoc applianceEdge_def k HOME_CU_def isSupplyHandle_def starts_with_def)
  have nosup: "i \<notin> set (supplyIds (sv_edges sv))"
  proof
    assume "i \<in> set (supplyIds (sv_edges sv))"
    moreover have "i \<noteq> ''grid_meter''" by (simp add: i_def applianceNodeId_def)
    ultimately obtain e where "e \<in> set (sv_edges sv)" "i \<in> {se_source e, se_target e}" by (auto simp: set_supplyIds)
    then show False using ok fresh slot(1) unfolding home_store_ok_def i_def by blast
  qed
  define s where "s = \<lparr>as_graphId = i, as_type = ''appliance'', as_x = Some x, as_y = Some y,
      as_device = d'\<lparr>sd_hasElectricalSensor := True, sd_hasSolarPower := False\<rparr>\<rparr>"
  have sl: "slotOf (supplyIds (sv_edges sv)) (home_node_of n) = Some s"
    using nosup m(2) pf(2)
    by (simp add: slotOf_def home_node_of_def n_def config_def st_def applianceSettings_def no_settings_def LOAD_TYPES_def s_def d')
  have ids: "n_id n = applianceNodeId slot" by (simp add: n_def config_def i_def)
  have "applianceSlots (home_nodes sv @ [home_node_of n]) (sv_edges sv')
      = (applianceSlots (home_nodes sv) (sv_edges sv))[slot := Some s]"
    using applianceSlots_add [OF home_store_layout [OF ok] slot(1) _ _ sl sup] slot(2) ids by (simp add: page)
  then have "hm_appliances (handleApplianceSave (reload sv') h) = (hm_appliances h)[slot := Some s]"
    by (simp add: handleApplianceSave_def nodes page)
  moreover have "home_store_ok sv'"
  proof -
    have cu: "applianceNodeId k \<noteq> HOME_CU" for k by (simp add: applianceNodeId_def HOME_CU_def)
    have "store_ok sv'" using ok unfolding sv' home_store_ok_def by (blast intro: store_ok_serveAll)
    moreover have "canonical i" unfolding canonical_def i_def applianceNodeId_def id_number_dec by simp
    moreover have "i \<noteq> []" "i \<noteq> HOME_CU" using cu by (simp_all add: i_def applianceNodeId_def)
    moreover have "server_nodes sv' = insert i (server_nodes sv)" by (auto simp: server_nodes_def nodes ids i_def)
    ultimately show ?thesis
      using ok sl ids cu unfolding home_store_ok_def sup
      by (auto simp: nodes edges applianceEdge_def pf(1) i_def simp flip: HOME_CU_def)
  qed
  ultimately show ?thesis using edges by (simp add: s_def i_def x_def y_def)
qed

section \<open>Removing an appliance\<close>

lemma serveAll_append: "serveAll (rs @ ss) sv = serveAll ss (serveAll rs sv)"
  by (simp add: serveAll_def)

lemma serveAll_delete_edges:
  "serveAll (map (\<lambda>e. DeleteEdge (se_id e)) es) sv = sv\<lparr>sv_edges := filter (\<lambda>e. se_id e \<notin> se_id ` set es) (sv_edges sv)\<rparr>"
proof (induction es arbitrary: sv)
  case (Cons e es)
  have "filter (\<lambda>x. se_id x \<notin> se_id ` set es) (filter (\<lambda>x. se_id x \<noteq> se_id e) (sv_edges sv))
      = filter (\<lambda>x. se_id x \<notin> se_id ` set (e # es)) (sv_edges sv)"
    unfolding filter_filter by (rule filter_cong) auto
  with Cons show ?case by (simp add: serve_def deleteEdge_def)
qed simp

abbreviation touches_node :: "string \<Rightarrow> saved_edge \<Rightarrow> bool" where
  "touches_node g \<equiv> \<lambda>e. se_source e = g \<or> se_target e = g"

lemma removed_store:
  assumes "distinct (map se_id (sv_edges sv))"
    and "sv' = serveAll (map (\<lambda>e. DeleteEdge (se_id e)) (filter (touches_node g) (sv_edges sv)) @ [DeleteNode g]) sv"
  shows "sv_nodes sv' = filter (\<lambda>n. n_id n \<noteq> g) (sv_nodes sv)" "sv_edges sv' = filter (\<lambda>e. \<not> touches_node g e) (sv_edges sv)"
proof -
  have "(se_id e \<notin> se_id ` set (filter (touches_node g) (sv_edges sv)) \<and> \<not> touches_node g e) \<longleftrightarrow> \<not> touches_node g e"
    if "e \<in> set (sv_edges sv)" for e
    using that distinct_keyD [OF assms(1)] by auto
  then show "sv_nodes sv' = filter (\<lambda>n. n_id n \<noteq> g) (sv_nodes sv)" "sv_edges sv' = filter (\<lambda>e. \<not> touches_node g e) (sv_edges sv)"
    unfolding assms(2) serveAll_append serveAll_delete_edges
    by (auto simp: serve_def deleteNode_def filter_filter intro!: filter_cong)
qed

lemma supplyIds_without:
  "i \<noteq> g \<Longrightarrow> g \<noteq> HOME_CU \<Longrightarrow> i \<in> set (supplyIds (filter (\<lambda>e. \<not> touches_node g e) E)) \<longleftrightarrow> i \<in> set (supplyIds E)"
  by (auto simp: set_supplyIds)

lemma somes_map_filter:
  "(\<And>x s. x \<in> set xs \<Longrightarrow> f x = Some s \<Longrightarrow> P x \<longleftrightarrow> Q s)
    \<Longrightarrow> somes (map f (filter P xs)) = filter Q (somes (map f xs))"
proof (induction xs)
  case (Cons x xs)
  then show ?case by (cases "f x") auto
qed simp

lemma mset_filter_key:
  assumes "distinct (map k xs)" "a \<in> set xs"
  shows "mset xs = mset (filter (\<lambda>x. k x \<noteq> k a) xs) + {#a#}"
  using assms
proof (induction xs)
  case (Cons x xs)
  show ?case
  proof (cases "x = a")
    case True
    then have "filter (\<lambda>y. k y \<noteq> k a) xs = xs" using Cons.prems by (auto simp: filter_id_conv image_iff)
    with True show ?thesis by simp
  next
    case False
    with Cons have "k x \<noteq> k a" by (auto simp: image_iff)
    with False Cons show ?thesis by simp
  qed
qed simp

lemma distinct_slots:
  "distinct (map hn_id N) \<Longrightarrow> distinct (map as_graphId (somes (map (slotOf S) N)))"
proof (induction N)
  case (Cons n N)
  then have n: "hn_id n \<notin> as_graphId ` set (somes (map (slotOf S) N))"
    using slotOf_graphId [of S] by (force simp: set_somes)
  show ?case
  proof (cases "slotOf S n")
    case (Some a)
    then show ?thesis using n Cons slotOf_graphId [OF Some] by simp
  qed (use Cons in simp)
qed simp

lemma applianceSlots_remove:
  assumes ids: "distinct (map hn_id N)" "\<forall>n\<in>set N. canonical (hn_id n)"
    and a: "a \<in> set (somes (map (slotOf (supplyIds E)) N))" and g: "g = as_graphId a" "g \<noteq> HOME_CU"
    and N': "N' = filter (\<lambda>n. hn_id n \<noteq> g) N" and E': "E' = filter (\<lambda>e. \<not> touches_node g e) E"
  shows "mset (somes (applianceSlots N E)) = mset (somes (applianceSlots N' E')) + {#a#}"
    and "\<lbrakk>i < APPLIANCE_SLOTS; applianceSlots N E ! i = Some t; as_graphId t = applianceNodeId i; t \<noteq> a\<rbrakk>
      \<Longrightarrow> applianceSlots N' E' ! i = Some t"
proof -
  let ?S = "supplyIds E" and ?S' = "supplyIds E'"
  note lay = applianceSlots_layout [OF ids, of E]
  have ids': "distinct (map hn_id N')" "\<forall>n\<in>set N'. canonical (hn_id n)"
    using ids by (simp_all add: N' distinct_map_filter)
  note lay' = applianceSlots_layout [OF ids', of E']
  have same: "slotOf ?S' m = slotOf ?S m" if "hn_id m \<noteq> g" for m
    by (rule slotOf_cong) (simp only: E' supplyIds_without [OF that g(2)])
  have mm: "map (slotOf ?S') N' = map (slotOf ?S) N'" unfolding N' by (rule map_cong) (auto intro: same)
  have slots': "somes (map (slotOf ?S') N') = filter (\<lambda>s. as_graphId s \<noteq> as_graphId a) (somes (map (slotOf ?S) N))"
    unfolding mm unfolding N' g(1) by (rule somes_map_filter) (simp add: slotOf_graphId)
  show "mset (somes (applianceSlots N E)) = mset (somes (applianceSlots N' E')) + {#a#}"
    unfolding lay [THEN conjunct1] lay' [THEN conjunct1] slots' using distinct_slots [OF ids(1)] a by (rule mset_filter_key)
  assume i: "i < APPLIANCE_SLOTS" "applianceSlots N E ! i = Some t" "as_graphId t = applianceNodeId i" "t \<noteq> a"
  have "Some t \<in> set (applianceSlots N E)" using i lay by (metis nth_mem order_less_le_trans)
  then have "t \<in> set (somes (map (slotOf ?S) N))" using lay by (metis mem_Collect_eq set_mset_mset set_somes)
  then obtain m where m: "m \<in> set N" "slotOf ?S m = Some t" by (auto simp: set_somes)
  obtain n where n: "n \<in> set N" "slotOf ?S n = Some a" using a by (auto simp: set_somes)
  have "hn_id m \<noteq> g" using distinct_keyD [OF ids(1) m(1) n(1)] slotOf_graphId [OF n(2)] m(2) n(2) i(4) g(1) by auto
  then have "m \<in> set N'" "slotOf ?S' m = Some t" using m same by (auto simp: N')
  moreover have "ownIndex (hn_id m) APPLIANCE_SLOTS = Some i"
    using slotOf_graphId [OF m(2)] i(1,3) ownIndex_applianceNodeId [OF i(1)] by simp
  ultimately show "applianceSlots N' E' ! i = Some t" using lay' by blast
qed

text \<open>
  C11.  Removing an appliance from the Home page, with every request answered, removes its node
  and every edge at it from the store, and the page, loaded again, shows the same loads without
  it; loads with an id of their own slot stay where they were. The store has unique node and
  edge ids, node ids are not empty and written without leading zeros, the id of a slot is used
  for a load only, and one that is not wired to a supply handle of the consumer unit, no edge
  names the id of a slot whose node is missing, and the consumer unit is not a load.
\<close>

theorem removed_appliance_leaves_its_slot:
  assumes ok: "home_store_ok sv" and page: "h = reload sv h0"
    and slot: "slot < length (hm_appliances h)" "hm_appliances h ! slot = Some a"
    and run: "run_plan (\<lambda>_. False) (handleApplianceDelete (reload sv') slot h) h = (h', reqs)"
    and sv': "sv' = serveAll reqs sv"
  shows "mset (somes (hm_appliances h)) = mset (somes (hm_appliances h')) + {#a#}
    \<and> (\<forall>i<APPLIANCE_SLOTS. \<forall>t. hm_appliances h ! i = Some t \<longrightarrow> as_graphId t = applianceNodeId i \<longrightarrow> t \<noteq> a
         \<longrightarrow> hm_appliances h' ! i = Some t)
    \<and> as_graphId a \<notin> server_nodes sv'
    \<and> sv_edges sv' = filter (\<lambda>e. se_source e \<noteq> as_graphId a \<and> se_target e \<noteq> as_graphId a) (sv_edges sv)"
proof -
  let ?N = "home_nodes sv" and ?S = "supplyIds (sv_edges sv)"
  define g where "g = as_graphId a"
  note ids = home_store_layout [OF ok]
  have "a \<in> set (somes (hm_appliances h))" using slot by (metis mem_Collect_eq nth_mem set_somes)
  then have mem: "a \<in> set (somes (map (slotOf ?S) ?N))"
    using applianceSlots_layout [OF ids, of "sv_edges sv"] page by (metis reload_simps(1) set_mset_mset)
  then obtain n where n: "n \<in> set (sv_nodes sv)" "slotOf ?S (home_node_of n) = Some a" by (auto simp: set_somes)
  then have "g = n_id n" using slotOf_graphId by (fastforce simp: g_def)
  then have gne: "g \<noteq> []" "g \<noteq> HOME_CU" using n ok by (auto simp: home_store_ok_def)
  have es: "hm_edges h = sv_edges sv" by (simp add: page)
  have reqs: "reqs = map (\<lambda>e. DeleteEdge (se_id e)) (filter (touches_node g) (sv_edges sv)) @ [DeleteNode g]" and h': "h' = reload sv' h"
    using run slot gne(1) es by (auto simp: run_plan_def handleApplianceDelete_def Let_def g_def)
  have "distinct (map se_id (sv_edges sv))" using ok by (simp add: home_store_ok_def store_ok_def)
  note st = removed_store [OF this sv' [unfolded reqs]]
  have "home_nodes sv' = filter (\<lambda>n. hn_id n \<noteq> g) ?N" by (simp add: st(1) filter_map comp_def)
  note rem = applianceSlots_remove [OF ids mem g_def gne(2) this st(2)]
  have "as_graphId a \<notin> server_nodes sv'" by (auto simp: server_nodes_def st(1) g_def)
  then show ?thesis using rem by (simp add: page h' st(2) g_def)
qed

section \<open>Repeating a save that failed halfway\<close>

text \<open>
  The editor stays open when a request fails; saving again sends all requests once more, and the
  store ends as if the first attempt had gone through.
\<close>

lemma update_first_twice:
  "(\<And>x. P x \<Longrightarrow> P (f x) \<and> f (f x) = f x) \<Longrightarrow> update_first P f (update_first P f xs) = update_first P f xs"
  by (induction xs) auto

lemma update_first_last:
  "\<not> (\<exists>x\<in>set xs. P x) \<Longrightarrow> P y \<Longrightarrow> update_first P f (xs @ [y]) = xs @ [f y]"
  by (induction xs) auto

lemma putNode_twice: "putNode i x y (Some s) (putNode i x y (Some s) ns) = putNode i x y (Some s) ns"
proof -
  have "has_node i (putNode i x y (Some s) ns)" using ids_insert [OF putNode_ids, of i x y "Some s" ns]
    by (metis has_node_def imageE insertI1)
  then show ?thesis
    by (cases "has_node i ns") (auto simp: putNode_def config_def has_node_def update_first_last intro!: update_first_twice)
qed

lemma upsertEdge_twice: "upsertEdge e (upsertEdge e es) = upsertEdge e es"
  by (auto simp: upsertEdge_def)

text \<open>
  C12.  When saving an appliance fails on the way, the dialog shows the error and can be used
  again, and a second save that succeeds leaves the store as if the first one had succeeded,
  whichever of the requests the first save sent the server has applied, be it that they were
  answered, refused, or applied with the answer lost.
\<close>

theorem repeated_save_repairs:
  assumes "applianceModal_save fails p m = (Inl m', out)" and "ap_selected m = Some d"
    and "applianceModal_save (\<lambda>_. None) p m' = (Inr d', reqs)"
    and served: "served \<in> set (subseqs out)"
  shows "serveAll reqs (serveAll served sv) = serveAll (applianceModal_requests p m) sv
    \<and> ap_error m' \<noteq> None \<and> \<not> ap_saving m'"
proof -
  obtain msg where r: "run_requests fails (applianceModal_requests p m) = (Some msg, out)"
    and m': "m' = m\<lparr>ap_error := Some msg, ap_saving := False\<rparr>"
    using assms(1,2) by (auto simp: applianceModal_save_def split: prod.splits option.splits)
  have "reqs = applianceModal_requests p m'"
    using assms(2,3) m' by (simp add: applianceModal_save_def run_requests_ok split: option.splits)
  then have reqs: "reqs = applianceModal_requests p m"
    by (simp add: m' applianceModal_requests_def applianceSettings_def split: option.splits)
  obtain x y s where rq: "applianceModal_requests p m = PutNode (ep_topologyNodeId p) x y (Some s)
      # (if ep_wire p then [PostEdge (applianceEdge p)] else [])"
    using assms(2) by (simp add: applianceModal_requests_def)
  have "out \<in> {[], [PutNode (ep_topologyNodeId p) x y (Some s)], applianceModal_requests p m}"
    using r unfolding rq by (auto split: option.splits if_splits)
  then have "set served \<subseteq> set (applianceModal_requests p m)" and "served \<in> set (subseqs (applianceModal_requests p m))"
    using served unfolding rq by (auto simp: Let_def split: if_splits)
  then have "serveAll reqs (serveAll served sv) = serveAll (applianceModal_requests p m) sv"
    unfolding reqs rq by (auto simp: serve_def putNode_twice upsertEdge_twice Let_def split: if_splits)
  then show ?thesis by (simp add: m')
qed

section \<open>The inputs\<close>

text \<open>The node behind each input.\<close>

definition role_nodes :: "(string \<times> string) list" where
  "role_nodes = [(''grid'', ''grid_meter''), (''solar'', ''solar_inverter''), (''tariff'', ''tariff'')]"

abbreviation stored :: "string \<Rightarrow> server \<Rightarrow> saved_node option" where
  "stored i sv \<equiv> find (\<lambda>n. n_id n = i) (sv_nodes sv)"

lemma find_update_first:
  "(\<And>x. P x \<Longrightarrow> P (f x)) \<Longrightarrow> find P (update_first P f xs) = map_option f (find P xs)"
  by (induction xs) auto

lemma find_update_other:
  "(\<And>x. P x \<Longrightarrow> \<not> Q x \<and> \<not> Q (f x)) \<Longrightarrow> find Q (update_first P f xs) = find Q xs"
  by (induction xs) auto

lemma find_snoc: "find P (xs @ [y]) = (case find P xs of None \<Rightarrow> if P y then Some y else None | Some x \<Rightarrow> Some x)"
  by (induction xs) auto

lemma find_upsertNode:
  "j \<noteq> i \<Longrightarrow> find (\<lambda>n. n_id n = j) (upsertNode i x y s ns) = find (\<lambda>n. n_id n = j) ns"
  "\<exists>n. find (\<lambda>n. n_id n = i) (upsertNode i x y s ns) = Some n \<and> n_id n = i \<and> n_settings n = Some s"
proof -
  show "j \<noteq> i \<Longrightarrow> find (\<lambda>n. n_id n = j) (upsertNode i x y s ns) = find (\<lambda>n. n_id n = j) ns"
    by (cases "has_node i ns") (auto simp: upsertNode_def find_snoc config_def find_update_other split: option.split)
  show "\<exists>n. find (\<lambda>n. n_id n = i) (upsertNode i x y s ns) = Some n \<and> n_id n = i \<and> n_settings n = Some s"
  proof (cases "has_node i ns")
    case True
    then have "find (\<lambda>n. n_id n = i) ns \<noteq> None" by (auto simp: has_node_def find_None_iff)
    then obtain n where "find (\<lambda>n. n_id n = i) ns = Some n" by blast
    with True show ?thesis using find_SomeD [of "\<lambda>n. n_id n = i" ns n] by (simp add: upsertNode_def find_update_first)
  next
    case False
    then have "find (\<lambda>n. n_id n = i) ns = None" by (auto simp: has_node_def find_None_iff)
    with False show ?thesis by (simp add: upsertNode_def find_snoc config_def)
  qed
qed

lemma find_solarChildren:
  "\<not> starts_with ''battery_'' j \<Longrightarrow> \<not> starts_with ''pv_string_'' j
    \<Longrightarrow> stored j (solarChildren nid pos eps cs k sv) = stored j sv"
proof (induction cs arbitrary: k sv)
  case (Cons c cs)
  have "j \<noteq> ''battery_'' @ dec c" "j \<noteq> ''pv_string_'' @ dec c" using Cons.prems by (auto simp: starts_with_def)
  then show ?case using Cons by (simp add: Let_def find_upsertNode(1) split: option.split)
qed simp

text \<open>What a request of a picker changes: the node of its role, and for an inverter also its parts.\<close>

lemma find_map: "find P (map f xs) = map_option f (find (\<lambda>x. P (f x)) xs)"
  by (induction xs) auto

lemma find_filter_ids:
  "find (\<lambda>n. n_id n = i) (filter (\<lambda>n. n_id n \<noteq> i) ns) = None"
  "j \<noteq> i \<Longrightarrow> find (\<lambda>n. n_id n = j) (filter (\<lambda>n. n_id n \<noteq> i) ns) = find (\<lambda>n. n_id n = j) ns"
  by (induction ns) auto

lemma stored_putRole:
  "stored j (serve (PutRole ''grid'' nid eid label) sv) =
     find (\<lambda>n. n_id n = j) (upsertNode ''grid_meter'' (fst (cuAt (sv_nodes sv)) - 220) (snd (cuAt (sv_nodes sv)))
       (device_settings label ''device'' nid eid) (sv_nodes sv))"
  "\<lbrakk>\<not> starts_with ''battery_'' j; \<not> starts_with ''pv_string_'' j\<rbrakk> \<Longrightarrow>
     stored j (serve (PutRole ''solar'' nid eid label) sv) =
     find (\<lambda>n. n_id n = j) (upsertNode ''solar_inverter'' (fst (cuAt (sv_nodes sv)) + 220) (snd (cuAt (sv_nodes sv)))
       (device_settings label ''solarInverter'' nid eid) (sv_nodes sv))"
  "stored j (serve (PutRole ''tariff'' nid eid label) sv) =
     find (\<lambda>n. n_id n = j) (filter (\<lambda>n. n_id n \<noteq> ''tariff'') (sv_nodes sv)
       @ [config ''tariff'' (fst (cuAt (sv_nodes sv)) - 220) (snd (cuAt (sv_nodes sv)) + 120) (device_settings label ''tariff'' nid eid)])"
  by (simp_all add: serve_def putGrid_def putSolar_def putTariff_def Let_def find_solarChildren split: prod.split)

lemma putRole_stored:
  assumes "(role, i) \<in> set role_nodes"
  shows "\<exists>n ty. stored i (serve (PutRole role nid eid label) sv) = Some n
      \<and> n_id n = i \<and> n_settings n = Some (device_settings label ty nid eid)"
    and "\<lbrakk>j \<noteq> i; \<not> starts_with ''battery_'' j; \<not> starts_with ''pv_string_'' j\<rbrakk>
      \<Longrightarrow> stored j (serve (PutRole role nid eid label) sv) = stored j sv"
proof -
  have st: "\<not> starts_with ''battery_'' i" "\<not> starts_with ''pv_string_'' i"
    using assms by (auto simp: role_nodes_def starts_with_def)
  consider "role = ''grid''" "i = ''grid_meter''" | "role = ''solar''" "i = ''solar_inverter''" | "role = ''tariff''" "i = ''tariff''"
    using assms by (auto simp: role_nodes_def)
  then show "\<exists>n ty. stored i (serve (PutRole role nid eid label) sv) = Some n
      \<and> n_id n = i \<and> n_settings n = Some (device_settings label ty nid eid)"
  proof cases
    case 1
    show ?thesis unfolding 1 stored_putRole(1) using find_upsertNode(2) by metis
  next
    case 2
    show ?thesis unfolding 2 stored_putRole(2) [OF st [unfolded 2]] using find_upsertNode(2) by metis
  next
    case 3
    show ?thesis unfolding 3 stored_putRole(3) by (simp add: find_snoc find_filter_ids(1) config_def) blast
  qed
  assume "j \<noteq> i" "\<not> starts_with ''battery_'' j" "\<not> starts_with ''pv_string_'' j"
  then show "stored j (serve (PutRole role nid eid label) sv) = stored j sv"
    using assms find_upsertNode(1) [of j i]
    by (auto simp: role_nodes_def stored_putRole find_snoc find_filter_ids(2) config_def split: option.split)
qed

lemma roleDevice_stored:
  "roleDevice i sensor solar (home_nodes sv) old =
     (case stored i sv of None \<Rightarrow> old
      | Some n \<Rightarrow> roleDevice i sensor solar [home_node_of n] old)"
proof -
  have "find (\<lambda>n. hn_id n = i) (home_nodes sv) = map_option home_node_of (stored i sv)"
    by (simp add: find_map)
  then show ?thesis
    by (cases "stored i sv") (auto simp: roleDevice_def dest: find_SomeD)
qed

text \<open>
  C13.  The device chosen for an input (grid, solar or tariff) is the one the Home page shows in
  the card of that input when it is loaded from the store again, and choosing it changes nothing
  about what the page shows for the other two. The device has a label that is not empty.
\<close>

theorem input_survives_reload:
  assumes role: "(role, i) \<in> {(''grid'', ''grid_meter''), (''solar'', ''solar_inverter''), (''tariff'', ''tariff'')}"
    and save: "rp_selected p = Some d" "rolePicker_save role p = (p', Some r)" "sd_label d \<noteq> []"
    and h: "h = reload sv h0" and h': "h' = reload (serve r sv) h0"
  shows "hm_gridSensor h' = (if role = ''grid'' then Some (d\<lparr>sd_name := None, sd_hasElectricalSensor := True,
           sd_hasSolarPower := False, sd_excludeFromScheduling := None\<rparr>) else hm_gridSensor h)
    \<and> hm_solarInverter h' = (if role = ''solar'' then Some (d\<lparr>sd_name := None, sd_hasElectricalSensor := False,
           sd_hasSolarPower := True, sd_excludeFromScheduling := None\<rparr>) else hm_solarInverter h)
    \<and> hm_tariff h' = (if role = ''tariff'' then Some (d\<lparr>sd_name := None, sd_hasElectricalSensor := False,
           sd_hasSolarPower := False, sd_excludeFromScheduling := None\<rparr>) else hm_tariff h)"
proof -
  have role': "(role, i) \<in> set role_nodes" using role by (simp add: role_nodes_def)
  have r: "r = PutRole role (sd_nodeId d) (sd_endpointId d) (sd_label d)" using save by (simp add: rolePicker_save_def)
  obtain n ty where n: "stored i (serve r sv) = Some n" "n_id n = i"
    "n_settings n = Some (device_settings (sd_label d) ty (sd_nodeId d) (sd_endpointId d))"
    using putRole_stored(1) [OF role'] unfolding r by blast
  have other: "stored j (serve r sv) = stored j sv"
    if "j \<in> {''grid_meter'', ''solar_inverter'', ''tariff''}" "j \<noteq> i" for j
  proof -
    have "\<not> starts_with ''battery_'' j \<and> \<not> starts_with ''pv_string_'' j" using that by (auto simp: starts_with_def)
    then show ?thesis using that(2) putRole_stored(2) [OF role'] unfolding r by blast
  qed
  have own: "roleDevice i sensor solar [home_node_of n] old = Some (d\<lparr>sd_name := None, sd_hasElectricalSensor := sensor,
      sd_hasSolarPower := solar, sd_excludeFromScheduling := None\<rparr>)" for sensor solar old
    using save(3) n(2) by (simp add: roleDevice_def home_node_of_def n(3) device_settings_def no_settings_def)
  have shown: "roleDevice j sensor solar (home_nodes (serve r sv)) old = (if j = i
      then Some (d\<lparr>sd_name := None, sd_hasElectricalSensor := sensor, sd_hasSolarPower := solar, sd_excludeFromScheduling := None\<rparr>)
      else roleDevice j sensor solar (home_nodes sv) old)"
    if "j \<in> {''grid_meter'', ''solar_inverter'', ''tariff''}" for j sensor solar old
  proof (cases "j = i")
    case True
    then show ?thesis unfolding roleDevice_stored [of _ _ _ "serve r sv"] by (simp add: n(1) own)
  next
    case False
    then show ?thesis
      unfolding roleDevice_stored [of _ _ _ "serve r sv"] roleDevice_stored [of _ _ _ sv] by (simp add: other [OF that False])
  qed
  have "(''grid_meter'' = i) = (role = ''grid'') \<and> (''solar_inverter'' = i) = (role = ''solar'') \<and> (''tariff'' = i) = (role = ''tariff'')"
    using role by auto
  then show ?thesis unfolding h h' reload_simps by (simp add: shown)
qed

text \<open>Removing an input removes its node and its wire; a visitor who comes back finds the slot empty.\<close>

lemma initial_home_devices [simp]:
  "hm_gridSensor initial_home = None" "hm_tariff initial_home = None" "hm_solarInverter initial_home = None"
  by (simp_all add: initial_home_def)

definition role_delete :: "string \<Rightarrow> plan" where
  "role_delete i = (if i = ''grid_meter'' then handleGridDelete else if i = ''tariff'' then handleTariffDelete else handleSolarDelete)"

definition role_shown :: "string \<Rightarrow> home \<Rightarrow> simple_device option" where
  "role_shown i h = (if i = ''grid_meter'' then hm_gridSensor h else if i = ''tariff'' then hm_tariff h else hm_solarInverter h)"

theorem removed_input_stays_removed:
  assumes role: "i \<in> snd ` set role_nodes"
    and run: "run_plan (\<lambda>_. False) (role_delete i) h = (h', reqs)" and sv': "sv' = serveAll reqs sv"
  shows "role_shown i h' = None \<and> role_shown i (reload sv' initial_home) = None
    \<and> (\<forall>e\<in>set (sv_edges sv'). se_source e \<noteq> i \<and> se_target e \<noteq> i)
    \<and> (\<forall>j\<in>snd ` set role_nodes. j \<noteq> i \<longrightarrow> role_shown j h' = role_shown j h)"
proof -
  obtain e where reqs: "reqs = [DeleteEdge e, DeleteNode i]"
    using run role by (auto simp: role_nodes_def role_delete_def run_plan_def handleGridDelete_def handleTariffDelete_def
        handleSolarDelete_def split: if_splits)
  have "stored i sv' = None" by (simp add: sv' reqs serve_def deleteNode_def deleteEdge_def find_filter_ids)
  then have "roleDevice i sensor solar (home_nodes sv') None = None" for sensor solar by (simp add: roleDevice_stored)
  then have "role_shown i (reload sv' initial_home) = None"
    using role by (auto simp: role_shown_def role_nodes_def)
  moreover have "\<forall>e\<in>set (sv_edges sv'). se_source e \<noteq> i \<and> se_target e \<noteq> i"
    by (simp add: sv' reqs serve_def deleteNode_def)
  moreover have "role_shown i h' = None \<and> (\<forall>j\<in>snd ` set role_nodes. j \<noteq> i \<longrightarrow> role_shown j h' = role_shown j h)"
  proof -
    have h': "h' = pl_done (role_delete i) h" using run by (simp add: run_plan_def)
    consider "i = ''grid_meter''" | "i = ''solar_inverter''" | "i = ''tariff''" using role by (auto simp: role_nodes_def)
    then show ?thesis
      by cases (simp_all add: h' role_delete_def role_nodes_def role_shown_def handleGridDelete_def
          handleTariffDelete_def handleSolarDelete_def)
  qed
  ultimately show ?thesis by blast
qed

text \<open>
  The route removes the one node: the PV strings and the battery that saving an inverter created stay
  behind, although the topology page takes them along with the inverter.
\<close>

theorem removed_inverter_leaves_its_parts:
  assumes "run_plan (\<lambda>_. False) handleSolarDelete h = (h', reqs)"
  shows "server_nodes (serveAll reqs sv) = server_nodes sv - {''solar_inverter''}"
  using assms by (auto simp: run_plan_def handleSolarDelete_def serve_def deleteNode_def deleteEdge_def server_nodes_def)

section \<open>A small graph\<close>

definition flat :: server where
  "flat = \<lparr>sv_name = ''Flat'',
     sv_nodes = [config ''consumer_unit'' 0 0 (no_settings\<lparr>s_type := Some ''consumerUnit''\<rparr>),
       config ''grid_meter'' 0 0 (device_settings ''Meter'' ''device'' 1 1),
       config ''node_2'' 0 0 (device_settings ''Oven'' ''appliance'' 2 1),
       config ''node_3'' 0 0 (device_settings ''Fridge'' ''device'' 3 1)],
     sv_edges = [edge_config ''g'' ''grid_meter'' ''power-out'' ''consumer_unit'' ''grid'',
       edge_config ''o'' ''consumer_unit'' ''circuit_1'' ''node_2'' ''power-in''],
     sv_devices = []\<rparr>"

lemma flat_home_ok: "home_store_ok flat"
proof -
  have "store_ok flat" by (simp add: store_ok_def flat_def config_def edge_config_def)
  moreover have no: "\<forall>n\<in>set (sv_nodes flat). \<forall>k. n_id n \<noteq> applianceNodeId k"
    by (simp add: flat_def config_def applianceNodeId_def)
  moreover have "\<forall>n\<in>set (sv_nodes flat). n_id n \<noteq> [] \<and> id_number ''appliance_'' (n_id n) = None
      \<and> (n_id n = HOME_CU \<longrightarrow> slotOf (supplyIds (sv_edges flat)) (home_node_of n) = None)"
    by (simp add: flat_def config_def id_number_def starts_with_def HOME_CU_def slotOf_def home_node_of_def
        no_settings_def LOAD_TYPES_def)
  moreover have "\<forall>e\<in>set (sv_edges flat). \<forall>k. applianceNodeId k \<notin> {se_source e, se_target e}"
    by (simp add: flat_def edge_config_def applianceNodeId_def)
  ultimately show ?thesis unfolding home_store_ok_def canonical_def by (metis option.distinct(1))
qed

definition flat_home :: home where "flat_home = reload flat initial_home"

definition new_plug :: simple_device where
  "new_plug = \<lparr>sd_nodeId = 4, sd_endpointId = 2, sd_label = ''Grid Sensor'', sd_name = None,
     sd_hasElectricalSensor = True, sd_hasSolarPower = False, sd_excludeFromScheduling = None\<rparr>"

definition plug_editor :: appliance_modal where
  "plug_editor = (applianceModal_open (editProps 3 flat_home))\<lparr>ap_selected := Some new_plug, ap_name := ''Heater''\<rparr>"

definition plug_requests :: "request list" where
  "plug_requests = applianceModal_requests (editProps 3 flat_home) plug_editor"

theorem saved_appliance_fills_its_slot_witness:
  "map (map_option as_graphId) (hm_appliances (handleApplianceSave (reload (serveAll plug_requests flat)) flat_home))
     = [Some ''node_2'', Some ''node_3'', None, Some ''appliance_4'', None, None, None, None, None, None]
   \<and> home_store_ok (serveAll plug_requests flat)"
proof -
  let ?p = "editProps 3 flat_home"
  have slots: "map (map_option as_graphId) (hm_appliances flat_home)
      = [Some ''node_2'', Some ''node_3'', None, None, None, None, None, None, None, None]" by code_simp
  then have empty: "hm_appliances flat_home ! 3 = None" by code_simp
  have sel: "ap_selected plug_editor = Some new_plug" by (simp add: plug_editor_def)
  have "applianceModal_save (\<lambda>_. None) ?p plug_editor
      = (Inr (new_plug\<lparr>sd_name := Some (or_str (trim (ap_name plug_editor)) (sd_label new_plug)),
           sd_excludeFromScheduling := Some (ap_exclude plug_editor)\<rparr>), plug_requests)"
    by (simp add: applianceModal_save_def sel run_requests_ok plug_requests_def)
  moreover have "ep_edgeId ?p \<notin> se_id ` set (sv_edges flat)" by code_simp
  moreover have "sd_label new_plug \<noteq> []" by (simp add: new_plug_def)
  moreover have "3 < APPLIANCE_SLOTS" by (simp add: APPLIANCE_SLOTS_def)
  ultimately have
    "hm_appliances (handleApplianceSave (reload (serveAll plug_requests flat)) flat_home)
      = (hm_appliances flat_home)[3 := Some \<lparr>as_graphId = applianceNodeId 3, as_type = ''appliance'',
          as_x = Some (fst (ep_position ?p)), as_y = Some (snd (ep_position ?p)),
          as_device = new_plug\<lparr>sd_name := Some (or_str (trim (ap_name plug_editor)) (sd_label new_plug)),
           sd_excludeFromScheduling := Some (ap_exclude plug_editor)\<rparr>\<lparr>sd_hasElectricalSensor := True, sd_hasSolarPower := False\<rparr>\<rparr>]"
    "home_store_ok (serveAll plug_requests flat)"
    using saved_appliance_fills_its_slot [OF flat_home_ok flat_home_def _ empty sel _ refl _ _ refl] by blast+
  moreover have "applianceNodeId 3 = ''appliance_4''" by code_simp
  ultimately show ?thesis by (simp add: map_update slots)
qed

text \<open>
  A slot looks empty although a node has its id when that node is wired to a supply handle of the
  consumer unit.  Saving an appliance there replaces the settings of that node, and the page, loaded
  again, still shows the slot empty.
\<close>

definition supplied :: server where
  "supplied = flat\<lparr>
     sv_nodes := sv_nodes flat @ [config ''appliance_4'' 0 0 (device_settings ''Roof'' ''device'' 9 1)],
     sv_edges := sv_edges flat @ [edge_config ''s'' ''appliance_4'' ''power-out'' ''consumer_unit'' ''solar_input'']\<rparr>"

definition supplied_saved :: server where
  "supplied_saved = serveAll (applianceModal_requests (editProps 3 (reload supplied initial_home)) plug_editor) supplied"

theorem hidden_slot_is_overwritten:
  "hm_appliances (reload supplied initial_home) ! 3 = None"
  "hm_appliances (reload supplied_saved initial_home) ! 3 = None"
  "map (\<lambda>n. opt_field s_label (n_settings n)) (filter (\<lambda>n. n_id n = ''appliance_4'') (sv_nodes supplied_saved)) = [Some ''Grid Sensor'']"
  by code_simp+

theorem removed_appliance_leaves_its_slot_witness:
  "''node_3'' \<notin> server_nodes (serveAll (snd (run_plan (\<lambda>_. False) (handleApplianceDelete id 1 flat_home) flat_home)) flat)"
proof -
  let ?reqs = "snd (run_plan (\<lambda>_. False) (handleApplianceDelete id 1 flat_home) flat_home)"
  let ?a = "the (hm_appliances flat_home ! 1)"
  define sv' where "sv' = serveAll ?reqs flat"
  have a: "1 < length (hm_appliances flat_home)" "hm_appliances flat_home ! 1 = Some ?a" "as_graphId ?a = ''node_3''"
    by code_simp+
  have "snd (run_plan (\<lambda>_. False) (handleApplianceDelete (reload sv') 1 flat_home) flat_home) = ?reqs"
    by (simp add: run_plan_def handleApplianceDelete_def Let_def split: option.split)
  then have "run_plan (\<lambda>_. False) (handleApplianceDelete (reload sv') 1 flat_home) flat_home
      = (fst (run_plan (\<lambda>_. False) (handleApplianceDelete (reload sv') 1 flat_home) flat_home), ?reqs)"
    by (metis prod.collapse)
  from removed_appliance_leaves_its_slot [OF flat_home_ok flat_home_def a(1,2) this sv'_def] show ?thesis
    unfolding a(3) sv'_def by blast
qed

theorem repeated_save_repairs_witness:
  "serveAll plug_requests (serveAll [hd plug_requests] flat) = serveAll plug_requests flat"
proof -
  let ?p = "editProps 3 flat_home" and ?fails = "\<lambda>r. case r of PostEdge _ \<Rightarrow> Some ''HTTP 500'' | _ \<Rightarrow> None"
  have sel: "ap_selected plug_editor = Some new_plug" by (simp add: plug_editor_def)
  have wire: "ep_wire ?p" by code_simp
  let ?m = "plug_editor\<lparr>ap_error := Some ''HTTP 500'', ap_saving := False\<rparr>"
  have f: "applianceModal_save ?fails ?p plug_editor = (Inl ?m, plug_requests)"
    by (simp add: applianceModal_save_def sel plug_requests_def applianceModal_requests_def wire)
  have "applianceModal_save (\<lambda>_. None) ?p ?m = (Inr (new_plug\<lparr>sd_name := Some (or_str (trim (ap_name ?m)) (sd_label new_plug)),
      sd_excludeFromScheduling := Some (ap_exclude ?m)\<rparr>), plug_requests)"
    by (simp add: applianceModal_save_def sel run_requests_ok plug_requests_def applianceModal_requests_def applianceSettings_def)
  moreover have "[hd plug_requests] \<in> set (subseqs plug_requests)"
    by (simp add: plug_requests_def applianceModal_requests_def sel wire)
  ultimately show ?thesis using repeated_save_repairs [OF f sel, of _ _ "[hd plug_requests]" flat]
    by (simp add: plug_requests_def)
qed

definition tariff_picker :: role_picker where
  "tariff_picker = \<lparr>rp_devices = [], rp_selected = Some new_plug, rp_loading = False, rp_saving = False, rp_error = None\<rparr>"

theorem input_survives_reload_witness:
  "hm_tariff (reload (serve (PutRole ''tariff'' 4 2 ''Grid Sensor'') flat) initial_home)
     = Some (new_plug\<lparr>sd_hasElectricalSensor := False\<rparr>)
   \<and> hm_gridSensor (reload (serve (PutRole ''tariff'' 4 2 ''Grid Sensor'') flat) initial_home) = hm_gridSensor flat_home"
proof -
  have "rolePicker_save ''tariff'' tariff_picker = (tariff_picker\<lparr>rp_saving := True\<rparr>, Some (PutRole ''tariff'' 4 2 ''Grid Sensor''))"
    by (simp add: rolePicker_save_def tariff_picker_def new_plug_def)
  note t = input_survives_reload [of "''tariff''" "''tariff''", OF _ _ this _ flat_home_def refl, of new_plug]
  have "rp_selected tariff_picker = Some new_plug" "sd_label new_plug \<noteq> []"
    by (simp_all add: tariff_picker_def new_plug_def)
  from t [OF _ this] show ?thesis by (simp add: new_plug_def)
qed

theorem removed_input_stays_removed_witness:
  "role_shown ''grid_meter'' (reload (serveAll (snd (run_plan (\<lambda>_. False) handleGridDelete flat_home)) flat) initial_home) = None"
proof -
  have "run_plan (\<lambda>_. False) (role_delete ''grid_meter'') flat_home
      = (fst (run_plan (\<lambda>_. False) handleGridDelete flat_home), snd (run_plan (\<lambda>_. False) handleGridDelete flat_home))"
    by (simp add: role_delete_def)
  from removed_input_stays_removed [OF _ this refl] show ?thesis by (simp add: role_nodes_def)
qed

end
