(* ===== verification/TopologyPage.thy ===== *)
theory TopologyPage
  imports NodeViews Pickers Session
begin

text \<open>
  The frame of the topology page (\<open>Topology.tsx\<close>): the components registered for node types, the
  view of the Unallocated node, the status dot, the stack of toasts, the dialogs and menus that are
  open, and the keyboard listener of the window.
\<close>

section \<open>Node components\<close>

datatype node_component =
    ConsumerUnitComponent | DeviceComponent | SolarInverterComponent | PvStringComponent
  | BatteryComponent | SubConsumerUnitComponent | TariffComponent | UnallocatedComponent

definition nodeTypes :: "(string \<times> node_component) list" where
  "nodeTypes =
     [(''consumerUnit'', ConsumerUnitComponent), (''device'', DeviceComponent), (''appliance'', DeviceComponent),
      (''solarInverter'', SolarInverterComponent), (''pvString'', PvStringComponent), (''battery'', BatteryComponent),
      (''subConsumerUnit'', SubConsumerUnitComponent), (''tariff'', TariffComponent),
      (''unallocated'', UnallocatedComponent), (''henley'', SubConsumerUnitComponent)]"

definition component :: "node \<Rightarrow> node_component option" where
  "component n = (case c_type n of None \<Rightarrow> None | Some t \<Rightarrow> map_of nodeTypes t)"

section \<open>Views\<close>

text \<open>The Unallocated node: label, the title of the warning badge, the power.\<close>

record unallocated_view =
  uv_label :: string
  uv_warning :: "string option"
  uv_power :: string

definition UnallocatedNode :: "edge list \<Rightarrow> bool \<Rightarrow> string \<Rightarrow> unallocated_view" where
  "UnallocatedNode es warn label =
     (let rawKw = (case find (\<lambda>e. e_id e = UNALLOCATED_EDGE_ID) es of None \<Rightarrow> None | Some e \<Rightarrow> raw_of e)
      in \<lparr>uv_label = label,
          uv_warning = (if warn
             then Some (''Metered loads exceed the supply by ''
               @ (case rawKw of None \<Rightarrow> ''NaN'' | Some r \<Rightarrow> toFixed 0 \<bar>r * 1000\<bar>)
               @ '' W. Check for an inverted CT or a missing meter.'')
             else None),
          uv_power = unallocatedText rawKw\<rparr>)"

definition WsStatusDot :: "WsReadyState \<Rightarrow> string \<times> string" where
  "WsStatusDot state = WS_DOT state"

text \<open>A toast: its text, and the update its button makes.\<close>

definition ToastStack :: "canvas \<Rightarrow> (string \<times> (canvas \<Rightarrow> canvas)) list" where
  "ToastStack cv = map (\<lambda>t. (snd t, dismissToast (fst t))) (cv_toasts cv)"

text \<open>The dialogs and menus that are drawn over the canvas.\<close>

datatype overlay =
    GridDialog
  | EditDialog string settings bool
  | NodeMenu "menu_item list" rat rat
  | PaneMenu rat rat
  | AddLoadDialog

definition overlays :: "canvas \<Rightarrow> overlay list" where
  "overlays cv =
     (if cv_gridModalOpen cv then [GridDialog] else [])
     @ (case cv_editNode cv of None \<Rightarrow> [] | Some n \<Rightarrow> [EditDialog (c_id n) (editSettings n) (hasDevice_of n)])
     @ (case cv_nodeMenu cv of None \<Rightarrow> [] | Some (n, x, y) \<Rightarrow> [NodeMenu (nodeMenuItems n) x y])
     @ (case cv_paneMenu cv of None \<Rightarrow> [] | Some (x, y) \<Rightarrow> [PaneMenu x y])
     @ (case cv_pendingLoadPos cv of None \<Rightarrow> [] | Some _ \<Rightarrow> [AddLoadDialog])"

definition defaultZoom :: "storage \<Rightarrow> rat" where
  "defaultZoom st = default_to (1 / 2) (readStoredZoom st)"

section \<open>Every node on the canvas is drawn\<close>

definition known_type :: "string option \<Rightarrow> bool" where
  "known_type ty \<longleftrightarrow> (case ty of None \<Rightarrow> False | Some t \<Rightarrow> map_of nodeTypes t \<noteq> None)"

lemma component_known: "component n \<noteq> None \<longleftrightarrow> known_type (c_type n)"
  by (simp add: component_def known_type_def split: option.split)

lemma known_types [simp]:
  "known_type (Some ''device'')" "known_type (Some ''subConsumerUnit'')" "known_type (Some ''unallocated'')"
  by (simp_all add: known_type_def nodeTypes_def)

abbreviation types_of :: "canvas \<Rightarrow> string option set" where
  "types_of cv \<equiv> c_type ` set (cv_nodes cv)"

lemma types_insertNode: "types_of (fst (insertNode ty pos l s cv)) = insert (Some ty) (types_of cv)"
  by (simp add: new_node_def)

lemma types_removeAll: "types_of (fst (removeAll_ids ids cv)) \<subseteq> types_of cv"
  by auto

lemma types_ws: "types_of (fst (handleWsMessage m cv)) = types_of cv"
proof -
  have "c_type (updateBy es SB n) = c_type n" for es SB n by (simp add: updateNode_def Let_def)
  then show ?thesis
    by (auto simp: handleWsMessage_def applyEntries_nodes image_image addToast_def Let_def split: ws_data.split)
qed

lemma types_placed: "placed_as ns ms \<Longrightarrow> c_type ` set ns = c_type ` set ms"
proof -
  assume "placed_as ns ms"
  then have "map c_type ns = map c_type ms" by (rule placed_map) simp
  then show ?thesis by (metis list.set_map)
qed

lemma types_step:
  "canvas_step addEdge base cv r \<Longrightarrow> types_of (fst r) \<subseteq> types_of cv \<union> {Some ''device'', Some ''subConsumerUnit''}"
proof (induction rule: canvas_step.induct)
  case (ws cv m)
  show ?case unfolding types_ws by blast
next
  case (key cv k)
  show ?case by (auto simp: handleKeyDown_def Let_def)
next
  case (drop cv r raw pos)
  show ?case by (auto simp: onDrop_def new_node_def split: option.split)
next
  case (add_board cv pos)
  show ?case by (auto simp: addSubConsumerUnit_def Let_def case_prod_beta new_node_def)
next
  case (add_load cv toFlow dev)
  show ?case by (auto simp: handleAddLoad_def Let_def new_node_def split: option.split)
next
  case (edited cv d n s)
  show ?case by (auto simp: handleNodeEdited_def editedNode_def Let_def)
next
  case (circuits cv n k)
  show ?case by (auto simp: setCircuits_def Let_def)
qed (auto simp: deleteSubConsumerUnit_removeAll deleteLoad_removeAll onConnect_def onEdgesChange_def onNodeDoubleClick_def
    onNodeContextMenu_def onPaneContextMenu_def dismissToast_def overlay_frame types_placed)

lemma types_opened:
  assumes "onInit ps (Some (ns, es)) cv0 = (cv, effs)" and "\<forall>n\<in>set ns. known_type (opt_field s_type (n_settings n))"
  shows "\<forall>ty\<in>types_of cv. known_type ty"
proof -
  have cv: "cv = fst (onInit ps (Some (ns, es)) cv0)" using assms(1) by (metis fst_conv)
  have "c_type (restoredNode SB n) = opt_field s_type (n_settings n)" for SB n
    by (simp add: restoredNode_def Let_def)
  then show ?thesis
    using assms(2) unfolding cv onInit_Some
    by (auto simp: restoredNodes_def Let_def unallocatedNode_def new_node_def)
qed

text \<open>
  C22.  If the stored nodes have registered types, every node on the canvas has a registered
  component after loading and after any sequence of user and device events: no handler makes a
  node that cannot be drawn.
\<close>

theorem every_node_has_a_component:
  assumes "onInit ps (Some (ns, es)) cv0 = (cv, effs)"
    and "\<forall>n\<in>set ns. opt_field s_type (n_settings n) \<in> Some ` fst ` set nodeTypes"
    and "canvas_run addEdge base cv cv'"
  shows "\<forall>n\<in>set (cv_nodes cv'). component n \<noteq> None"
proof -
  have "known_type (Some t) \<longleftrightarrow> t \<in> fst ` set nodeTypes" for t
    by (simp add: known_type_def map_of_eq_None_iff)
  then have "\<forall>n\<in>set ns. known_type (opt_field s_type (n_settings n))" using assms(2) by (metis imageE)
  note opened = types_opened [OF assms(1) this]
  from assms(3) opened have "\<forall>ty\<in>types_of cv'. known_type ty"
  proof (induction rule: canvas_run.induct)
    case (more cv1 cv2 cv3 effs)
    have "types_of cv3 \<subseteq> types_of cv2 \<union> {Some ''device'', Some ''subConsumerUnit''}"
      using types_step [OF more.hyps(2)] by simp
    then show ?case using more.IH [OF more.prems] by (auto simp: subset_iff)
  next
    case (removed cv1 cv2 gone cv3)
    then show ?case using flow_removes_simps(4) [OF removed.hyps(2)] by auto
  qed simp
  then show ?thesis unfolding component_known by simp
qed

theorem every_node_has_a_component_witness:
  "list_all (\<lambda>n. component n \<noteq> None) (cv_nodes (fst (addSubConsumerUnit (0, 0) (fst opened_seed))))"
proof -
  have "onInit None (Some (fst (getNodes seed), Some (snd (getNodes seed)))) initial_canvas = (fst opened_seed, snd opened_seed)"
    by (simp add: opened_seed_def getNodes_def)
  moreover have "\<forall>n\<in>set (fst (getNodes seed)). opt_field s_type (n_settings n) \<in> Some ` fst ` set nodeTypes"
    by (simp add: getNodes_def seed_def seed_nodes_def config_def device_settings_def nodeTypes_def)
  moreover have "canvas_run flow_addEdge drop_removed (fst opened_seed) (fst (addSubConsumerUnit (0, 0) (fst opened_seed)))"
    using canvas_run.more [OF canvas_run.here, of flow_addEdge drop_removed _ "fst (addSubConsumerUnit (0, 0) (fst opened_seed))"
        "snd (addSubConsumerUnit (0, 0) (fst opened_seed))"]
    by (metis canvas_step.add_board prod.collapse)
  ultimately show ?thesis unfolding list_all_iff by (rule every_node_has_a_component)
qed

section \<open>Hidden circuits\<close>

text \<open>
  Taking a circuit off a board leaves what is wired to it in place: the edge stays, with a handle
  that the board no longer draws.
\<close>

theorem removed_circuit_keeps_its_wire:
  assumes "setCircuits n k cv = (cv', effs)" and "1 \<le> k" "k < int (default_to 2 (nd_circuits (c_data n)))" "k \<le> 8"
    and "e \<in> set (cv_edges cv)" "e_source e = c_id n"
    and "e_sourceHandle e = Some (''circuit_'' @ dec (default_to 2 (nd_circuits (c_data n))))"
    and "m \<in> set (cv_nodes cv')" "c_id m = c_id n"
  shows "e \<in> set (cv_edges cv') \<and> the (e_sourceHandle e) \<notin> hd_id ` set (SubConsumerUnitNode (c_data m))"
proof -
  have cv': "cv' = fst (setCircuits n k cv)" using assms(1) by simp
  have "nd_circuits (c_data m) = Some (nat k)"
    using assms(2-4,8,9) by (auto simp: cv' setCircuits_def Let_def)
  moreover have "dec a = dec b \<longleftrightarrow> a = b" for a b by (metis digits_val_dec)
  ultimately have "the (e_sourceHandle e) \<notin> hd_id ` set (SubConsumerUnitNode (c_data m))"
    using assms(2,3,7) by (auto simp: SubConsumerUnitNode_def circuitHandles_def)
  then show ?thesis using assms(5) by (simp add: cv' setCircuits_def Let_def)
qed

section \<open>The keyboard\<close>

text \<open>
  The listener hangs on the window and does not look at the target of the key: a Backspace typed into
  the name field of the edit dialog deletes the node the dialog was opened for, if it is selected,
  as a double click makes it.
\<close>

theorem backspace_in_dialog_deletes_the_node:
  assumes "n \<in> set (cv_nodes cv)" "c_selected n" "c_deletable n \<noteq> Some False"
    and "cv_editNode cv = Some n"
  shows "EditDialog (c_id n) (editSettings n) (hasDevice_of n) \<in> set (overlays cv)
    \<and> c_id n \<notin> c_id ` set (cv_nodes (fst (handleKeyDown ''Backspace'' cv)))
    \<and> Fetch (DeleteNode (c_id n)) \<in> set (snd (handleKeyDown ''Backspace'' cv))
    \<and> cv_editNode (fst (handleKeyDown ''Backspace'' cv)) = Some n"
proof -
  let ?sel = "filter (\<lambda>n. c_selected n \<and> c_deletable n \<noteq> Some False) (cv_nodes cv)"
  have sel: "n \<in> set ?sel" using assms(1-3) by simp
  then have "c_id n \<in> set (add_ids [] (map c_id ?sel))" by auto
  then have nonempty: "add_ids [] (map c_id ?sel) \<noteq> []" by (metis empty_iff empty_set)
  let ?ids = "add_ids (add_ids [] (map c_id ?sel)) (cascade_children (add_ids [] (map c_id ?sel)) (cv_edges cv))"
  have "handleKeyDown ''Backspace'' cv = removeAll_ids ?ids cv" using nonempty by (simp add: handleKeyDown_def Let_def)
  moreover have "c_id n \<in> set ?ids" using sel by auto
  ultimately obtain ids where "handleKeyDown ''Backspace'' cv = removeAll_ids ids cv" and "c_id n \<in> set ids" by blast
  then show ?thesis using assms(4) by (auto simp: removeAll_ids_def overlays_def)
qed

end
