(* ===== verification/ViewSync.thy ===== *)
theory ViewSync
  imports TopologyPage
begin

text \<open>
  What the nodes of the canvas show and what the store says about them: over a whole session of the
  topology page, reloading the page would show the same labels, devices, circuits and kinds of
  nodes as it shows now.
\<close>

section \<open>The edit dialog makes an edit\<close>

lemma dialog_makes_edit:
  assumes "editModal_save i s h m = (m', Some r)"
  shows "\<exists>s'. r = PutSettings i s' \<and> edit_of s s'"
proof -
  have r: "r = PutSettings i (nextSettings s h m)" using assms by (simp add: editModal_save_def split: if_splits)
  have "edit_of s (nextSettings s h m)"
  proof (cases "h \<and> editModal_selected m \<noteq> None")
    case True
    then obtain x where "h" "editModal_selected m = Some x" by auto
    then have "nextSettings s h m = s\<lparr>s_name := Some (or_str (trim (em_name m)) (so_label x)), s_label := Some (so_label x),
        s_nodeId := Some (so_nodeId x), s_endpointId := Some (so_endpointId x)\<rparr>"
      by (simp add: nextSettings_def)
    then show ?thesis unfolding edit_of_def by blast
  next
    case False
    then have "nextSettings s h m = s\<lparr>s_label := Some (trim (em_name m))\<rparr>"
      by (auto simp: nextSettings_def split: bool.split)
    then show ?thesis unfolding edit_of_def by blast
  qed
  with r show ?thesis by blast
qed

section \<open>A node and its stored settings\<close>

text \<open>
  The component a node is drawn with, its label (a device dropped without a label shows an empty one
  until the page is reloaded), its device and circuits, and whether it may be deleted.
\<close>

definition drawn_with :: "string option \<Rightarrow> node_component option" where
  "drawn_with ty = (case ty of None \<Rightarrow> None | Some t \<Rightarrow> map_of nodeTypes t)"

definition is_board :: "node \<Rightarrow> bool" where
  "is_board n \<longleftrightarrow> c_type n = Some ''subConsumerUnit'' \<or> c_type n = Some ''henley''"

text \<open>
  A server that replaces the settings of a node forgets, when the circuit buttons of a board are used,
  all but the label, the kind and the number of circuits; \<open>all_of n\<close> says that the other parts of a
  node are known to be stored.
\<close>

definition all_of :: "bool \<Rightarrow> node \<Rightarrow> bool" where
  "all_of merging n \<longleftrightarrow> merging \<or> \<not> is_board n"

definition shows_stored :: "bool \<Rightarrow> node \<Rightarrow> settings option \<Rightarrow> bool" where
  "shows_stored merging n s \<longleftrightarrow>
     drawn_with (c_type n) = drawn_with (opt_field s_type s)
     \<and> (nd_label (c_data n) = [] \<or> nd_label (c_data n) = shown_label (c_id n) s)
     \<and> nd_circuits (c_data n) = opt_field s_circuits s
     \<and> (all_of merging n \<longrightarrow>
          nd_nodeId (c_data n) = opt_field s_nodeId s \<and> nd_endpointId (c_data n) = opt_field s_endpointId s
          \<and> nd_outputs (c_data n) = opt_field s_outputs s
          \<and> (c_deletable n = Some False \<longleftrightarrow> opt_field s_deletable s = Some False))"

text \<open>The settings the node keeps for the next edit.\<close>

definition keeps_stored :: "bool \<Rightarrow> node \<Rightarrow> settings option \<Rightarrow> bool" where
  "keeps_stored merging n s \<longleftrightarrow>
     (\<exists>st. nd_settings (c_data n) = Some st
        \<and> s_type st = c_type n \<and> (nd_circuits (c_data n) = None \<longrightarrow> s_circuits st = None)
        \<and> (all_of merging n \<longrightarrow>
             s_name st = opt_field s_name s
             \<and> s_nodeId st = opt_field s_nodeId s \<and> s_endpointId st = opt_field s_endpointId s
             \<and> s_outputs st = opt_field s_outputs s \<and> s_deletable st = opt_field s_deletable s))"

definition reloads_alike :: "bool \<Rightarrow> canvas \<Rightarrow> server \<Rightarrow> bool" where
  "reloads_alike merging cv sv \<longleftrightarrow>
     (\<forall>n\<in>set (cv_nodes cv). \<forall>sn\<in>set (sv_nodes sv). c_id n = n_id sn
        \<longrightarrow> shows_stored merging n (n_settings sn) \<and> keeps_stored merging n (n_settings sn))"

text \<open>What a server makes of the settings it has and those it is sent.\<close>

definition stored_as :: "bool \<Rightarrow> settings option \<Rightarrow> settings \<Rightarrow> settings" where
  "stored_as merging old s = (if merging then settings_merge (default_to no_settings old) s else s)"

text \<open>Only these parts of a node and of a stored node matter.\<close>

definition node_view :: "node \<Rightarrow> string \<times> string option \<times> bool \<times> string \<times> (nat option \<times> nat option \<times> nat option \<times> nat option) \<times> settings option" where
  "node_view n = (c_id n, c_type n, c_deletable n = Some False, nd_label (c_data n),
     (nd_nodeId (c_data n), nd_endpointId (c_data n), nd_circuits (c_data n), nd_outputs (c_data n)), nd_settings (c_data n))"

definition stored_view :: "saved_node \<Rightarrow> string \<times> settings option" where
  "stored_view sn = (n_id sn, n_settings sn)"

lemma view_alike:
  assumes "node_view n = node_view m"
  shows "shows_stored merging n s \<longleftrightarrow> shows_stored merging m s" and "keeps_stored merging n s \<longleftrightarrow> keeps_stored merging m s"
  using assms by (auto simp: node_view_def shows_stored_def keeps_stored_def all_of_def is_board_def)

lemma reloads_alike_frame:
  assumes "reloads_alike merging cv sv"
    and "node_view ` set (cv_nodes cv') \<subseteq> node_view ` set (cv_nodes cv)"
    and "stored_view ` set (sv_nodes sv') \<subseteq> stored_view ` set (sv_nodes sv)"
  shows "reloads_alike merging cv' sv'"
  unfolding reloads_alike_def
proof (intro ballI impI)
  fix n sn assume n: "n \<in> set (cv_nodes cv')" and sn: "sn \<in> set (sv_nodes sv')" and id: "c_id n = n_id sn"
  from n assms(2) obtain m where m: "m \<in> set (cv_nodes cv)" "node_view n = node_view m" by blast
  from sn assms(3) obtain tn where tn: "tn \<in> set (sv_nodes sv)" "stored_view sn = stored_view tn" by blast
  have "c_id m = n_id tn" using m(2) tn(2) id by (simp add: node_view_def stored_view_def)
  with assms(1) m(1) tn(1) have "shows_stored merging m (n_settings tn) \<and> keeps_stored merging m (n_settings tn)"
    by (simp add: reloads_alike_def)
  with view_alike [OF m(2)] tn(2) show "shows_stored merging n (n_settings sn) \<and> keeps_stored merging n (n_settings sn)"
    by (simp add: stored_view_def)
qed

section \<open>Requests\<close>

text \<open>Requests that change no settings.\<close>

fun quiet :: "request \<Rightarrow> bool" where
  "quiet (DeleteNode i) \<longleftrightarrow> True"
| "quiet (DeleteEdge i) \<longleftrightarrow> True"
| "quiet (PostEdge e) \<longleftrightarrow> True"
| "quiet _ \<longleftrightarrow> False"

lemma quiet_serve: "quiet r \<Longrightarrow> stored_view ` set (sv_nodes (serve_as merging r sv)) \<subseteq> stored_view ` set (sv_nodes sv)"
  by (cases r) (auto simp: serve_def deleteNode_def deleteEdge_def)

lemma quiet_serveAs:
  "\<forall>r\<in>set rs. quiet r \<Longrightarrow> stored_view ` set (sv_nodes (serveAs merging rs sv)) \<subseteq> stored_view ` set (sv_nodes sv)"
  unfolding serveAs_def
proof (induction rs arbitrary: sv)
  case (Cons r rs)
  then show ?case using quiet_serve [of r merging sv] by (simp, blast)
qed simp

lemma reloads_alike_quiet:
  assumes "reloads_alike merging cv sv" and "node_view ` set (cv_nodes cv') \<subseteq> node_view ` set (cv_nodes cv)"
    and "\<forall>r\<in>set (requests effs). quiet r"
  shows "reloads_alike merging cv' (serveAs merging (requests effs) sv)"
  using reloads_alike_frame [OF assms(1,2)] quiet_serveAs [OF assms(3)] by blast

lemma set_update_first:
  "distinct (map n_id ns) \<Longrightarrow>
     set (update_first (\<lambda>n. n_id n = i) f ns) = (\<lambda>n. if n_id n = i then f n else n) ` set ns"
proof (induction ns)
  case (Cons n ns)
  show ?case
  proof (cases "n_id n = i")
    case True
    then have "(\<lambda>n. if n_id n = i then f n else n) ` set ns = id ` set ns"
      using Cons.prems by (intro image_cong) (auto, metis image_eqI)
    with True show ?thesis by simp
  next
    case False
    with Cons show ?thesis by simp
  qed
qed simp

lemma put_settings_stored:
  assumes "distinct (map n_id (sv_nodes sv))" and "i \<in> n_id ` set (sv_nodes sv)"
    and "sn \<in> set (sv_nodes (serve_as merging (PutSettings i s) sv))"
  shows "\<exists>tn\<in>set (sv_nodes sv). n_id sn = n_id tn \<and> n_settings sn =
     (if n_id tn = i then Some (stored_as merging (n_settings tn) s) else n_settings tn)"
proof -
  have "has_node i (sv_nodes sv)" using assms(2) by (auto simp: has_node_def)
  then have "sv_nodes (serve_as merging (PutSettings i s) sv) = update_first (\<lambda>n. n_id n = i)
       (\<lambda>n. n\<lparr>n_settings := Some (stored_as merging (n_settings n) s)\<rparr>) (sv_nodes sv)"
    by (simp add: serve_as_def serve_def putSettings_def stored_as_def)
  with assms(3) have "sn \<in> (\<lambda>n. if n_id n = i
      then n\<lparr>n_settings := Some (stored_as merging (n_settings n) s)\<rparr> else n) ` set (sv_nodes sv)"
    by (simp only: set_update_first [OF assms(1)])
  then obtain tn where "tn \<in> set (sv_nodes sv)" and "sn = (if n_id tn = i
      then tn\<lparr>n_settings := Some (stored_as merging (n_settings tn) s)\<rparr> else tn)"
    by blast
  then show ?thesis by (intro bexI [of _ tn]) auto
qed

section \<open>Saving an edit\<close>

lemma or_else_same [simp]: "or_else x x = x"
  by (simp add: or_else_def split: option.split)

lemma edit_alike:
  assumes "shows_stored merging n s" and "keeps_stored merging n s" and "edit_of (editSettings n) s'"
  shows "shows_stored merging (editedNode s' n) (Some (stored_as merging s s'))
    \<and> keeps_stored merging (editedNode s' n) (Some (stored_as merging s s'))"
proof -
  define t where "t = default_to no_settings s"
  have f: "opt_field g s = g t" if "g no_settings = None" for g :: "settings \<Rightarrow> 'a option"
    using that by (cases s) (simp_all add: t_def)
  have fields: "opt_field s_type s = s_type t" "opt_field s_name s = s_name t" "opt_field s_nodeId s = s_nodeId t"
    "opt_field s_endpointId s = s_endpointId t" "opt_field s_circuits s = s_circuits t"
    "opt_field s_outputs s = s_outputs t" "opt_field s_deletable s = s_deletable t"
    using f [of s_type] f [of s_name] f [of s_nodeId] f [of s_endpointId] f [of s_circuits] f [of s_outputs]
      f [of s_deletable] by (simp_all add: no_settings_def)
  define st where "st = the (nd_settings (c_data n))"
  have st: "nd_settings (c_data n) = Some st" "s_type st = c_type n" "nd_circuits (c_data n) = None \<longrightarrow> s_circuits st = None"
    and st': "all_of merging n \<Longrightarrow> s_name st = s_name t \<and> s_nodeId st = s_nodeId t \<and> s_endpointId st = s_endpointId t
      \<and> s_outputs st = s_outputs t \<and> s_deletable st = s_deletable t"
    using assms(2) by (auto simp: keeps_stored_def fields st_def)
  have shows_n: "drawn_with (c_type n) = drawn_with (s_type t)" "nd_circuits (c_data n) = s_circuits t"
    and shows_n': "all_of merging n \<Longrightarrow> nd_outputs (c_data n) = s_outputs t
      \<and> (c_deletable n = Some False \<longleftrightarrow> s_deletable t = Some False)"
    using assms(1) by (simp_all add: shows_stored_def fields)
  have e: "s_type (editSettings n) = c_type n" "s_name (editSettings n) = s_name st" "s_nodeId (editSettings n) = s_nodeId st"
    "s_endpointId (editSettings n) = s_endpointId st" "s_outputs (editSettings n) = s_outputs st"
    "s_deletable (editSettings n) = s_deletable st" "s_circuits (editSettings n) = nd_circuits (c_data n)"
    using st(3) by (simp_all add: editSettings_def Let_def st(1,2) split: option.split)
  have s': "s_type s' = c_type n" "s_outputs s' = s_outputs st" "s_deletable s' = s_deletable st"
    "s_circuits s' = nd_circuits (c_data n)" "s_label s' \<noteq> None"
    using assms(3) e unfolding edit_of_def by auto
  have kept: "all_of merging n \<Longrightarrow> or_else (s_name s') (s_name t) = s_name s' \<and> or_else (s_nodeId s') (s_nodeId t) = s_nodeId s'
      \<and> or_else (s_endpointId s') (s_endpointId t) = s_endpointId s'"
    using assms(3) e st' unfolding edit_of_def by (auto simp: or_else_def split: option.splits)
  have ty: "drawn_with (or_else (c_type n) (s_type t)) = drawn_with (c_type n)"
    using shows_n(1) by (cases "c_type n") simp_all
  have data: "c_type (editedNode s' n) = c_type n" "c_id (editedNode s' n) = c_id n" "c_deletable (editedNode s' n) = c_deletable n"
    "nd_label (c_data (editedNode s' n)) = shown_label (c_id n) (Some s')" "nd_nodeId (c_data (editedNode s' n)) = s_nodeId s'"
    "nd_endpointId (c_data (editedNode s' n)) = s_endpointId s'" "nd_circuits (c_data (editedNode s' n)) = nd_circuits (c_data n)"
    "nd_outputs (c_data (editedNode s' n)) = nd_outputs (c_data n)" "nd_settings (c_data (editedNode s' n)) = Some s'"
    "all_of merging (editedNode s' n) = all_of merging n"
    by (simp_all add: editedNode_def Let_def all_of_def is_board_def)
  show ?thesis
  proof (cases merging)
    case True
    then have all: "all_of merging n" by (simp add: all_of_def)
    have label: "shown_label (c_id n) (Some (settings_merge t s')) = shown_label (c_id n) (Some s')"
      using s'(5) kept [OF all] by (auto simp: shown_label_def settings_merge_def)
    show ?thesis
      unfolding stored_as_def t_def [symmetric] shows_stored_def keeps_stored_def data
      using s' shows_n shows_n' [OF all] kept [OF all] st' [OF all] True label by (simp add: settings_merge_def ty)
  next
    case False
    then show ?thesis
      unfolding stored_as_def shows_stored_def keeps_stored_def data
      using s' shows_n' st' by auto
  qed
qed

lemma reloads_alike_put_settings:
  assumes "reloads_alike merging cv sv" and "distinct (map n_id (sv_nodes sv))" and "i \<in> n_id ` set (sv_nodes sv)"
    and other: "\<And>n'. n' \<in> set (cv_nodes cv') \<Longrightarrow> c_id n' \<noteq> i \<Longrightarrow> n' \<in> set (cv_nodes cv)"
    and same: "\<And>n' s. n' \<in> set (cv_nodes cv') \<Longrightarrow> c_id n' = i
      \<Longrightarrow> (\<And>n. n \<in> set (cv_nodes cv) \<Longrightarrow> c_id n = i \<Longrightarrow> shows_stored merging n s \<and> keeps_stored merging n s)
      \<Longrightarrow> shows_stored merging n' (Some (stored_as merging s s'))
        \<and> keeps_stored merging n' (Some (stored_as merging s s'))"
  shows "reloads_alike merging cv' (serve_as merging (PutSettings i s') sv)"
  unfolding reloads_alike_def
proof (intro ballI impI)
  fix n' sn assume n': "n' \<in> set (cv_nodes cv')" and sn: "sn \<in> set (sv_nodes (serve_as merging (PutSettings i s') sv))"
    and id: "c_id n' = n_id sn"
  from put_settings_stored [OF assms(2,3) sn] obtain tn where tn: "tn \<in> set (sv_nodes sv)" "n_id sn = n_id tn"
    "n_settings sn = (if n_id tn = i then Some (stored_as merging (n_settings tn) s') else n_settings tn)"
    by blast
  show "shows_stored merging n' (n_settings sn) \<and> keeps_stored merging n' (n_settings sn)"
  proof (cases "c_id n' = i")
    case True
    have "shows_stored merging n (n_settings tn) \<and> keeps_stored merging n (n_settings tn)" if "n \<in> set (cv_nodes cv)" "c_id n = i" for n
      using assms(1) that tn(1,2) True id by (simp add: reloads_alike_def)
    from same [OF n' True this] show ?thesis using tn True id by simp
  next
    case False
    then show ?thesis using assms(1) other [OF n'] tn id by (simp add: reloads_alike_def)
  qed
qed

text \<open>The circuit buttons: the stored kind becomes that of a sub consumer unit, which is drawn alike.\<close>

lemma circuits_alike:
  assumes "shows_stored merging n s" and "keeps_stored merging n s" and "c_type n \<in> {Some ''subConsumerUnit'', Some ''henley''}"
    and s': "s' = no_settings\<lparr>s_label := Some (nd_label (c_data n)), s_type := Some ''subConsumerUnit'', s_circuits := Some k\<rparr>"
  shows "shows_stored merging (n\<lparr>c_data := (c_data n)\<lparr>nd_circuits := Some k\<rparr>\<rparr>) (Some (stored_as merging s s'))
    \<and> keeps_stored merging (n\<lparr>c_data := (c_data n)\<lparr>nd_circuits := Some k\<rparr>\<rparr>) (Some (stored_as merging s s'))"
proof -
  let ?t = "stored_as merging s s'" and ?n = "n\<lparr>c_data := (c_data n)\<lparr>nd_circuits := Some k\<rparr>\<rparr>"
  have ty: "drawn_with (c_type n) = drawn_with (s_type ?t)" "s_circuits ?t = Some k"
    using assms(3) by (auto simp: drawn_with_def nodeTypes_def s' stored_as_def settings_merge_def)
  have kept: "merging \<Longrightarrow> s_name ?t = opt_field s_name s \<and> s_nodeId ?t = opt_field s_nodeId s
      \<and> s_endpointId ?t = opt_field s_endpointId s \<and> s_outputs ?t = opt_field s_outputs s \<and> s_deletable ?t = opt_field s_deletable s"
    and name: "\<not> merging \<Longrightarrow> s_name ?t = None"
    by (cases s; simp add: s' stored_as_def settings_merge_def no_settings_def)+
  have "s_label ?t = Some (nd_label (c_data n))" by (simp add: s' stored_as_def settings_merge_def)
  moreover have "nd_label (c_data n) = [] \<or> nd_label (c_data n) = shown_label (c_id n) s"
    using assms(1) by (simp add: shows_stored_def)
  ultimately have label: "nd_label (c_data n) = [] \<or> nd_label (c_data n) = shown_label (c_id n) (Some ?t)"
    using kept name by (cases merging) (auto simp: shown_label_def or_opt_def or_str_def split: option.splits if_splits)
  have "all_of merging ?n \<longleftrightarrow> merging" "all_of merging n \<longleftrightarrow> merging"
    using assms(3) by (auto simp: all_of_def is_board_def)
  then show ?thesis
    using assms(1,2) ty kept label by (auto simp: shows_stored_def keeps_stored_def)
qed

section \<open>Opening the page\<close>

lemma stored_default: "opt_field g s = g (default_to no_settings s)" if "g no_settings = None"
  using that by (cases s) simp_all

lemma restored_alike:
  "shows_stored merging (restoredNode SB sn) (n_settings sn) \<and> keeps_stored merging (restoredNode SB sn) (n_settings sn)"
proof -
  have fields: "s_type no_settings = None" "s_name no_settings = None" "s_nodeId no_settings = None"
    "s_endpointId no_settings = None" "s_outputs no_settings = None" "s_deletable no_settings = None" "s_circuits no_settings = None"
    by (simp_all add: no_settings_def)
  show ?thesis
    by (simp add: restoredNode_def Let_def shows_stored_def keeps_stored_def fields stored_default)
qed

lemma unallocated_alike:
  "shows_stored merging (unallocatedNode pos) (Some unallocatedSettings) \<and> keeps_stored merging (unallocatedNode pos) (Some unallocatedSettings)"
  by (simp add: unallocatedNode_def new_node_def plain_data_def unallocatedSettings_def shows_stored_def keeps_stored_def
      shown_label_def no_settings_def)

lemma opened_alike:
  assumes "distinct (map n_id (sv_nodes sv))" and "onInit ps (Some (map_prod id Some (getNodes sv))) cv0 = (cv, effs)"
  shows "reloads_alike merging cv (serveAs merging (requests effs) sv)"
proof -
  let ?SB = "standbyMap (default_to [] ps)"
  let ?served = "map (\<lambda>n. n\<lparr>n_values := served_values n\<rparr>) (sv_nodes sv)"
  have cv: "cv_nodes cv = fst (restoredNodes ?SB ?served)" and effs: "effs = snd (restoredNodes ?SB ?served)"
    using onInit_Some(1,5) [of ps ?served "Some (sv_edges sv)" cv0] assms(2) by (simp_all add: getNodes_def)
  have rid: "c_id (restoredNode ?SB n) = n_id n" for n by (simp add: restoredNode_def Let_def)
  have old: "shows_stored merging n (n_settings sn) \<and> keeps_stored merging n (n_settings sn)"
    if "n \<in> restoredNode ?SB ` set ?served" "sn \<in> set (sv_nodes sv)" "c_id n = n_id sn" for n sn
  proof -
    from that(1) obtain tn where tn: "tn \<in> set (sv_nodes sv)" "n = restoredNode ?SB (tn\<lparr>n_values := served_values tn\<rparr>)" by auto
    then have "n_id tn = n_id sn" using that(3) rid by simp
    then have "tn = sn" using distinct_keyD [OF assms(1) tn(1) that(2)] by simp
    then show ?thesis using restored_alike [of merging ?SB "tn\<lparr>n_values := served_values tn\<rparr>"] tn(2) by simp
  qed
  show ?thesis
  proof (cases "UNALLOCATED_ID \<in> n_id ` set (sv_nodes sv)")
    case True
    then have "\<exists>n\<in>set (map (restoredNode ?SB) ?served). c_id n = UNALLOCATED_ID" using rid by (auto, metis)
    then have "restoredNodes ?SB ?served = (map (restoredNode ?SB) ?served, [])" by (simp add: restoredNodes_def Let_def)
    with old show ?thesis unfolding reloads_alike_def cv effs by (simp add: serveAs_def)
  next
    case False
    let ?pos = "unallocatedPos ?served"
    have "\<forall>n\<in>set (sv_nodes sv). n_id n \<noteq> UNALLOCATED_ID" using False by (metis image_eqI)
    then have "\<not> (\<exists>n\<in>set (map (restoredNode ?SB) ?served). c_id n = UNALLOCATED_ID)" by (simp add: rid)
    then have rn: "restoredNodes ?SB ?served = (map (restoredNode ?SB) ?served @ [unallocatedNode ?pos],
        [Fetch (PutNode UNALLOCATED_ID (fst ?pos) (snd ?pos) (Some unallocatedSettings))])"
      by (simp add: restoredNodes_def Let_def)
    have "\<not> has_node UNALLOCATED_ID (sv_nodes sv)" using False unfolding has_node_def by (metis image_eqI)
    then have sv': "sv_nodes (serveAs merging (requests effs) sv)
        = sv_nodes sv @ [config UNALLOCATED_ID (fst ?pos) (snd ?pos) unallocatedSettings]"
      by (simp add: effs rn serveAs_def serve_def putNode_def)
    have uid: "c_id (unallocatedNode ?pos) = UNALLOCATED_ID" by (simp add: unallocatedNode_def new_node_def)
    show ?thesis
      unfolding reloads_alike_def
    proof (intro ballI impI)
      fix n sn
      assume n: "n \<in> set (cv_nodes cv)" and sn: "sn \<in> set (sv_nodes (serveAs merging (requests effs) sv))" and id: "c_id n = n_id sn"
      have n': "n = unallocatedNode ?pos \<or> n \<in> restoredNode ?SB ` set ?served" using n by (auto simp: cv rn)
      have sn': "sn = config UNALLOCATED_ID (fst ?pos) (snd ?pos) unallocatedSettings \<or> sn \<in> set (sv_nodes sv)"
        using sn by (auto simp: sv')
      have "n_id sn \<noteq> UNALLOCATED_ID" if "sn \<in> set (sv_nodes sv)" using False that by force
      moreover have "c_id n \<noteq> UNALLOCATED_ID" if "n \<in> restoredNode ?SB ` set ?served" using False that rid by force
      ultimately consider "n = unallocatedNode ?pos" "sn = config UNALLOCATED_ID (fst ?pos) (snd ?pos) unallocatedSettings"
        | "n \<in> restoredNode ?SB ` set ?served" "sn \<in> set (sv_nodes sv)"
        using n' sn' id uid by (auto simp: config_def)
      then show "shows_stored merging n (n_settings sn) \<and> keeps_stored merging n (n_settings sn)"
      proof cases
        case 1
        then show ?thesis using unallocated_alike by (simp add: config_def)
      next
        case 2
        then show ?thesis using old id by blast
      qed
    qed
  qed
qed

section \<open>Adding nodes\<close>

lemma insert_alike:
  assumes "reloads_alike merging cv sv" and "node_ids cv \<subseteq> server_nodes sv" and "node_name (Suc (cv_nodeIdCounter cv)) \<notin> server_nodes sv"
    and new: "l = [] \<or> l = shown_label (node_name (Suc (cv_nodeIdCounter cv))) (Some s)"
      "s_type s = Some ty" "s_outputs s = None" "s_deletable s = None"
    and cv': "cv_nodes cv' = cv_nodes (fst (insertNode ty pos l s cv))"
  shows "reloads_alike merging cv' (serveAs merging (requests (snd (insertNode ty pos l s cv))) sv)"
proof -
  let ?i = "node_name (Suc (cv_nodeIdCounter cv))"
  let ?n = "new_node ?i ty pos (plain_data l s)"
  have fresh: "\<forall>sn\<in>set (sv_nodes sv). n_id sn \<noteq> ?i" "\<forall>n\<in>set (cv_nodes cv). c_id n \<noteq> ?i"
    using assms(2,3) unfolding node_ids_def server_nodes_def by (metis image_eqI subsetD)+
  then have "\<not> has_node ?i (sv_nodes sv)" by (simp add: has_node_def)
  then have sv': "sv_nodes (serveAs merging (requests (snd (insertNode ty pos l s cv))) sv)
      = sv_nodes sv @ [config ?i (fst pos) (snd pos) s]"
    by (simp add: insertNode_def Let_def serveAs_def serve_def putNode_def)
  have nodes: "cv_nodes cv' = cv_nodes cv @ [?n]" by (simp add: cv' insertNode_def Let_def)
  have "shows_stored merging ?n (Some s) \<and> keeps_stored merging ?n (Some s)"
    using new by (auto simp: shows_stored_def keeps_stored_def new_node_def plain_data_def)
  moreover have "c_id ?n = ?i" "n_id (config ?i (fst pos) (snd pos) s) = ?i"
    "n_settings (config ?i (fst pos) (snd pos) s) = Some s" by (simp_all add: new_node_def config_def)
  ultimately show ?thesis
    using assms(1) fresh unfolding reloads_alike_def sv' nodes by auto
qed

section \<open>Every step\<close>

lemma remove_alike:
  assumes "reloads_alike merging cv sv" and "cv_nodes cv' = cv_nodes (fst (removeAll_ids ids cv))"
  shows "reloads_alike merging cv' (serveAs merging (requests (snd (removeAll_ids ids cv))) sv)"
  using assms(1)
proof (rule reloads_alike_quiet)
  show "node_view ` set (cv_nodes cv') \<subseteq> node_view ` set (cv_nodes cv)" by (auto simp: assms(2))
  show "\<forall>r\<in>set (requests (snd (removeAll_ids ids cv))). quiet r" by (auto simp: removeAll_ids_def)
qed

lemma ws_views: "node_view ` set (cv_nodes (fst (handleWsMessage m cv))) = node_view ` set (cv_nodes cv)"
proof -
  have "node_view (updateBy es SB n) = node_view n" for es SB n
    by (simp add: updateNode_def Let_def node_view_def)
  then show ?thesis
    by (auto simp: handleWsMessage_def applyEntries_nodes image_image addToast_def Let_def split: ws_data.split)
qed

lemma placed_views: "placed_as ns ms \<Longrightarrow> node_view ` set ns = node_view ` set ms"
proof -
  assume "placed_as ns ms"
  then have "map node_view ns = map node_view ms" by (rule placed_map) (simp add: node_view_def)
  then show ?thesis by (metis list.set_map)
qed

lemma moved_alike:
  assumes "reloads_alike merging cv sv" and "distinct (map n_id (sv_nodes sv))" and "i \<in> server_nodes sv"
  shows "reloads_alike merging cv (serve_as merging (PutNode i x y None) sv)"
proof (rule reloads_alike_frame [OF assms(1)])
  have "has_node i (sv_nodes sv)" using assms(3) by (auto simp: has_node_def server_nodes_def)
  then have "set (sv_nodes (serve_as merging (PutNode i x y None) sv))
      = (\<lambda>n. if n_id n = i then n\<lparr>n_x := x, n_y := y\<rparr> else n) ` set (sv_nodes sv)"
    by (simp add: serve_def putNode_def set_update_first [OF assms(2)])
  then show "stored_view ` set (sv_nodes (serve_as merging (PutNode i x y None) sv)) \<subseteq> stored_view ` set (sv_nodes sv)"
    by (auto simp: stored_view_def image_image image_iff)
qed simp

lemma edited_alike:
  assumes "reloads_alike merging cv sv" and "distinct (map c_id (cv_nodes cv))" "distinct (map n_id (sv_nodes sv))"
    and "node_ids cv \<subseteq> server_nodes sv" and n: "n \<in> set (cv_nodes cv)" "edit_of (editSettings n) s"
  shows "reloads_alike merging (handleNodeEdited (c_id n) s cv) (serve_as merging (PutSettings (c_id n) s) sv)"
proof (rule reloads_alike_put_settings [OF assms(1,3)])
  show "c_id n \<in> n_id ` set (sv_nodes sv)" using assms(4) n(1) by (auto simp: node_ids_def server_nodes_def)
next
  fix n' assume n': "n' \<in> set (cv_nodes (handleNodeEdited (c_id n) s cv))"
  have ed: "c_id (editedNode s x) = c_id x" for x by (simp add: editedNode_def Let_def)
  from n' obtain x where x: "x \<in> set (cv_nodes cv)" "n' = (if c_id x \<noteq> c_id n then x else editedNode s x)"
    by (auto simp: handleNodeEdited_def)
  { assume "c_id n' \<noteq> c_id n"
    then show "n' \<in> set (cv_nodes cv)" using x ed by (simp split: if_splits)
  next
    fix st assume "c_id n' = c_id n"
      and known: "\<And>m. m \<in> set (cv_nodes cv) \<Longrightarrow> c_id m = c_id n \<Longrightarrow> shows_stored merging m st \<and> keeps_stored merging m st"
    then have "c_id x = c_id n" using x ed by (simp split: if_splits)
    then have "x = n" using distinct_keyD [OF assms(2) x(1) n(1)] by simp
    then show "shows_stored merging n' (Some (stored_as merging st s))
        \<and> keeps_stored merging n' (Some (stored_as merging st s))"
      using edit_alike [of merging n st s] known [OF n(1)] n(2) x(2) by simp }
qed

lemma setCircuits_alike:
  assumes "reloads_alike merging cv sv" and "distinct (map c_id (cv_nodes cv))" "distinct (map n_id (sv_nodes sv))"
    and "node_ids cv \<subseteq> server_nodes sv" and n: "n \<in> set (cv_nodes cv)" "c_type n \<in> {Some ''subConsumerUnit'', Some ''henley''}"
  shows "reloads_alike merging (fst (setCircuits n k cv)) (serveAs merging (requests (snd (setCircuits n k cv))) sv)"
proof (cases "max 1 (min 8 k) = int (default_to 2 (nd_circuits (c_data n)))")
  case True
  then show ?thesis using assms(1) by (simp add: setCircuits_def serveAs_def)
next
  case False
  let ?k = "nat (max 1 (min 8 k))"
  let ?s = "no_settings\<lparr>s_label := Some (nd_label (c_data n)), s_type := Some ''subConsumerUnit'', s_circuits := Some ?k\<rparr>"
  let ?f = "\<lambda>x. x\<lparr>c_data := (c_data x)\<lparr>nd_circuits := Some ?k\<rparr>\<rparr>"
  have sc: "cv_nodes (fst (setCircuits n k cv)) = map (\<lambda>m. if c_id m \<noteq> c_id n then m else ?f m) (cv_nodes cv)"
    "requests (snd (setCircuits n k cv)) = [PutSettings (c_id n) ?s]"
    using False by (simp_all add: setCircuits_def Let_def)
  have "reloads_alike merging (fst (setCircuits n k cv)) (serve_as merging (PutSettings (c_id n) ?s) sv)"
  proof (rule reloads_alike_put_settings [OF assms(1,3)])
    show "c_id n \<in> n_id ` set (sv_nodes sv)" using assms(4) n(1) by (auto simp: node_ids_def server_nodes_def)
  next
    fix n' assume "n' \<in> set (cv_nodes (fst (setCircuits n k cv)))"
    then obtain x where x: "x \<in> set (cv_nodes cv)" "n' = (if c_id x \<noteq> c_id n then x else ?f x)"
      unfolding sc by auto
    { assume "c_id n' \<noteq> c_id n"
      then show "n' \<in> set (cv_nodes cv)" using x by (simp split: if_splits)
    next
      fix st assume "c_id n' = c_id n"
        and known: "\<And>m. m \<in> set (cv_nodes cv) \<Longrightarrow> c_id m = c_id n \<Longrightarrow> shows_stored merging m st \<and> keeps_stored merging m st"
      then have "c_id x = c_id n" using x by (simp split: if_splits)
      then have "x = n" using distinct_keyD [OF assms(2) x(1) n(1)] by simp
      then show "shows_stored merging n' (Some (stored_as merging st ?s))
          \<and> keeps_stored merging n' (Some (stored_as merging st ?s))"
        using circuits_alike [of merging n st ?s ?k] known [OF n(1)] n(2) x(2) by simp }
  qed
  then show ?thesis by (simp add: sc serveAs_def)
qed

lemma step_alike:
  assumes "canvas_step addEdge base cv (cv', effs)" and "names_known cv effs"
    and inv: "session_inv cv sv lost" and "reloads_alike merging cv sv"
  shows "reloads_alike merging cv' (serveAs merging (requests effs) sv)"
proof -
  have dist: "distinct (map c_id (cv_nodes cv))" "distinct (map n_id (sv_nodes sv))" and ids: "node_ids cv \<subseteq> server_nodes sv"
    using inv by (auto simp: session_inv_def canvas_ok_def store_ok_def agrees_but_def)
  have fresh: "node_name (Suc (cv_nodeIdCounter cv)) \<notin> server_nodes sv" using inv by (rule session_fresh)
  have quiet_step: "reloads_alike merging cv' (serveAs merging (requests effs) sv)"
    if "node_view ` set (cv_nodes cv') \<subseteq> node_view ` set (cv_nodes cv)" "\<forall>r\<in>set (requests effs). quiet r"
    using reloads_alike_quiet [OF assms(4) that] .
  have insert: "reloads_alike merging cv' (serveAs merging (requests effs) sv)"
    if "effs = snd (insertNode ty pos l s cvx)" "cv_nodes cv' = cv_nodes (fst (insertNode ty pos l s cvx))"
      "cv_nodes cvx = cv_nodes cv" "cv_nodeIdCounter cvx = cv_nodeIdCounter cv"
      "l = [] \<or> l = shown_label (node_name (Suc (cv_nodeIdCounter cv))) (Some s)"
      "s_type s = Some ty" "s_outputs s = None" "s_deletable s = None" for ty pos l s cvx
  proof -
    have "reloads_alike merging cvx sv" using assms(4) that(3) by (simp add: reloads_alike_def)
    moreover have "node_ids cvx \<subseteq> server_nodes sv" "node_name (Suc (cv_nodeIdCounter cvx)) \<notin> server_nodes sv"
      using ids fresh that(3,4) by (simp_all add: node_ids_def)
    ultimately show ?thesis unfolding that(1) using that by (intro insert_alike) simp_all
  qed
  from assms(1) show ?thesis
  proof (cases rule: canvas_step.cases)
    case (ws m)
    then have "node_view ` set (cv_nodes cv') = node_view ` set (cv_nodes cv)" "requests effs = []"
      using ws_views [of m cv] mock.ws_same_shape [of cv m] by (metis fst_conv, metis snd_conv)
    then show ?thesis by (intro quiet_step) simp_all
  next
    case (key k)
    show ?thesis
    proof (cases "(cv', effs) = (cv, [])")
      case False
      with key obtain gone where "(cv', effs) = removeAll_ids gone cv"
        by (auto simp: handleKeyDown_def Let_def split: if_splits)
      then show ?thesis using remove_alike [OF assms(4), of cv' gone] by (metis fst_conv snd_conv)
    qed (use assms(4) in \<open>simp add: serveAs_def\<close>)
  next
    case (drop r raw pos)
    show ?thesis
    proof (cases "raw = None \<or> \<not> r")
      case True
      with drop assms(4) show ?thesis by (auto simp: onDrop_def serveAs_def split: option.splits)
    next
      case False
      then obtain dev where dev: "raw = Some dev" "r" by auto
      let ?s = "no_settings\<lparr>s_label := Some (ds_label dev), s_type := Some ''device'',
             s_nodeId := Some (ds_nodeId dev), s_endpointId := Some (ds_endpointId dev)\<rparr>"
      have "effs = snd (insertNode ''device'' pos (ds_label dev) ?s cv)"
        "cv_nodes cv' = cv_nodes (fst (insertNode ''device'' pos (ds_label dev) ?s cv))"
        using drop dev by (simp_all add: onDrop_def insertNode_def Let_def)
      then show ?thesis by (rule insert) (simp_all add: no_settings_def shown_label_def or_opt_def or_str_def)
    qed
  next
    case (add_board pos)
    let ?s = "no_settings\<lparr>s_label := Some ''Sub Consumer Unit'', s_type := Some ''subConsumerUnit'', s_circuits := Some 4\<rparr>"
    have "effs = snd (insertNode ''subConsumerUnit'' pos ''Sub Consumer Unit'' ?s cv)"
      "cv_nodes cv' = cv_nodes (fst (insertNode ''subConsumerUnit'' pos ''Sub Consumer Unit'' ?s cv))"
      using add_board by (auto simp: addSubConsumerUnit_def Let_def case_prod_beta)
    then show ?thesis by (rule insert) (simp_all add: no_settings_def shown_label_def)
  next
    case (add_load toFlow dev)
    show ?thesis
    proof (cases "cv_pendingLoadPos cv")
      case None
      with add_load assms(4) show ?thesis by (simp add: handleAddLoad_def Let_def serveAs_def reloads_alike_def)
    next
      case (Some pos)
      let ?s = "no_settings\<lparr>s_label := Some (al_label dev), s_name := Some (al_name dev),
                s_type := Some ''device'', s_nodeId := Some (al_nodeId dev), s_endpointId := Some (al_endpointId dev)\<rparr>"
      let ?cv = "cv\<lparr>cv_pendingLoadPos := None\<rparr>"
      have "effs = snd (insertNode ''device'' (toFlow pos) (or_str (al_name dev) (al_label dev)) ?s ?cv)"
        "cv_nodes cv' = cv_nodes (fst (insertNode ''device'' (toFlow pos) (or_str (al_name dev) (al_label dev)) ?s ?cv))"
        using add_load Some by (simp_all add: handleAddLoad_def insertNode_def Let_def)
      then show ?thesis by (rule insert) (simp_all add: no_settings_def shown_label_def or_opt_def or_str_def)
    qed
  next
    case (delete_board i)
    then have "cv_nodes cv' = cv_nodes (fst (deleteSubConsumerUnit i cv))" "effs = snd (deleteSubConsumerUnit i cv)"
      by (metis fst_conv, metis snd_conv)
    then show ?thesis unfolding deleteSubConsumerUnit_removeAll by (auto intro: remove_alike [OF assms(4)])
  next
    case (delete_load i)
    then have "cv_nodes cv' = cv_nodes (fst (deleteLoad i cv))" "effs = snd (deleteLoad i cv)"
      by (metis fst_conv, metis snd_conv)
    then show ?thesis unfolding deleteLoad_removeAll by (auto intro: remove_alike [OF assms(4)])
  next
    case (edited d n s)
    have "edit_of (editSettings n) s" using edited by metis
    from edited_alike [OF assms(4) dist ids edited(4) this]
    have "reloads_alike merging (handleNodeEdited (c_id d) s cv) (serve_as merging (PutSettings (c_id d) s) sv)" unfolding edited(5) .
    with edited(1,2) show ?thesis by (simp add: serveAs_def)
  next
    case (circuits n k)
    from setCircuits_alike [OF assms(4) dist ids circuits(2,3)] circuits(1) show ?thesis by (metis fst_conv snd_conv)
  next
    case (drag_stop n)
    then have "c_id n \<in> server_nodes sv" using assms(2) ids by (auto simp: names_known_def onNodeDragStop_def)
    from moved_alike [OF assms(4) dist(2) this] drag_stop show ?thesis by (simp add: onNodeDragStop_def serveAs_def)
  next
    case (nodes_change ns)
    then show ?thesis using placed_views [of ns "cv_nodes cv"] by (intro quiet_step) simp_all
  next
    case (overlay f)
    then show ?thesis using overlay_frame [of f cv] by (intro quiet_step) simp_all
  next
    case (edge_changes cs)
    have "\<forall>r\<in>set (requests (snd (onEdgesChange base cs cv))). quiet r"
      unfolding onEdgesChange_def snd_conv by (induction cs) (auto simp: List.map_filter_simps split: edge_change.split)
    then show ?thesis using edge_changes by (intro quiet_step) (auto simp: onEdgesChange_def)
  qed (rule quiet_step; auto simp: onConnect_def onNodeDoubleClick_def onNodeContextMenu_def onPaneContextMenu_def dismissToast_def)+
qed

lemma session_alike:
  assumes "session addEdge base merging cv sv lost" and lib: "library_spec addEdge base"
  shows "reloads_alike merging cv sv"
  using assms(1)
proof induction
  case (opened sv ps cv0 cv effs)
  then show ?case by (intro opened_alike [of sv ps cv0]) (simp_all add: stored_graph_ok_def store_ok_def)
next
  case (acted cv sv lost cv' effs)
  then show ?case using step_alike session_keeps_inv [OF acted(1) lib] by blast
next
  case (flow_removed cv sv lost gone cv')
  then show ?case using flow_removes_simps(4) [OF flow_removed(2)] by (simp add: reloads_alike_def)
qed

section \<open>Reloading\<close>

text \<open>
  C2.  Over such a session (C1), whatever was dropped, added, edited, extended, moved, wired or
  deleted, reloading the page from the store finds every node of the canvas again, drawn with
  the same component, with the same label (unless it is empty) and circuits. Device, endpoint,
  outputs and protection against deletion are also the same, for every node when the server
  merges the settings it is sent into those it has, as the development server does, and for
  every node but sub consumer units when it replaces them, as the firmware does: there the
  circuit buttons drop these fields of a board.
\<close>

theorem reload_shows_the_same:
  assumes "session addEdge base merging cv sv lost" and "library_spec addEdge base"
    and reload: "onInit ps (Some (map_prod id Some (getNodes sv))) cv0 = (cv', effs)"
  shows "\<forall>n\<in>set (cv_nodes cv). \<exists>n'\<in>set (cv_nodes cv').
     c_id n' = c_id n \<and> component n' = component n
     \<and> (nd_label (c_data n) \<noteq> [] \<longrightarrow> nd_label (c_data n') = nd_label (c_data n))
     \<and> nd_circuits (c_data n') = nd_circuits (c_data n)
     \<and> (merging \<or> c_type n \<notin> {Some ''subConsumerUnit'', Some ''henley''} \<longrightarrow>
          nd_nodeId (c_data n') = nd_nodeId (c_data n) \<and> nd_endpointId (c_data n') = nd_endpointId (c_data n)
          \<and> nd_outputs (c_data n') = nd_outputs (c_data n)
          \<and> (c_deletable n' = Some False \<longleftrightarrow> c_deletable n = Some False))"
proof
  fix n assume n: "n \<in> set (cv_nodes cv)"
  have "node_ids cv \<subseteq> server_nodes sv"
    using session_keeps_inv [OF assms(1,2)] by (auto simp: session_inv_def agrees_but_def)
  with n obtain sn where sn: "sn \<in> set (sv_nodes sv)" "c_id n = n_id sn"
    unfolding node_ids_def server_nodes_def by blast
  let ?served = "map (\<lambda>n. n\<lparr>n_values := served_values n\<rparr>) (sv_nodes sv)"
  let ?n = "restoredNode (standbyMap (default_to [] ps)) (sn\<lparr>n_values := served_values sn\<rparr>)"
  have "cv_nodes cv' = fst (restoredNodes (standbyMap (default_to [] ps)) ?served)"
    using onInit_Some(1) [of ps ?served "Some (sv_edges sv)" cv0] reload by (simp add: getNodes_def)
  then have mem: "?n \<in> set (cv_nodes cv')" using sn(1) by (auto simp: restoredNodes_def Let_def)
  have now: "shows_stored merging n (n_settings sn)" using session_alike [OF assms(1,2)] n sn by (simp add: reloads_alike_def)
  have comp: "component m = drawn_with (c_type m)" for m by (simp add: component_def drawn_with_def)
  have "c_id ?n = n_id sn" "c_type ?n = opt_field s_type (n_settings sn)"
    "nd_label (c_data ?n) = shown_label (n_id sn) (n_settings sn)" "nd_nodeId (c_data ?n) = opt_field s_nodeId (n_settings sn)"
    "nd_endpointId (c_data ?n) = opt_field s_endpointId (n_settings sn)" "nd_circuits (c_data ?n) = opt_field s_circuits (n_settings sn)"
    "nd_outputs (c_data ?n) = opt_field s_outputs (n_settings sn)"
    "c_deletable ?n = Some False \<longleftrightarrow> opt_field s_deletable (n_settings sn) = Some False"
    by (simp_all add: restoredNode_def Let_def)
  then show "\<exists>n'\<in>set (cv_nodes cv').
     c_id n' = c_id n \<and> component n' = component n
     \<and> (nd_label (c_data n) \<noteq> [] \<longrightarrow> nd_label (c_data n') = nd_label (c_data n))
     \<and> nd_circuits (c_data n') = nd_circuits (c_data n)
     \<and> (merging \<or> c_type n \<notin> {Some ''subConsumerUnit'', Some ''henley''} \<longrightarrow>
          nd_nodeId (c_data n') = nd_nodeId (c_data n) \<and> nd_endpointId (c_data n') = nd_endpointId (c_data n)
          \<and> nd_outputs (c_data n') = nd_outputs (c_data n)
          \<and> (c_deletable n' = Some False \<longleftrightarrow> c_deletable n = Some False))"
    using now sn(2) by (intro bexI [OF _ mem]) (auto simp: comp shows_stored_def all_of_def is_board_def)
qed

theorem reload_shows_the_same_witness:
  "\<exists>n\<in>set (cv_nodes (fst (onInit None (Some (map_prod id Some (getNodes
       (serveAs False (requests (snd extended_seed)) (serveAs False (requests (snd opened_seed)) seed))))) initial_canvas))).
     nd_label (c_data n) = ''Sub Consumer Unit'' \<and> nd_circuits (c_data n) = Some 4"
proof -
  let ?sv = "serveAs False (requests (snd extended_seed)) (serveAs False (requests (snd opened_seed)) seed)"
  let ?r = "onInit None (Some (map_prod id Some (getNodes ?sv))) initial_canvas"
  let ?d = "plain_data ''Sub Consumer Unit''
      (no_settings\<lparr>s_label := Some ''Sub Consumer Unit'', s_type := Some ''subConsumerUnit'', s_circuits := Some 4\<rparr>)"
  have n: "new_node (node_name (Suc (cv_nodeIdCounter (fst opened_seed)))) ''subConsumerUnit'' (0, 0) ?d \<in> set (cv_nodes (fst extended_seed))"
    by (simp add: extended_seed_def addSubConsumerUnit_def Let_def case_prod_beta)
  have "?r = (fst ?r, snd ?r)" by simp
  from reload_shows_the_same [OF example_session flow_library this] n
  have "\<exists>n'\<in>set (cv_nodes (fst ?r)). nd_label (c_data n') = nd_label ?d \<and> nd_circuits (c_data n') = nd_circuits ?d"
    by (fastforce simp: new_node_def plain_data_def)
  then show ?thesis by (simp add: plain_data_def)
qed

section \<open>The circuit buttons under a server that replaces settings\<close>

text \<open>
  A server that replaces the settings of a node keeps of a board, once its circuit buttons were used,
  only the label, the kind and the number of circuits: whether it may be deleted, its outputs, its
  name and its device are gone, although the comment beside the request says that every field is sent.
\<close>

theorem circuit_buttons_drop_settings:
  assumes "setCircuits n k cv = (cv', effs)" and "effs \<noteq> []" and "distinct (map n_id (sv_nodes sv))"
    and "sn \<in> set (sv_nodes (serveAs False (requests effs) sv))" "n_id sn = c_id n"
  shows "opt_field s_deletable (n_settings sn) = None \<and> opt_field s_outputs (n_settings sn) = None
    \<and> opt_field s_name (n_settings sn) = None \<and> opt_field s_nodeId (n_settings sn) = None"
proof -
  obtain st where r: "requests effs = [PutSettings (c_id n) st]"
    and st: "s_deletable st = None" "s_outputs st = None" "s_name st = None" "s_nodeId st = None"
    using assms(1,2) by (auto simp: setCircuits_def Let_def no_settings_def split: if_splits)
  have "n_settings sn = Some st"
    using assms(4,5) set_update_first [OF assms(3)]
    by (auto simp: r serve_as_def config_def has_node_def split: if_splits)
  with st show ?thesis by simp
qed

end
