(* ===== verification/EditDialog.thy ===== *)
theory EditDialog
  imports ViewSync
begin

text \<open>
  The events of the edit dialog (\<open>EditNodeModal.tsx\<close>): typing, choosing a device, the Enter key, the
  Save button, and the two answers; and what a user can make it send in any order of events.
\<close>

datatype edit_event =
    EditType string
  | EditPick string
  | EditKey string
  | EditClick
  | EditLoaded "endpoint list option"
  | EditAnswer settings "unit answer"

text \<open>The list of devices is only there once it has loaded; the button is off unless the dialog can save.\<close>

definition editModal_on :: "string \<Rightarrow> settings \<Rightarrow> bool \<Rightarrow> edit_event \<Rightarrow> edit_modal
    \<Rightarrow> (edit_modal + settings) \<times> request list" where
  "editModal_on nodeId s hasDevice ev m =
     (let save = (case editModal_save nodeId s hasDevice m of (m', r) \<Rightarrow> (Inl m', list_of_opt r)) in
      case ev of
        EditType t \<Rightarrow> (Inl (m\<lparr>em_name := t\<rparr>), [])
      | EditPick k \<Rightarrow> (Inl (if hasDevice \<and> \<not> em_loading m then m\<lparr>em_selectedKey := k\<rparr> else m), [])
      | EditKey k \<Rightarrow> if k = ''Enter'' then save else (Inl m, [])
      | EditClick \<Rightarrow> if canSave hasDevice m then save else (Inl m, [])
      | EditLoaded eps \<Rightarrow> (Inl (editModal_loaded s hasDevice eps m), [])
      | EditAnswer put a \<Rightarrow> (editModal_saved put a m, []))"

text \<open>
  A dialog that is open, with the requests that wait for an answer.  \<open>Inr\<close> of an event closes it.
\<close>

inductive edit_run :: "string \<Rightarrow> settings \<Rightarrow> bool \<Rightarrow> edit_modal \<Rightarrow> request list \<Rightarrow> bool" for i s h where
  opened: "edit_run i s h (editModal_open s h) []"
| acted: "edit_run i s h m pend \<Longrightarrow> (\<And>put a. ev \<noteq> EditAnswer put a) \<Longrightarrow> editModal_on i s h ev m = (Inl m', rs)
    \<Longrightarrow> edit_run i s h m' (pend @ rs)"
| answered: "edit_run i s h m (PutSettings i put # pend) \<Longrightarrow> editModal_on i s h (EditAnswer put a) m = (Inl m', rs)
    \<Longrightarrow> edit_run i s h m' pend"

definition edit_inv :: "string \<Rightarrow> settings \<Rightarrow> edit_modal \<Rightarrow> request list \<Rightarrow> bool" where
  "edit_inv i s m pend \<longleftrightarrow>
     length pend = (if em_saving m then 1 else 0) \<and> (em_error m \<longrightarrow> \<not> em_saving m)
     \<and> (\<forall>r\<in>set pend. \<exists>s'. r = PutSettings i s' \<and> edit_of s s')"

lemma edit_inv_save:
  assumes "edit_inv i s m pend" and "editModal_save i s h m = (m', r)"
  shows "edit_inv i s m' (pend @ list_of_opt r)"
proof (cases r)
  case None
  then have "m' = m" using assms(2) by (auto simp: editModal_save_def split: if_splits)
  then show ?thesis using assms(1) None by (simp add: list_of_opt_def)
next
  case (Some q)
  then have "\<not> em_saving m" "m' = m\<lparr>em_saving := True, em_error := False\<rparr>"
    using assms(2) by (auto simp: editModal_save_def canSave_def split: if_splits)
  moreover obtain s' where "q = PutSettings i s'" "edit_of s s'"
    using dialog_makes_edit [of i s h m m' q] assms(2) Some by blast
  ultimately show ?thesis using assms(1) Some by (auto simp: edit_inv_def list_of_opt_def)
qed

lemma edit_run_inv: "edit_run i s h m pend \<Longrightarrow> edit_inv i s m pend"
proof (induction rule: edit_run.induct)
  case opened
  show ?case by (simp add: edit_inv_def editModal_open_def Let_def)
next
  case (acted m pend ev m' rs)
  have same: "edit_inv i s x pend" if "em_saving x = em_saving m" "em_error x = em_error m" for x
    using acted.IH that by (simp add: edit_inv_def)
  show ?case
  proof (cases ev)
    case (EditAnswer put a)
    with acted.hyps(2) show ?thesis by blast
  next
    case (EditLoaded eps)
    have "em_saving (editModal_loaded s h eps m) = em_saving m" "em_error (editModal_loaded s h eps m) = em_error m"
      by (simp_all add: editModal_loaded_def Let_def split: option.split)
    then have "em_saving m' = em_saving m" "em_error m' = em_error m" "rs = []"
      using acted.hyps(3) EditLoaded by (auto simp: editModal_on_def Let_def)
    with same show ?thesis by simp
  next
    case (EditKey k)
    then show ?thesis
      using acted.hyps(3) acted.IH edit_inv_save [OF acted.IH, of h "fst (editModal_save i s h m)" "snd (editModal_save i s h m)"]
      by (auto simp: editModal_on_def Let_def case_prod_beta split: if_splits)
  next
    case EditClick
    then show ?thesis
      using acted.hyps(3) acted.IH edit_inv_save [OF acted.IH, of h "fst (editModal_save i s h m)" "snd (editModal_save i s h m)"]
      by (auto simp: editModal_on_def Let_def case_prod_beta split: if_splits)
  qed (use acted.hyps(3) same in \<open>auto simp: editModal_on_def Let_def split: if_splits\<close>)
next
  case (answered m put pend a m' rs)
  then have "em_saving m" "pend = []" by (simp_all add: edit_inv_def split: if_splits)
  then show ?case using answered.hyps(2)
    by (auto simp: editModal_on_def Let_def editModal_saved_def edit_inv_def split: if_splits)
qed

text \<open>
  C39.  In any order of typing, choosing, Enter keys, clicks and answers, the edit dialog has at
  most one save waiting; while it waits neither the button nor the Enter key sends another, an
  error is only shown when none is waiting, and what is sent changes at most the name, label and
  device of the settings the dialog was opened with.
\<close>

theorem edit_dialog_saves_one_at_a_time:
  assumes "edit_run i s h m pend"
  shows "length pend \<le> 1 \<and> (pend \<noteq> [] \<longrightarrow> \<not> canSave h m \<and> snd (editModal_on i s h (EditKey ''Enter'') m) = [])
    \<and> (\<forall>r\<in>set pend. \<exists>s'. r = PutSettings i s' \<and> edit_of s s')
    \<and> (vw_error (editModal_view s h m) \<noteq> None \<longrightarrow> pend = [])"
  using edit_run_inv [OF assms]
  by (auto simp: edit_inv_def canSave_def editModal_on_def editModal_save_def editModal_view_def list_of_opt_def Let_def split: if_splits)

theorem edit_dialog_saves_one_at_a_time_witness:
  "\<exists>m pend. edit_run ''node_9'' (no_settings\<lparr>s_type := Some ''subConsumerUnit'', s_label := Some ''Shed''\<rparr>) False m pend
     \<and> length pend = 1 \<and> \<not> canSave False m"
proof -
  let ?s = "no_settings\<lparr>s_type := Some ''subConsumerUnit'', s_label := Some ''Shed''\<rparr>"
  let ?m = "editModal_open ?s False"
  let ?save = "editModal_save ''node_9'' ?s False ?m"
  have q: "editModal_on ''node_9'' ?s False (EditKey ''Enter'') ?m = (Inl (fst ?save), list_of_opt (snd ?save))"
    unfolding editModal_on_def by (simp add: case_prod_beta)
  have one: "length (list_of_opt (snd ?save)) = 1" by code_simp
  have run: "edit_run ''node_9'' ?s False (fst ?save) ([] @ list_of_opt (snd ?save))"
    by (rule edit_run.acted [OF edit_run.opened _ q]) simp
  then have "\<not> canSave False (fst ?save)"
    using edit_dialog_saves_one_at_a_time [OF run] one by (metis append_Nil list.size(3) zero_neq_one)
  with run one show ?thesis by (metis append_Nil)
qed

end
