(* ===== verification/AppShell.thy ===== *)
theory AppShell
  imports DevicesProps
begin

text \<open>
  The application shell (\<open>App.tsx\<close>): the navigation bar, the table of routes and what a path shows,
  with the router of the library as a parameter; and the way from the Devices page to the page of an
  opened commissioning window.
\<close>

section \<open>Routes\<close>

datatype page_element =
    Home | Topology | Appliances | Power | Forecast | Schedule | Devices | CommissioningWindow | Settings | Test

text \<open>A route: its path, whether the page is put in a container, the page.\<close>

definition Routes :: "(string \<times> bool \<times> page_element) list" where
  "Routes =
     [(''/'', True, Home), (''/topology'', False, Topology), (''/appliances'', True, Appliances),
      (''/power'', True, Power), (''/forecast'', True, Forecast), (''/schedule'', True, Schedule),
      (''/devices'', True, Devices), (''/devices/:nodeId/commissioning'', True, CommissioningWindow),
      (''/settings'', True, Settings), (''/test'', True, Test)]"

text \<open>The links of the navigation bar: text and target.\<close>

definition navLinks :: "(string \<times> string) list" where
  "navLinks =
     [(''Home'', ''/''), (''Topology'', ''/topology''), (''Appliances'', ''/appliances''), (''Power'', ''/power''),
      (''Forecast'', ''/forecast''), (''Schedule'', ''/schedule''), (''Devices'', ''/devices''),
      (''Settings'', ''/settings''), (''Test'', ''/test'')]"

text \<open>
  The router takes the patterns and the path, and gives the pattern it chose with the values of its
  parameters.  \<open>App\<close> is the page shown, or \<open>None\<close> when only the navigation bar is.
\<close>

type_synonym router = "string list \<Rightarrow> string \<Rightarrow> (string \<times> (string \<times> string) list) option"

definition App :: "router \<Rightarrow> string \<Rightarrow> (bool \<times> page_element \<times> (string \<times> string) list) option" where
  "App matchRoute path =
     (case matchRoute (map fst Routes) path of
        None \<Rightarrow> None
      | Some (pattern, params) \<Rightarrow>
          (case map_of Routes pattern of None \<Rightarrow> None | Some (boxed, page) \<Rightarrow> Some (boxed, page, params)))"

section \<open>What the router is documented to do\<close>

text \<open>
  A path is matched segment by segment, letters without regard to case and slashes at the end
  ignored; a segment \<open>:name\<close> of the pattern takes any segment that is not empty.
\<close>

definition lower :: "char \<Rightarrow> char" where
  "lower c = (let k = of_char c :: nat in if 65 \<le> k \<and> k \<le> 90 then char_of (k + 32) else c)"

definition segments :: "string \<Rightarrow> string list" where
  "segments p = split_on CHR ''/'' (rev (dropWhile (\<lambda>c. c = CHR ''/'') (rev p)))"

fun fits :: "string list \<Rightarrow> string list \<Rightarrow> (string \<times> string) list option" where
  "fits [] [] = Some []"
| "fits (p # ps) (s # ss) =
     (if take 1 p = '':''
      then (if s = [] then None else (case fits ps ss of None \<Rightarrow> None | Some b \<Rightarrow> Some ((tl p, s) # b)))
      else if map lower p = map lower s then fits ps ss else None)"
| "fits _ _ = None"

text \<open>Escapes (\<open>%xx\<close>) are outside the contract, as is which of several fitting patterns is chosen.\<close>

definition router_spec :: "router \<Rightarrow> bool" where
  "router_spec matchRoute \<longleftrightarrow>
     (\<forall>ps path. CHR ''%'' \<notin> set path \<longrightarrow>
        (case matchRoute ps path of
           None \<Rightarrow> (\<forall>p\<in>set ps. fits (segments p) (segments path) = None)
         | Some (p, params) \<Rightarrow> p \<in> set ps \<and> fits (segments p) (segments path) = Some params))"

text \<open>A router with this contract: the first pattern that fits.\<close>

fun firstFit :: router where
  "firstFit [] path = None"
| "firstFit (p # ps) path =
     (case fits (segments p) (segments path) of None \<Rightarrow> firstFit ps path | Some b \<Rightarrow> Some (p, b))"

lemma firstFit_spec: "router_spec firstFit"
proof -
  have "case firstFit ps path of
           None \<Rightarrow> (\<forall>p\<in>set ps. fits (segments p) (segments path) = None)
         | Some (p, params) \<Rightarrow> p \<in> set ps \<and> fits (segments p) (segments path) = Some params" for ps path
    by (induction ps) (auto split: option.splits)
  then show ?thesis unfolding router_spec_def by blast
qed

section \<open>The node id in the address of the commissioning page\<close>

text \<open>\<open>BigInt(s)\<close>: \<open>None\<close> is the exception for a text that is not an integer.\<close>

definition radix_digit :: "char \<Rightarrow> nat" where
  "radix_digit c =
     (let k = of_char c in
      if 48 \<le> k \<and> k \<le> 57 then k - 48 else if 65 \<le> k \<and> k \<le> 90 then k - 55
      else if 97 \<le> k \<and> k \<le> 122 then k - 87 else 36)"

definition radix_val :: "nat \<Rightarrow> string \<Rightarrow> int option" where
  "radix_val b s =
     (if s \<noteq> [] \<and> (\<forall>c\<in>set s. radix_digit c < b)
      then Some (int (foldl (\<lambda>a c. b * a + radix_digit c) 0 s)) else None)"

definition bigInt :: "string \<Rightarrow> int option" where
  "bigInt s =
     (let u = trim s in
      if u = [] then Some 0
      else if take 1 u = ''-'' then map_option uminus (radix_val 10 (tl u))
      else if take 1 u = ''+'' then radix_val 10 (tl u)
      else if take 2 u \<in> {''0x'', ''0X''} then radix_val 16 (drop 2 u)
      else if take 2 u \<in> {''0o'', ''0O''} then radix_val 8 (drop 2 u)
      else if take 2 u \<in> {''0b'', ''0B''} then radix_val 2 (drop 2 u)
      else radix_val 10 u)"

text \<open>The heading; \<open>None\<close> is the exception, which takes the whole application down.\<close>

definition commissioningHeading :: "string option \<Rightarrow> string option" where
  "commissioningHeading nodeId =
     (case bigInt (default_to ''0'' nodeId) of
        None \<Rightarrow> None
      | Some i \<Rightarrow> Some (''Device - 0x'' @ (if i < 0 then ''-'' else []) @ hex_upper (nat \<bar>i\<bar>) @ '' - Commissioning''))"

text \<open>The page at a path with a history state: heading and window.\<close>

definition windowPage :: "router \<Rightarrow> string \<Rightarrow> window_state option \<Rightarrow> nat \<Rightarrow> (string \<times> window_view option) option" where
  "windowPage matchRoute path st now =
     (case App matchRoute path of
        Some (_, CommissioningWindow, params) \<Rightarrow>
          map_option (\<lambda>h. (h, commissioningWindow st now)) (commissioningHeading (map_of params ''nodeId''))
      | _ \<Rightarrow> None)"

section \<open>Every path shows at most one page\<close>

text \<open>Different patterns of one length differ in a fixed segment, so that at most one fits.\<close>

definition fixed_conflict :: "string list \<Rightarrow> string list \<Rightarrow> bool" where
  "fixed_conflict ps qs \<longleftrightarrow> length ps \<noteq> length qs
     \<or> list_ex (\<lambda>(p, q). take 1 p \<noteq> '':'' \<and> take 1 q \<noteq> '':'' \<and> map lower p \<noteq> map lower q) (zip ps qs)"

lemma fits_length: "fits ps ss = Some b \<Longrightarrow> length ss = length ps"
  by (induction ps ss arbitrary: b rule: fits.induct) (auto split: if_splits option.splits)

lemma fits_fixed:
  "fits ps ss = Some a \<Longrightarrow> i < length ps \<Longrightarrow> take 1 (ps ! i) \<noteq> '':'' \<Longrightarrow> map lower (ps ! i) = map lower (ss ! i)"
  by (induction ps ss arbitrary: a i rule: fits.induct)
    (auto simp: nth_Cons split: if_splits option.splits nat.splits)

lemma fits_no_conflict:
  assumes "fits ps ss = Some a" "fits qs ss = Some b"
  shows "\<not> fixed_conflict ps qs"
  using fits_length [OF assms(1)] fits_length [OF assms(2)] fits_fixed [OF assms(1)] fits_fixed [OF assms(2)]
  by (fastforce simp: fixed_conflict_def list_ex_iff in_set_zip)

lemma routes_conflict:
  "list_all (\<lambda>p. list_all (\<lambda>q. p = q \<or> fixed_conflict (segments p) (segments q)) (map fst Routes)) (map fst Routes)"
  by code_simp

lemma router_Some:
  assumes "router_spec matchRoute" and "CHR ''%'' \<notin> set path" and "matchRoute ps path = Some (p, b)"
  shows "p \<in> set ps \<and> fits (segments p) (segments path) = Some b"
  using assms(1) [unfolded router_spec_def, THEN spec, THEN spec, THEN mp, OF assms(2), of ps] assms(3) by simp

lemma router_None:
  assumes "router_spec matchRoute" and "CHR ''%'' \<notin> set path" and "matchRoute ps path = None" and "p \<in> set ps"
  shows "fits (segments p) (segments path) = None"
  using assms(1) [unfolded router_spec_def, THEN spec, THEN spec, THEN mp, OF assms(2), of ps] assms(3,4) by simp

lemma router_picks:
  assumes "router_spec matchRoute" and "CHR ''%'' \<notin> set path"
    and "p \<in> set (map fst Routes)" and "fits (segments p) (segments path) = Some b"
  shows "matchRoute (map fst Routes) path = Some (p, b)"
proof (cases "matchRoute (map fst Routes) path")
  case None
  from router_None [OF assms(1,2) this assms(3)] assms(4) show ?thesis by simp
next
  case (Some qc)
  obtain q c where qc: "qc = (q, c)" by (cases qc)
  have q: "q \<in> set (map fst Routes)" "fits (segments q) (segments path) = Some c"
    using router_Some [OF assms(1,2) Some [unfolded qc]] by simp_all
  then have "p = q"
    using routes_conflict fits_no_conflict [OF assms(4) q(2)] assms(3) unfolding list_all_iff by blast
  with q(2) assms(4) show ?thesis by (simp add: Some qc)
qed

lemma router_none:
  assumes "router_spec matchRoute" and "CHR ''%'' \<notin> set path"
    and "\<forall>p\<in>set (map fst Routes). fits (segments p) (segments path) = None"
  shows "matchRoute (map fst Routes) path = None"
proof (cases "matchRoute (map fst Routes) path")
  case (Some qc)
  obtain q c where qc: "qc = (q, c)" by (cases qc)
  from router_Some [OF assms(1,2) Some [unfolded qc]] assms(3) show ?thesis by (metis option.distinct(1))
qed

text \<open>What is shown does not depend on which of the routers with this contract is used.\<close>

lemma shown_page_is_determined:
  assumes "router_spec m" "router_spec m'" and "CHR ''%'' \<notin> set path"
  shows "App m path = App m' path"
proof (cases "\<exists>p\<in>set (map fst Routes). \<exists>b. fits (segments p) (segments path) = Some b")
  case True
  then obtain p b where "p \<in> set (map fst Routes)" "fits (segments p) (segments path) = Some b" by blast
  then have "m (map fst Routes) path = Some (p, b)" "m' (map fst Routes) path = Some (p, b)"
    using router_picks assms by blast+
  then show ?thesis by (simp add: App_def)
next
  case False
  then have none: "\<forall>p\<in>set (map fst Routes). fits (segments p) (segments path) = None" by auto
  have "m (map fst Routes) path = None" "m' (map fst Routes) path = None"
    using router_none [OF assms(1,3) none] router_none [OF assms(2,3) none] by blast+
  then show ?thesis by (simp add: App_def)
qed

theorem every_link_opens_its_page:
  assumes "router_spec matchRoute"
  shows "map (\<lambda>(text, to). (text, map_option (\<lambda>(boxed, page, params). page) (App matchRoute to))) navLinks =
    [(''Home'', Some Home), (''Topology'', Some Topology), (''Appliances'', Some Appliances), (''Power'', Some Power),
     (''Forecast'', Some Forecast), (''Schedule'', Some Schedule), (''Devices'', Some Devices),
     (''Settings'', Some Settings), (''Test'', Some Test)]"
proof -
  have "list_all (\<lambda>(text, to). CHR ''%'' \<notin> set to) navLinks" by code_simp
  then have "map (\<lambda>(text, to). (text, map_option (\<lambda>(boxed, page, params). page) (App matchRoute to))) navLinks
      = map (\<lambda>(text, to). (text, map_option (\<lambda>(boxed, page, params). page) (App firstFit to))) navLinks"
    using shown_page_is_determined [OF assms firstFit_spec] by (auto simp: list_all_iff)
  also have "\<dots> = [(''Home'', Some Home), (''Topology'', Some Topology), (''Appliances'', Some Appliances), (''Power'', Some Power),
     (''Forecast'', Some Forecast), (''Schedule'', Some Schedule), (''Devices'', Some Devices),
     (''Settings'', Some Settings), (''Test'', Some Test)]" by code_simp
  finally show ?thesis .
qed

theorem every_link_opens_its_page_witness:
  "map (\<lambda>(text, to). (text, map_option (\<lambda>(boxed, page, params). page) (App firstFit to))) navLinks ! 6
     = (''Devices'', Some Devices)"
  unfolding every_link_opens_its_page [OF firstFit_spec] by simp

section \<open>From the Devices page to the opened window\<close>

lemma segments_of_window: "segments (''/devices/'' @ dec i @ ''/commissioning'') = ['''', ''devices'', dec i, ''commissioning'']"
proof -
  have no: "CHR ''/'' \<notin> set (dec i)" using dec_digits [of "CHR ''/''" i] by (auto simp: is_digit_def)
  have "segments (''/devices/'' @ dec i @ ''/commissioning'') = split_on CHR ''/'' (''/devices/'' @ dec i @ ''/commissioning'')"
    by (simp add: segments_def)
  also have "\<dots> = ['''', ''devices''] @ split_on CHR ''/'' (dec i @ CHR ''/'' # ''commissioning'')" by simp
  also have "\<dots> = ['''', ''devices'', dec i, ''commissioning'']" by (simp add: split_on_append [OF no])
  finally show ?thesis .
qed

lemma window_route:
  assumes "router_spec matchRoute"
  shows "App matchRoute (''/devices/'' @ dec i @ ''/commissioning'') = Some (True, CommissioningWindow, [(''nodeId'', dec i)])"
proof -
  have pat: "segments ''/devices/:nodeId/commissioning'' = ['''', ''devices'', '':nodeId'', ''commissioning'']" by code_simp
  have "fits (segments ''/devices/:nodeId/commissioning'') (segments (''/devices/'' @ dec i @ ''/commissioning''))
      = Some [(''nodeId'', dec i)]"
    unfolding pat segments_of_window by simp
  moreover have "CHR ''%'' \<notin> set (''/devices/'' @ dec i @ ''/commissioning'')"
    using dec_digits [of "CHR ''%''" i] by (auto simp: is_digit_def)
  moreover have "''/devices/:nodeId/commissioning'' \<in> set (map fst Routes)" by (simp add: Routes_def)
  ultimately have "matchRoute (map fst Routes) (''/devices/'' @ dec i @ ''/commissioning'')
      = Some (''/devices/:nodeId/commissioning'', [(''nodeId'', dec i)])"
    using router_picks [OF assms] by blast
  then show ?thesis by (simp add: App_def Routes_def)
qed

lemma radix_digit_digit: "is_digit c \<Longrightarrow> radix_digit c = digit_val c \<and> radix_digit c < 10"
  by (auto simp: is_digit_def radix_digit_def digit_val_def)

lemma radix_val_digits:
  assumes "all_digits s"
  shows "radix_val 10 s = Some (int (digits_val s))"
proof -
  have "foldl (\<lambda>a c. 10 * a + radix_digit c) k s = foldl (\<lambda>a c. 10 * a + digit_val c) k s" for k
    using assms radix_digit_digit by (intro foldl_cong) (auto simp: all_digits_def)
  then show ?thesis using assms radix_digit_digit by (force simp: radix_val_def all_digits_def digits_val_def)
qed

lemma digit_not_space: "is_digit c \<Longrightarrow> \<not> is_space c"
  by (auto simp: is_digit_def is_space_def)

lemma trim_digits:
  assumes "all_digits s"
  shows "trim s = s"
proof -
  have drop: "dropWhile is_space t = t" if "set t \<subseteq> set s" for t
    using that assms digit_not_space by (cases t) (auto simp: all_digits_def)
  show ?thesis by (simp add: trim_def drop)
qed

lemma bigInt_digits:
  assumes "all_digits s"
  shows "bigInt s = Some (int (digits_val s))"
proof -
  have "\<not> is_digit CHR ''-''" "\<not> is_digit CHR ''+''" "\<not> is_digit CHR ''x''" "\<not> is_digit CHR ''X''"
    "\<not> is_digit CHR ''o''" "\<not> is_digit CHR ''O''" "\<not> is_digit CHR ''b''" "\<not> is_digit CHR ''B''"
    by (simp_all add: is_digit_def)
  then have "take 1 s \<noteq> [c]" "take 2 s \<noteq> [d, c]"
    if "c \<in> {CHR ''-'', CHR ''+'', CHR ''x'', CHR ''X'', CHR ''o'', CHR ''O'', CHR ''b'', CHR ''B''}" for c d
    using that assms in_set_takeD [of c 1 s] in_set_takeD [of c 2 s] unfolding all_digits_def
    by (metis insertE list.set_intros empty_iff)+
  moreover have "s \<noteq> []" using assms by (simp add: all_digits_def)
  ultimately show ?thesis by (simp add: bigInt_def Let_def trim_digits [OF assms] radix_val_digits [OF assms])
qed

text \<open>
  C34.  From the Devices page to the window it opened: the address a successful answer navigates
  to is routed to the commissioning page, which heads the device by the hexadecimal form of the
  same node id, shows the formatted code and the QR payload of the answer, and is not expired
  until half a second before the timeout. The router matches paths segment by segment as
  documented.
\<close>

theorem opened_window_is_shown:
  assumes "router_spec matchRoute"
    and "windowOpened opened i (Answer st (txt, Inr (manual, qr, timeout))) p = (p', Some (path, w))"
    and "manual \<noteq> []" and "opened \<le> now" "now + 500 \<le> opened + timeout * 1000"
  shows "\<exists>v. windowPage matchRoute path (Some w) now
        = Some (''Device - 0x'' @ hex_upper i @ '' - Commissioning'', Some v)
      \<and> \<not> wv_expired v \<and> wv_qr v = qr \<and> wv_code v = formatManualCode manual
      \<and> remainingSeconds w now \<le> timeout \<and> dp_openingWindowFor p' = None"
proof -
  have w: "path = ''/devices/'' @ dec i @ ''/commissioning''" "dp_openingWindowFor p' = None"
    "w = \<lparr>ws_manualCode = manual, ws_qrCode = qr, ws_timeout = timeout, ws_openedAt = opened\<rparr>"
    using assms(2) by (auto simp: windowOpened_def Let_def split: if_splits)
  have "commissioningHeading (Some (dec i)) = Some (''Device - 0x'' @ hex_upper i @ '' - Commissioning'')"
    by (simp add: commissioningHeading_def bigInt_digits)
  then have page: "windowPage matchRoute path (Some w) now
      = Some (''Device - 0x'' @ hex_upper i @ '' - Commissioning'', commissioningWindow (Some w) now)"
    unfolding windowPage_def w(1) window_route [OF assms(1)] by simp
  have manual: "ws_manualCode w \<noteq> []" using assms(3) by (simp add: w(3))
  then obtain v where v: "commissioningWindow (Some w) now = Some v" by (simp add: commissioningWindow_def)
  have "\<not> wv_expired v \<and> remainingSeconds w now \<le> timeout"
    using window_expired_iff [OF manual v] remaining_bound [of w now] assms(4,5) by (simp add: w(3))
  moreover have "wv_qr v = qr \<and> wv_code v = formatManualCode manual"
    using v assms(3) by (auto simp: commissioningWindow_def w(3))
  ultimately show ?thesis using page v w(2) by auto
qed

theorem opened_window_is_shown_witness:
  "\<exists>v. windowPage firstFit ''/devices/11/commissioning''
      (Some \<lparr>ws_manualCode = ''34970112332'', ws_qrCode = ''MT:Y'', ws_timeout = 900, ws_openedAt = 1000\<rparr>) 2000
      = Some (''Device - 0xB - Commissioning'', Some v) \<and> \<not> wv_expired v \<and> wv_code v = ''3497-011-2332''"
proof -
  let ?w = "\<lparr>ws_manualCode = ''34970112332'', ws_qrCode = ''MT:Y'', ws_timeout = 900, ws_openedAt = 1000\<rparr>"
  let ?r = "windowOpened 1000 11 (Answer 200 ([], Inr (''34970112332'', ''MT:Y'', 900))) devices_open"
  have "dec 11 = ''11''" "hex_upper 11 = ''B''" by code_simp+
  then have "?r = (fst ?r, Some (''/devices/11/commissioning'', ?w))" "hex_upper 11 = ''B''"
    by (simp_all add: windowOpened_def is_ok_def)
  with opened_window_is_shown [OF firstFit_spec this(1), of 2000] show ?thesis
    by (auto simp: formatManualCode_def)
qed

text \<open>
  The address can be typed: an id that is not an integer makes the conversion throw while the page
  is drawn.
\<close>

theorem typed_address_breaks_the_page:
  "App firstFit ''/devices/lamp/commissioning'' = Some (True, CommissioningWindow, [(''nodeId'', ''lamp'')])
   \<and> windowPage firstFit ''/devices/lamp/commissioning'' st now = None"
proof
  show app: "App firstFit ''/devices/lamp/commissioning'' = Some (True, CommissioningWindow, [(''nodeId'', ''lamp'')])"
    by code_simp
  have "commissioningHeading (Some ''lamp'') = None" by code_simp
  then show "windowPage firstFit ''/devices/lamp/commissioning'' st now = None"
    unfolding windowPage_def app by simp
qed

end
