(* ===== verification/PickerDialogs.thy ===== *)
theory PickerDialogs
  imports Pickers
begin

text \<open>
  The pickers in use: the events of the dialogs \<open>AddLoadModal.tsx\<close>, \<open>GridModal.tsx\<close> and of the two
  endpoint dialogs of \<open>Home.tsx\<close>, what each dialog asks the server for, and the rest of what the two
  canvas dialogs draw.  A run of a dialog is every order of events a user and one answer of the server
  can produce; \<open>es\<close> is the list of endpoints the server answers with.
\<close>

abbreviation ident :: "endpoint \<Rightarrow> nat \<times> nat" where
  "ident e \<equiv> (en_nodeId e, en_endpointId e)"

abbreviation address :: "simple_device \<Rightarrow> nat \<times> nat" where
  "address d \<equiv> (sd_nodeId d, sd_endpointId d)"

lemma toSensor_simps [simp]:
  "so_nodeId (toSensor e) = en_nodeId e" "so_endpointId (toSensor e) = en_endpointId e" "so_label (toSensor e) = displayLabel e"
  by (simp_all add: toSensor_def)

section \<open>The list a dialog asks for\<close>

definition ELECTRICAL_SENSOR_DEVICE_TYPE_ID :: nat where "ELECTRICAL_SENSOR_DEVICE_TYPE_ID = 0x0510"

definition sensorsUrl :: string where
  "sensorsUrl = ''/api/devices/endpoints?deviceTypeId='' @ dec ELECTRICAL_SENSOR_DEVICE_TYPE_ID"

text \<open>The role dialogs spell the type in hexadecimal.\<close>

definition roleUrl :: "role_spec \<Rightarrow> string" where
  "roleUrl r = ''/api/devices/endpoints?deviceTypeId=0x'' @ pad_start 4 CHR ''0'' (hex_upper (rl_deviceType r))"

section \<open>Adding a load\<close>

datatype add_event = AddType string | AddPick string | AddLoaded "endpoint list option" | AddClick | AddCancel

datatype add_outcome = AddOpen add_modal | AddDone added_load | AddGone

text \<open>The list is there once it has loaded; the button is off while nothing is selected.\<close>

definition addModal_on :: "add_event \<Rightarrow> add_modal \<Rightarrow> add_outcome" where
  "addModal_on ev m =
     (case ev of
        AddType s \<Rightarrow> AddOpen (addModal_type s m)
      | AddPick k \<Rightarrow> AddOpen (if am_loading m then m else addModal_select k m)
      | AddLoaded eps \<Rightarrow> AddOpen (addModal_loaded eps m)
      | AddClick \<Rightarrow>
          (if am_loading m \<or> addModal_selected m = None then AddOpen m
           else (case addModal_save m of None \<Rightarrow> AddOpen m | Some l \<Rightarrow> AddDone l))
      | AddCancel \<Rightarrow> AddGone)"

record form_field =
  ff_label :: string
  ff_placeholder :: string
  ff_value :: string

definition addModal_nameField :: "add_modal \<Rightarrow> form_field" where
  "addModal_nameField m = \<lparr>ff_label = ''Name'', ff_placeholder = ''e.g. Immersion Heater'', ff_value = am_name m\<rparr>"

inductive add_run :: "endpoint list \<Rightarrow> add_modal \<Rightarrow> bool" for es where
  opened: "add_run es addModal_open"
| acted: "add_run es m \<Longrightarrow> (\<And>r. ev \<noteq> AddLoaded r) \<Longrightarrow> addModal_on ev m = AddOpen m' \<Longrightarrow> add_run es m'"
| loaded: "add_run es m \<Longrightarrow> am_loading m \<Longrightarrow> r \<in> {None, Some es} \<Longrightarrow> addModal_on (AddLoaded r) m = AddOpen m' \<Longrightarrow> add_run es m'"

definition add_inv :: "endpoint list \<Rightarrow> add_modal \<Rightarrow> bool" where
  "add_inv es m \<longleftrightarrow> am_sensors m \<in> {[], map toSensor es} \<and> (am_loading m \<longrightarrow> am_sensors m = [] \<and> am_selectedKey m = [])
     \<and> (\<forall>s. addModal_selected m = Some s \<longrightarrow> \<not> am_nameTouched m \<longrightarrow> am_name m = so_label s)"

lemma so_key_nonempty [simp]: "so_key s \<noteq> []"
  by (simp add: so_key_def sensorKey_def)

lemma nothing_selected: "am_selectedKey m = [] \<Longrightarrow> addModal_selected m = None"
  by (simp add: addModal_selected_def find_None_iff)

lemma add_inv_select: "add_inv es m \<Longrightarrow> \<not> am_loading m \<Longrightarrow> add_inv es (addModal_select k m)"
  by (auto simp: add_inv_def addModal_select_def addModal_selected_def Let_def split: option.split)

lemma add_run_inv: "add_run es m \<Longrightarrow> add_inv es m"
proof (induction rule: add_run.induct)
  case opened
  show ?case by (simp add: add_inv_def addModal_open_def addModal_selected_def)
next
  case (acted m ev m')
  show ?case
  proof (cases ev)
    case (AddPick k)
    then show ?thesis using acted add_inv_select by (auto simp: addModal_on_def split: if_splits)
  next
    case (AddLoaded r)
    with acted.hyps(2) show ?thesis by blast
  qed (use acted in \<open>auto simp: addModal_on_def addModal_type_def add_inv_def addModal_selected_def split: if_splits option.splits\<close>)
next
  case (loaded m r m')
  then have "am_selectedKey m = []" "am_sensors m = []" by (simp_all add: add_inv_def)
  moreover have "m' = addModal_loaded r m" using loaded.hyps(4) by (simp add: addModal_on_def)
  ultimately show ?case using loaded.hyps(3)
    by (auto simp: add_inv_def addModal_loaded_def nothing_selected)
qed

lemma add_run_selected:
  assumes "add_run es m" and "addModal_selected m = Some s"
  shows "\<exists>e\<in>set es. s = toSensor e"
proof -
  have "s \<in> set (am_sensors m)" using assms(2) sensors.find_key_only unfolding addModal_selected_def by blast
  then show ?thesis using add_run_inv [OF assms(1)] by (auto simp: add_inv_def)
qed

text \<open>What is added was offered, and it has the name that was typed, or that of the device.\<close>

lemma added_load_offered:
  assumes "add_run es m" and "addModal_save m = Some l"
  shows "\<exists>e\<in>set es. al_nodeId l = en_nodeId e \<and> al_endpointId l = en_endpointId e \<and> al_label l = displayLabel e
    \<and> al_name l = (if am_nameTouched m then or_str (trim (am_name m)) (displayLabel e)
                  else or_str (trim (displayLabel e)) (displayLabel e))"
proof -
  obtain s where s: "addModal_selected m = Some s" "l = \<lparr>al_nodeId = so_nodeId s, al_endpointId = so_endpointId s,
      al_label = so_label s, al_name = or_str (trim (am_name m)) (so_label s)\<rparr>"
    using assms(2) by (auto simp: addModal_save_def split: option.splits)
  moreover obtain e where "e \<in> set es" "s = toSensor e" using add_run_selected [OF assms(1) s(1)] by blast
  moreover have "\<not> am_nameTouched m \<Longrightarrow> am_name m = so_label s"
    using add_run_inv [OF assms(1)] s(1) by (simp add: add_inv_def)
  ultimately show ?thesis by (intro bexI [of _ e]) auto
qed

section \<open>The grid sensor\<close>

datatype grid_event = GridPick string | GridLoaded "endpoint list option" | GridClick | GridAnswer "unit answer" | GridCancel

definition gridModal_on :: "grid_event \<Rightarrow> grid_modal \<Rightarrow> grid_modal option \<times> request list" where
  "gridModal_on ev m =
     (case ev of
        GridPick k \<Rightarrow> (Some (if gm_loading m then m else gridModal_select k m), [])
      | GridLoaded eps \<Rightarrow> (Some (gridModal_loaded eps m), [])
      | GridClick \<Rightarrow> (if gm_saving m \<or> gm_loading m then (Some m, [])
                     else (case gridModal_save m of (m', r) \<Rightarrow> (Some m', [r])))
      | GridAnswer a \<Rightarrow> (gridModal_saved a m, [])
      | GridCancel \<Rightarrow> (None, []))"

inductive grid_run :: "endpoint list \<Rightarrow> grid_modal \<Rightarrow> request list \<Rightarrow> bool" for es where
  opened: "grid_run es gridModal_open []"
| acted: "grid_run es m pend \<Longrightarrow> (\<And>r. ev \<noteq> GridLoaded r) \<Longrightarrow> (\<And>a. ev \<noteq> GridAnswer a)
    \<Longrightarrow> gridModal_on ev m = (Some m', rs) \<Longrightarrow> grid_run es m' (pend @ rs)"
| loaded: "grid_run es m pend \<Longrightarrow> gm_loading m \<Longrightarrow> r \<in> {None, Some es}
    \<Longrightarrow> gridModal_on (GridLoaded r) m = (Some m', rs) \<Longrightarrow> grid_run es m' pend"
| answered: "grid_run es m (q # pend) \<Longrightarrow> gridModal_on (GridAnswer a) m = (Some m', rs) \<Longrightarrow> grid_run es m' pend"

lemma grid_run_pending: "grid_run es m pend \<Longrightarrow> length pend = (if gm_saving m then 1 else 0)"
proof (induction rule: grid_run.induct)
  case (acted m pend ev m' rs)
  then show ?case
    by (cases ev) (auto simp: gridModal_on_def gridModal_select_def gridModal_save_def split: if_splits)
next
  case (answered m q pend a m' rs)
  then show ?case by (cases a) (auto simp: gridModal_on_def gridModal_saved_def split: if_splits)
qed (auto simp: gridModal_open_def gridModal_on_def gridModal_loaded_def split: option.split)

section \<open>Assigning an endpoint to a role\<close>

datatype role_event = RolePick string | RoleLoaded "string + endpoint list" | RoleClick | RoleAnswer "unit answer" | RoleClose

datatype role_outcome = RoleOpen role_picker | RoleDone simple_device | RoleGone

definition roleDescription :: "role_spec \<Rightarrow> string" where
  "roleDescription r =
     (if rl_role r = ''grid'' then ''Choose the device that measures power at the grid connection.''
      else if rl_role r = ''tariff'' then ''Choose the device that publishes your electricity tariff (Commodity Tariff cluster).''
      else ''Choose the device that measures power generated by your solar panels.'')"

text \<open>\<open>d\<close> is the device that was sent.\<close>

definition rolePicker_on :: "role_spec \<Rightarrow> simple_device option \<Rightarrow> simple_device \<Rightarrow> role_event \<Rightarrow> role_picker
    \<Rightarrow> role_outcome \<times> request list" where
  "rolePicker_on r initial d ev p =
     (case ev of
        RolePick k \<Rightarrow> (RoleOpen (if rp_loading p \<or> rp_devices p = [] then p
                                  else rolePicker_select (rl_sensor r) (rl_solar r) k p), [])
      | RoleLoaded x \<Rightarrow> (RoleOpen (rolePicker_loaded initial x p), [])
      | RoleClick \<Rightarrow> (if rp_selected p = None \<or> rp_saving p then (RoleOpen p, [])
                      else (case rolePicker_save (rl_role r) p of (p', q) \<Rightarrow> (RoleOpen p', list_of_opt q)))
      | RoleAnswer a \<Rightarrow> (case rolePicker_saved d a p of Inl p' \<Rightarrow> (RoleOpen p', []) | Inr x \<Rightarrow> (RoleDone x, []))
      | RoleClose \<Rightarrow> (RoleGone, []))"

inductive role_run :: "role_spec \<times> simple_device option \<Rightarrow> endpoint list \<Rightarrow> role_picker \<Rightarrow> bool" for r es where
  opened: "role_run r es (rolePicker_open (snd r))"
| acted: "role_run r es p \<Longrightarrow> (\<And>x. ev = RoleLoaded (Inr x) \<Longrightarrow> x = es)
    \<Longrightarrow> rolePicker_on (fst r) (snd r) d ev p = (RoleOpen p', rs) \<Longrightarrow> role_run r es p'"

definition listed :: "simple_device option \<Rightarrow> endpoint list \<Rightarrow> (nat \<times> nat) set" where
  "listed initial es = ident ` set es \<union> address ` set_option initial"

lemma withConfigured_listed: "ident ` set (withConfigured initial es) \<subseteq> listed initial es"
  by (auto simp: withConfigured_def listed_def split: option.splits if_splits)

lemma role_run_listed:
  "role_run r es p \<Longrightarrow> ident ` set (rp_devices p) \<subseteq> listed (snd r) es \<and> address ` set_option (rp_selected p) \<subseteq> listed (snd r) es"
proof (induction rule: role_run.induct)
  case opened
  show ?case by (auto simp: rolePicker_open_def listed_def)
next
  case (acted p ev d p' rs)
  note on = acted.hyps(3) [unfolded rolePicker_on_def]
  show ?case
  proof (cases ev)
    case (RolePick k)
    have "ident d \<in> listed (snd r) es" if "find (\<lambda>x. en_key x = k) (rp_devices p) = Some d" for d
      using endpoints.find_key_only [OF that] acted.IH by auto
    then show ?thesis using on acted.IH RolePick
      by (auto simp: rolePicker_select_def split: if_splits option.splits)
  next
    case (RoleLoaded x)
    then show ?thesis using on acted.IH acted.hyps(2) withConfigured_listed [of "snd r" es]
      by (auto simp: rolePicker_loaded_def split: sum.splits)
  next
    case RoleClick
    then show ?thesis using on acted.IH by (auto simp: rolePicker_save_def split: if_splits option.splits)
  next
    case (RoleAnswer a)
    then show ?thesis using on acted.IH by (auto simp: rolePicker_saved_def split: sum.splits)
  qed (use on in simp)
qed

section \<open>Editing an appliance slot\<close>

datatype appliance_event = ApplianceType string | ApplianceExclude bool | AppliancePick endpoint
  | ApplianceLoaded "string + endpoint list" | ApplianceFailed string

text \<open>A choice is one of the rows that are listed; \<open>ApplianceFailed\<close> is a save that failed.\<close>

definition applianceModal_on :: "edit_props \<Rightarrow> appliance_event \<Rightarrow> appliance_modal \<Rightarrow> appliance_modal" where
  "applianceModal_on p ev m =
     (case ev of
        ApplianceType s \<Rightarrow> applianceModal_type s m
      | ApplianceExclude b \<Rightarrow> applianceModal_exclude b m
      | AppliancePick d \<Rightarrow> (if \<not> ap_loading m \<and> d \<in> set (ap_devices m) then applianceModal_pick d m else m)
      | ApplianceLoaded r \<Rightarrow> applianceModal_loaded p r m
      | ApplianceFailed msg \<Rightarrow> m\<lparr>ap_error := Some msg, ap_saving := False\<rparr>)"

text \<open>The fields of the dialog, and a row of its list with the colours of its border and background.\<close>

definition applianceModal_nameField :: "appliance_modal \<Rightarrow> form_field" where
  "applianceModal_nameField m = \<lparr>ff_label = ''Appliance name'', ff_placeholder = ''e.g. Dishwasher'', ff_value = ap_name m\<rparr>"

definition applianceModal_excludeField :: "appliance_modal \<Rightarrow> string \<times> string \<times> bool" where
  "applianceModal_excludeField m =
     (''Exclude from scheduling'', ''For appliances like a hob or oven that can't be deferred.'', ap_exclude m)"

definition applianceRow :: "appliance_modal \<Rightarrow> endpoint \<Rightarrow> string \<times> string" where
  "applianceRow m d =
     (if map_option address (ap_selected m) = Some (ident d) then (''#3b82f6'', ''#eff6ff'') else (''#e2e8f0'', ''#fff''))"

inductive appliance_run :: "edit_props \<Rightarrow> endpoint list \<Rightarrow> appliance_modal \<Rightarrow> bool" for p es where
  opened: "appliance_run p es (applianceModal_open p)"
| acted: "appliance_run p es m \<Longrightarrow> (\<And>x. ev = ApplianceLoaded (Inr x) \<Longrightarrow> x = es)
    \<Longrightarrow> appliance_run p es (applianceModal_on p ev m)"

lemma appliance_run_listed:
  "appliance_run p es m \<Longrightarrow> ident ` set (ap_devices m) \<subseteq> listed (ep_initialSelected p) es
     \<and> address ` set_option (ap_selected m) \<subseteq> listed (ep_initialSelected p) es"
proof (induction rule: appliance_run.induct)
  case opened
  show ?case by (auto simp: applianceModal_open_def Let_def listed_def)
next
  case (acted m ev)
  show ?case
  proof (cases ev)
    case (AppliancePick d)
    then show ?thesis using acted.IH by (auto simp: applianceModal_on_def applianceModal_pick_def Let_def)
  next
    case (ApplianceLoaded r)
    then show ?thesis using acted.IH acted.hyps(2) withConfigured_listed [of "ep_initialSelected p" es]
      by (auto simp: applianceModal_on_def applianceModal_loaded_def split: sum.split)
  qed (use acted.IH in \<open>simp_all add: applianceModal_on_def applianceModal_type_def applianceModal_exclude_def\<close>)
qed

end
