(* ===== verification/PickerSession.thy ===== *)
theory PickerSession
  imports HomeSession EditDialog PickerDialogs
begin

text \<open>
  Who owns a metered endpoint.  The server lists only endpoints that no node of the graph has, and
  every dialog that assigns one offers that list and the endpoint it was opened with.  A dialog is
  opened, used and saved on a store that does not change meanwhile.
\<close>

section \<open>The endpoint of a node\<close>

definition ep_of :: "saved_node \<Rightarrow> (nat \<times> nat) option" where
  "ep_of n = (case (opt_field s_nodeId (n_settings n), opt_field s_endpointId (n_settings n)) of
     (Some a, Some b) \<Rightarrow> Some (a, b) | _ \<Rightarrow> None)"

lemma ep_of_Some: "ep_of n = Some (a, b) \<longleftrightarrow>
    opt_field s_nodeId (n_settings n) = Some a \<and> opt_field s_endpointId (n_settings n) = Some b"
  by (auto simp: ep_of_def split: option.splits)

lemma inUse_ep_of: "inUse ns = List.map_filter ep_of ns"
  by (simp add: inUse_def ep_of_def [abs_def])

lemma inUse_simps [simp]:
  "inUse [] = []" "inUse (n # ns) = (case ep_of n of None \<Rightarrow> inUse ns | Some p \<Rightarrow> p # inUse ns)"
  by (simp_all add: inUse_ep_of map_filter_def split: option.split)

lemma inUse_iff: "p \<in> set (inUse ns) \<longleftrightarrow> (\<exists>n\<in>set ns. ep_of n = Some p)"
  by (induction ns) (auto split: option.splits)

lemma distinct_inUse:
  "distinct (map n_id ns) \<Longrightarrow> distinct (inUse ns) \<longleftrightarrow>
     (\<forall>n\<in>set ns. \<forall>m\<in>set ns. \<forall>p. ep_of n = Some p \<longrightarrow> ep_of m = Some p \<longrightarrow> n_id n = n_id m)"
proof (induction ns)
  case (Cons n ns)
  then have ih: "distinct (inUse ns) \<longleftrightarrow> (\<forall>n\<in>set ns. \<forall>m\<in>set ns. \<forall>p. ep_of n = Some p \<longrightarrow> ep_of m = Some p \<longrightarrow> n_id n = n_id m)"
    and new: "\<forall>m\<in>set ns. n_id n \<noteq> n_id m" by auto
  show ?case
  proof (cases "ep_of n")
    case (Some p)
    have "p \<notin> set (inUse ns) \<longleftrightarrow> (\<forall>m\<in>set ns. ep_of m = Some p \<longrightarrow> n_id n = n_id m)"
      unfolding inUse_iff using new by blast
    moreover have "(\<forall>x\<in>set (n # ns). \<forall>y\<in>set (n # ns). \<forall>q. ep_of x = Some q \<longrightarrow> ep_of y = Some q \<longrightarrow> n_id x = n_id y) \<longleftrightarrow>
        (\<forall>m\<in>set ns. ep_of m = Some p \<longrightarrow> n_id n = n_id m) \<and>
        (\<forall>x\<in>set ns. \<forall>y\<in>set ns. \<forall>q. ep_of x = Some q \<longrightarrow> ep_of y = Some q \<longrightarrow> n_id x = n_id y)"
      using Some by (cases p) (simp add: eq_commute [of "n_id _" "n_id n"], blast)
    ultimately show ?thesis using Some ih by simp
  qed (simp add: ih)
qed simp

definition free_for :: "nat \<times> nat \<Rightarrow> string \<Rightarrow> saved_node list \<Rightarrow> bool" where
  "free_for p i ns \<longleftrightarrow> (\<forall>m\<in>set ns. ep_of m = Some p \<longrightarrow> n_id m = i)"

text \<open>Node \<open>i\<close> gets the endpoint \<open>c\<close>; every other node keeps its own.\<close>

definition claims_at :: "string \<Rightarrow> (nat \<times> nat) option \<Rightarrow> saved_node list \<Rightarrow> saved_node list \<Rightarrow> bool" where
  "claims_at i c ns ns' \<longleftrightarrow>
     (\<forall>n\<in>set ns'. (\<exists>m\<in>set ns. n_id m = n_id n \<and> ep_of m = ep_of n) \<or> n_id n = i \<and> ep_of n = c)"

lemma claims_keep:
  assumes "distinct (map n_id ns)" "distinct (map n_id ns')" and "distinct (inUse ns)"
    and "claims_at i c ns ns'" and "\<And>p. c = Some p \<Longrightarrow> free_for p i ns"
  shows "distinct (inUse ns')"
  unfolding distinct_inUse [OF assms(2)]
proof (intro ballI allI impI)
  fix n m p assume n: "n \<in> set ns'" "ep_of n = Some p" and m: "m \<in> set ns'" "ep_of m = Some p"
  note own = assms(3) [unfolded distinct_inUse [OF assms(1)]]
  have "(\<exists>k\<in>set ns. n_id k = n_id x \<and> ep_of k = Some p) \<or> n_id x = i \<and> c = Some p" if "x \<in> set ns'" "ep_of x = Some p" for x
    using assms(4) that unfolding claims_at_def by metis
  from this [OF n] this [OF m] show "n_id n = n_id m"
    using own assms(5) unfolding free_for_def by metis
qed

lemma claims_mono: "claims_at i c ns ns' \<Longrightarrow> claims_at i c ns' ns'' \<Longrightarrow> claims_at i c ns ns''"
  unfolding claims_at_def by metis

section \<open>What the requests claim\<close>

lemma claims_refl [simp]: "claims_at i c ns ns"
  by (auto simp: claims_at_def)

lemma claims_subset: "set ns' \<subseteq> set ns \<Longrightarrow> claims_at i c ns ns'"
  by (auto simp: claims_at_def)

lemma claims_update_first:
  assumes "\<And>n. n_id (f n) = n_id n"
    and "\<And>n. n \<in> set ns \<Longrightarrow> n_id n = i \<Longrightarrow> ep_of (f n) = c \<or> ep_of (f n) = ep_of n"
  shows "claims_at i c ns (update_first (\<lambda>n. n_id n = i) f ns)"
  using assms(2)
proof (induction ns)
  case (Cons n ns)
  then have "claims_at i c ns (update_first (\<lambda>n. n_id n = i) f ns)" by simp
  with Cons.prems [of n] show ?case by (auto simp: claims_at_def assms(1))
qed simp

lemma claims_snoc: "n_id n = i \<Longrightarrow> ep_of n = c \<Longrightarrow> claims_at i c ns (ns @ [n])"
  by (auto simp: claims_at_def)

definition settings_ep :: "settings \<Rightarrow> (nat \<times> nat) option" where
  "settings_ep s = (case (s_nodeId s, s_endpointId s) of (Some a, Some b) \<Rightarrow> Some (a, b) | _ \<Rightarrow> None)"

lemma ep_of_settings: "n_settings n = Some s \<Longrightarrow> ep_of n = settings_ep s"
  by (simp add: ep_of_def settings_ep_def)

lemma ep_of_config [simp]: "ep_of (config i x y s) = settings_ep s" "n_id (config i x y s) = i"
  by (simp_all add: ep_of_def settings_ep_def config_def)

lemma ep_of_moved [simp]: "ep_of (n\<lparr>n_x := x, n_y := y\<rparr>) = ep_of n" "ep_of (n\<lparr>n_x := x, n_y := y, n_settings := Some s\<rparr>) = settings_ep s"
  "ep_of (n\<lparr>n_settings := Some s\<rparr>) = settings_ep s" "ep_of (n\<lparr>n_settings := Some s, n_x := x, n_y := y\<rparr>) = settings_ep s"
  by (simp_all add: ep_of_def settings_ep_def)

lemma settings_ep_device [simp]: "settings_ep (device_settings l ty a b) = Some (a, b)"
  by (simp add: settings_ep_def device_settings_def)

lemma settings_ep_none [simp]: "settings_ep no_settings = None"
  by (simp add: settings_ep_def no_settings_def)

lemma claims_upsert: "claims_at i (settings_ep s) ns (upsertNode i x y s ns)"
  by (auto simp: upsertNode_def intro!: claims_update_first claims_snoc)

lemma claims_put_node: "claims_at i (settings_ep s) ns (putNode i x y (Some s) ns)"
  by (auto simp: putNode_def intro!: claims_update_first claims_snoc)

lemma claims_put_position: "claims_at i None ns (putNode i x y None ns)"
  by (auto simp: putNode_def intro!: claims_update_first claims_snoc)

lemma merge_device:
  "s_nodeId (settings_merge a b) = or_else (s_nodeId b) (s_nodeId a)"
  "s_endpointId (settings_merge a b) = or_else (s_endpointId b) (s_endpointId a)"
  by (simp_all add: settings_merge_def)

lemma ep_default: "ep_of n = settings_ep (default_to no_settings (n_settings n))"
  by (cases "n_settings n") (simp_all add: ep_of_def settings_ep_def no_settings_def)

text \<open>New settings with a whole device claim it; settings without one leave the stored device.\<close>

lemma claims_put_settings:
  assumes "s_nodeId s = None \<longleftrightarrow> s_endpointId s = None"
  shows "claims_at i (settings_ep s) ns (putSettings i s ns)"
proof -
  have "settings_ep (settings_merge t s) = settings_ep s \<or> settings_ep (settings_merge t s) = settings_ep t" for t
    using assms by (auto simp: settings_ep_def merge_device or_else_def split: option.splits)
  then have "claims_at i (settings_ep s) ns (update_first (\<lambda>n. n_id n = i)
      (\<lambda>n. n\<lparr>n_settings := Some (settings_merge (default_to no_settings (n_settings n)) s)\<rparr>) ns)"
    by (intro claims_update_first) (simp_all add: ep_default)
  moreover have "claims_at i (settings_ep s) ns (ns @ [config i 0 0 s])" by (rule claims_snoc) simp_all
  ultimately show ?thesis by (simp add: putSettings_def)
qed

section \<open>The dialogs that assign an endpoint\<close>

text \<open>
  A dialog opened with \<open>p\<close> that was answered the list \<open>es\<close>: what it has chosen was listed, or is what
  it was opened with.
\<close>

locale endpoint_dialog =
  fixes state :: "'p \<Rightarrow> endpoint list \<Rightarrow> 'm \<Rightarrow> bool" and current :: "'p \<Rightarrow> (nat \<times> nat) option"
    and choice :: "'p \<Rightarrow> 'm \<Rightarrow> (nat \<times> nat) option"
  assumes offered: "state p es m \<Longrightarrow> choice p m = Some c \<Longrightarrow> c \<in> ident ` set es \<or> current p = Some c"
begin

lemma choice_free:
  assumes "state p (offeredEndpoints ty sv) m" and "choice p m = Some c"
    and "current p = Some c \<Longrightarrow> free_for c i (sv_nodes sv)"
  shows "free_for c i (sv_nodes sv)"
proof (cases "current p = Some c")
  case False
  then obtain e where e: "e \<in> set (offeredEndpoints ty sv)" "c = ident e" using offered [OF assms(1,2)] by auto
  then have "(en_nodeId e, en_endpointId e) \<notin> set (inUse (sv_nodes sv))"
    using offered_iff [of ty sv "en_nodeId e" "en_endpointId e"] by auto
  then show ?thesis using e(2) by (auto simp: free_for_def inUse_iff)
qed (rule assms(3))

end

inductive edit_state :: "string \<times> settings \<times> bool \<Rightarrow> endpoint list \<Rightarrow> edit_modal \<Rightarrow> bool" for p es where
  opened: "edit_state p es (editModal_open (fst (snd p)) (snd (snd p)))"
| acted: "edit_state p es m \<Longrightarrow> (\<And>x. ev = EditLoaded (Some x) \<Longrightarrow> x = es)
    \<Longrightarrow> editModal_on (fst p) (fst (snd p)) (snd (snd p)) ev m = (Inl m', rs) \<Longrightarrow> edit_state p es m'"

abbreviation so_address :: "sensor_option \<Rightarrow> nat \<times> nat" where
  "so_address s \<equiv> (so_nodeId s, so_endpointId s)"

lemma editModal_save_sensors: "editModal_save i s h m = (m', r) \<Longrightarrow> em_sensors m' = em_sensors m"
  by (auto simp: editModal_save_def split: if_splits)

lemma edit_loaded_sensors:
  "so_address ` set (em_sensors (editModal_loaded s h (Some es) m)) \<subseteq>
      so_address ` set (em_sensors m) \<union> ident ` set es \<union> so_address ` set_option (currentSensor s h)"
  "em_sensors (editModal_loaded s h None m) = em_sensors m"
  by (auto simp: editModal_loaded_def Let_def list_of_opt_def split: option.splits)

lemma edit_other_sensors:
  assumes "editModal_on i s h ev m = (Inl m', rs)" and "\<And>r. ev \<noteq> EditLoaded r"
  shows "em_sensors m' = em_sensors m"
proof (cases "editModal_save i s h m")
  case (Pair m1 r1)
  note editModal_save_sensors [OF Pair]
  with assms Pair show ?thesis
    by (cases ev) (auto simp: editModal_on_def editModal_saved_def split: if_splits)
qed

lemma edit_state_listed:
  "edit_state p es m \<Longrightarrow> so_address ` set (em_sensors m) \<subseteq>
     ident ` set es \<union> so_address ` set_option (currentSensor (fst (snd p)) (snd (snd p)))"
proof (induction rule: edit_state.induct)
  case opened
  show ?case by (auto simp: editModal_open_def Let_def list_of_opt_def split: option.split)
next
  case (acted m ev m' rs)
  show ?case
  proof (cases "\<exists>r. ev = EditLoaded r")
    case False
    then show ?thesis using edit_other_sensors [OF acted.hyps(3)] acted.IH by simp
  next
    case True
    then obtain r where r: "ev = EditLoaded r" by blast
    then have m': "m' = editModal_loaded (fst (snd p)) (snd (snd p)) r m"
      using acted.hyps(3) by (simp add: editModal_on_def Let_def case_prod_beta)
    show ?thesis
    proof (cases r)
      case None
      then show ?thesis using acted.IH by (simp add: m' edit_loaded_sensors(2))
    next
      case (Some x)
      then have "x = es" using acted.hyps(2) r by blast
      then show ?thesis using Some edit_loaded_sensors(1) [of "fst (snd p)" "snd (snd p)" es m] acted.IH
        unfolding m' by blast
    qed
  qed
qed

interpretation add_dialog: endpoint_dialog "\<lambda>_::unit. add_run" "\<lambda>_. None" "\<lambda>_ m. map_option so_address (addModal_selected m)"
  by unfold_locales (use add_run_selected in fastforce)

interpretation role_dialog: endpoint_dialog role_run "\<lambda>p. map_option address (snd p)" "\<lambda>_ m. map_option address (rp_selected m)"
  by unfold_locales (use role_run_listed in \<open>fastforce simp: listed_def\<close>)

interpretation appliance_dialog: endpoint_dialog appliance_run "\<lambda>p. map_option address (ep_initialSelected p)"
    "\<lambda>_ m. map_option address (ap_selected m)"
  by unfold_locales (use appliance_run_listed in \<open>fastforce simp: listed_def\<close>)

interpretation edit_dialog: endpoint_dialog edit_state "\<lambda>p. map_option so_address (currentSensor (fst (snd p)) (snd (snd p)))"
    "\<lambda>_ m. map_option so_address (editModal_selected m)"
proof unfold_locales
  fix p es m c assume "edit_state p es m" and "map_option so_address (editModal_selected m) = Some c"
  then obtain s where s: "editModal_selected m = Some s" "c = so_address s" by auto
  then have "s \<in> set (em_sensors m)" using sensors.find_key_only unfolding editModal_selected_def by blast
  then show "c \<in> ident ` set es \<or> map_option so_address (currentSensor (fst (snd p)) (snd (snd p))) = Some c"
    using edit_state_listed [OF \<open>edit_state p es m\<close>] s(2) by (cases "currentSensor (fst (snd p)) (snd (snd p))") auto
qed

section \<open>The parts of an inverter\<close>

text \<open>The node a metered part of an inverter becomes, as \<open>solarChildren\<close> names it.\<close>

definition part_id :: "device_endpoint list \<Rightarrow> nat \<Rightarrow> string" where
  "part_id eps c =
     (case find (\<lambda>e. de_endpointId e = c) eps of
        Some e \<Rightarrow> if POWER_SOURCE_DT \<in> set (de_deviceTypes e) then ''battery_'' @ dec c else ''pv_string_'' @ dec c
      | None \<Rightarrow> [])"

definition parts_free :: "nat \<Rightarrow> device_endpoint list \<Rightarrow> nat list \<Rightarrow> saved_node list \<Rightarrow> bool" where
  "parts_free nid eps cs ns \<longleftrightarrow> list_all (\<lambda>c. free_for (nid, c) (part_id eps c) ns) cs"

lemma parts_free_upsert:
  assumes "parts_free nid eps cs ns" and "distinct (map n_id ns)"
  shows "parts_free nid eps cs (upsertNode (part_id eps c) x y (device_settings l ty nid c) ns)"
  unfolding parts_free_def list_all_iff free_for_def
proof (intro ballI impI)
  fix d m assume d: "d \<in> set cs" and m: "m \<in> set (upsertNode (part_id eps c) x y (device_settings l ty nid c) ns)" "ep_of m = Some (nid, d)"
  then have "(\<exists>k\<in>set ns. n_id k = n_id m \<and> ep_of k = ep_of m) \<or> n_id m = part_id eps c \<and> ep_of m = Some (nid, c)"
    using claims_upsert [of "part_id eps c" "device_settings l ty nid c" ns x y] unfolding claims_at_def settings_ep_device
    by blast
  then show "n_id m = part_id eps d"
    using assms(1) d m(2) unfolding parts_free_def list_all_iff free_for_def by force
qed

lemma upsert_owned_once:
  assumes "distinct (map n_id ns)" "distinct (inUse ns)" "free_for (a, b) i ns"
  shows "distinct (inUse (upsertNode i x y (device_settings l ty a b) ns))"
proof (rule claims_keep [OF assms(1) _ assms(2) claims_upsert])
  show "distinct (map n_id (upsertNode i x y (device_settings l ty a b) ns))"
    using distinct_upserted [OF assms(1) upsertNode_ids] .
qed (use assms(3) in simp)

lemma solarChildren_owned_once:
  assumes "distinct (map n_id (sv_nodes sv))" "distinct (inUse (sv_nodes sv))" "parts_free nid eps cs (sv_nodes sv)"
  shows "distinct (inUse (sv_nodes (solarChildren nid pos eps cs k sv)))"
  using assms
proof (induction cs arbitrary: k sv)
  case (Cons c cs)
  have rest: "parts_free nid eps cs (sv_nodes sv)" and c: "free_for (nid, c) (part_id eps c) (sv_nodes sv)"
    using Cons.prems(3) by (simp_all add: parts_free_def)
  show ?case
  proof (cases "find (\<lambda>e. de_endpointId e = c) eps")
    case (Some e)
    define i where "i = part_id eps c"
    have step: "distinct (inUse (sv_nodes (solarChildren nid pos eps cs k' (sv\<lparr>sv_nodes := upsertNode i x y (device_settings l ty nid c) (sv_nodes sv), sv_edges := es\<rparr>))))"
      for x y l ty es k'
      using Cons.prems(1,2) rest c i_def
      by (intro Cons.IH) (auto intro: distinct_upserted [OF _ upsertNode_ids] upsert_owned_once parts_free_upsert)
    have i: "i = (if POWER_SOURCE_DT \<in> set (de_deviceTypes e) then ''battery_'' @ dec c else ''pv_string_'' @ dec c)"
      using Some by (simp add: i_def part_id_def)
    show ?thesis
    proof (cases "POWER_SOURCE_DT \<in> set (de_deviceTypes e)")
      case True
      with i have "i = ''battery_'' @ dec c" by simp
      with True show ?thesis using step Some by (simp add: Let_def)
    next
      case False
      with i have "i = ''pv_string_'' @ dec c" by simp
      with False show ?thesis using step Cons.IH [OF Cons.prems(1,2) rest] Some by (simp add: Let_def)
    qed
  qed (use Cons rest in simp)
qed simp

lemma putSolar_owned_once:
  assumes "distinct (map n_id (sv_nodes sv))" "distinct (inUse (sv_nodes sv))" and "free_for (a, b) ''solar_inverter'' (sv_nodes sv)"
    and "solarParts a b (sv_devices sv) = (eps, cs)" "b \<notin> set cs" "parts_free a eps cs (sv_nodes sv)"
  shows "distinct (inUse (sv_nodes (putSolar a b label sv)))"
proof -
  have parts: "parts_free a eps cs (upsertNode ''solar_inverter'' x y (device_settings l ty a b) (sv_nodes sv))" for x y l ty
    unfolding parts_free_def list_all_iff free_for_def
  proof (intro ballI impI)
    fix c m assume c: "c \<in> set cs"
      and m: "m \<in> set (upsertNode ''solar_inverter'' x y (device_settings l ty a b) (sv_nodes sv))" "ep_of m = Some (a, c)"
    have "(\<exists>k\<in>set (sv_nodes sv). n_id k = n_id m \<and> ep_of k = ep_of m) \<or> ep_of m = Some (a, b)"
      using claims_upsert [of "''solar_inverter''" "device_settings l ty a b" "sv_nodes sv" x y] m(1)
      unfolding claims_at_def settings_ep_device by blast
    then show "n_id m = part_id eps c"
      using assms(5,6) c m(2) unfolding parts_free_def list_all_iff free_for_def by force
  qed
  show ?thesis unfolding putSolar_def
    using assms(1,2,3) parts
    by (simp add: Let_def case_prod_beta assms(4) solarChildren_owned_once upsert_owned_once
        distinct_upserted [OF _ upsertNode_ids])
qed

section \<open>The session\<close>

text \<open>Requests that give no node an endpoint.\<close>

fun claims_nothing :: "request \<Rightarrow> bool" where
  "claims_nothing (PutNode i x y (Some s)) \<longleftrightarrow> settings_ep s = None"
| "claims_nothing (PutSettings i s) \<longleftrightarrow> s_nodeId s = None \<and> s_endpointId s = None"
| "claims_nothing (PutRole r a b l) \<longleftrightarrow> False"
| "claims_nothing _ \<longleftrightarrow> True"

abbreviation sensors_offered :: "server \<Rightarrow> endpoint list" where
  "sensors_offered \<equiv> offeredEndpoints ELECTRICAL_SENSOR_DEVICE_TYPE_ID"

text \<open>
  What the dialogs do to the store.  The edit dialog is opened on a node of a canvas that shows the
  store, the dialogs of the Home page on the page as it was loaded from the store.  Of the requests
  of an appliance those that fail (\<open>fails\<close>) leave no trace.  An inverter is assigned with the parts
  that are free; \<open>mock_inverter_claims_again\<close> below shows what happens otherwise.
\<close>

inductive picker_step :: "server \<Rightarrow> server \<Rightarrow> bool" where
  load_added: "add_run (sensors_offered sv) m \<Longrightarrow> addModal_save m = Some l
    \<Longrightarrow> picker_step sv (serveAll (requests (snd (handleAddLoad toFlow l cv))) sv)"
| node_edited: "reloads_alike True cv sv \<Longrightarrow> n \<in> set (cv_nodes cv) \<Longrightarrow> c_id n \<in> server_nodes sv
    \<Longrightarrow> edit_state (c_id n, editSettings n, hasDevice_of n) (sensors_offered sv) m
    \<Longrightarrow> editModal_save (c_id n) (editSettings n) (hasDevice_of n) m = (m', Some q)
    \<Longrightarrow> picker_step sv (serve q sv)"
| role_assigned: "h = reload sv initial_home
    \<Longrightarrow> (r, initial) \<in> {(Pickers.GridSensorModal, hm_gridSensor h), (Pickers.TariffModal, hm_tariff h)}
    \<Longrightarrow> role_run (r, initial) (offeredEndpoints (rl_deviceType r) sv) p
    \<Longrightarrow> rolePicker_save (rl_role r) p = (p', Some q) \<Longrightarrow> picker_step sv (serve q sv)"
| inverter_assigned: "role_run (Pickers.SolarInverterModal, hm_solarInverter (reload sv initial_home))
      (offeredEndpoints (rl_deviceType Pickers.SolarInverterModal) sv) p
    \<Longrightarrow> rolePicker_save ''solar'' p = (p', Some (PutRole ''solar'' a b label))
    \<Longrightarrow> solarParts a b (sv_devices sv) = (eps, cs) \<Longrightarrow> b \<notin> set cs \<Longrightarrow> parts_free a eps cs (sv_nodes sv)
    \<Longrightarrow> picker_step sv (serve (PutRole ''solar'' a b label) sv)"
| appliance_saved: "p = editProps slot (reload sv initial_home) \<Longrightarrow> appliance_run p (sensors_offered sv) m
    \<Longrightarrow> applianceModal_save fails p m = (res, reqs)
    \<Longrightarrow> picker_step sv (serveAll (filter (\<lambda>r. fails r = None) reqs) sv)"
| other: "claims_nothing r \<Longrightarrow> picker_step sv (serve r sv)"

definition owned_once :: "server \<Rightarrow> bool" where
  "owned_once sv \<longleftrightarrow> store_ok sv \<and> distinct (inUse (sv_nodes sv))"

lemma owned_once_claim:
  assumes "owned_once sv" and "store_ok sv'" and "claims_at i c (sv_nodes sv) (sv_nodes sv')"
    and "\<And>p. c = Some p \<Longrightarrow> free_for p i (sv_nodes sv)"
  shows "owned_once sv'"
  using claims_keep [of "sv_nodes sv" "sv_nodes sv'" i c] assms by (simp add: owned_once_def store_ok_def)

lemma owned_once_nothing:
  assumes "owned_once sv" and "claims_nothing r"
  shows "owned_once (serve r sv)"
proof -
  have "\<exists>i. claims_at i None (sv_nodes sv) (sv_nodes (serve r sv))"
  proof (cases r)
    case (PutNode i x y s)
    then show ?thesis using assms(2) claims_put_node [of i _ "sv_nodes sv" x y] claims_put_position [of i "sv_nodes sv" x y]
      by (cases s) (auto simp: serve_def intro: exI [of _ i], metis)
  next
    case (PutSettings i s)
    then have "settings_ep s = None" using assms(2) by (simp add: settings_ep_def)
    then show ?thesis using PutSettings assms(2) claims_put_settings [of s i "sv_nodes sv"] by (auto simp: serve_def)
  qed (use assms(2) in \<open>auto simp: serve_def deleteNode_def deleteEdge_def intro!: claims_subset\<close>)
  then show ?thesis using owned_once_claim [OF assms(1)] assms(1) store_ok_serve by (fastforce simp: owned_once_def)
qed

section \<open>Every dialog claims what is free\<close>

lemma stored_free: "owned_once sv \<Longrightarrow> n \<in> set (sv_nodes sv) \<Longrightarrow> ep_of n = Some p \<Longrightarrow> free_for p (n_id n) (sv_nodes sv)"
  unfolding owned_once_def store_ok_def free_for_def using distinct_inUse by metis

lemma load_added_owned:
  assumes "owned_once sv" and "add_run (sensors_offered sv) m" and "addModal_save m = Some l"
  shows "owned_once (serveAll (requests (snd (handleAddLoad toFlow l cv))) sv)"
proof (cases "cv_pendingLoadPos cv")
  case (Some pos)
  obtain i x y s where r: "requests (snd (handleAddLoad toFlow l cv)) = [PutNode i x y (Some s)]"
    and s: "s_nodeId s = Some (al_nodeId l)" "s_endpointId s = Some (al_endpointId l)"
    using Some by (auto simp: handleAddLoad_def insertNode_def Let_def)
  obtain d where d: "addModal_selected m = Some d" "so_nodeId d = al_nodeId l" "so_endpointId d = al_endpointId l"
    using assms(3) by (auto simp: addModal_save_def split: option.splits)
  have "free_for (al_nodeId l, al_endpointId l) i (sv_nodes sv)"
    using add_dialog.choice_free [OF assms(2), where c = "(al_nodeId l, al_endpointId l)" and i = i] d by simp
  then have "owned_once (serve (PutNode i x y (Some s)) sv)"
    using owned_once_claim [OF assms(1), of "serve (PutNode i x y (Some s)) sv" i "settings_ep s"]
      store_ok_serve [of sv "PutNode i x y (Some s)"] assms(1) s claims_put_node [of i s "sv_nodes sv" x y]
    by (simp add: owned_once_def serve_def settings_ep_def)
  then show ?thesis by (simp add: r)
qed (use assms(1) in \<open>simp add: handleAddLoad_def\<close>)

text \<open>Settings that repeat the device of the stored node claim nothing new.\<close>

lemma claims_put_same:
  assumes "has_node i ns"
    and "\<And>n. n \<in> set ns \<Longrightarrow> n_id n = i \<Longrightarrow> s_nodeId s = opt_field s_nodeId (n_settings n) \<and> s_endpointId s = opt_field s_endpointId (n_settings n)"
  shows "claims_at i None ns (putSettings i s ns)"
proof -
  have "settings_ep (settings_merge (default_to no_settings (n_settings n)) s) = ep_of n" if "n \<in> set ns" "n_id n = i" for n
    using assms(2) [OF that] by (cases "n_settings n") (simp_all add: settings_ep_def merge_device or_else_def ep_of_def no_settings_def split: option.split)
  then have "claims_at i None ns (update_first (\<lambda>n. n_id n = i)
      (\<lambda>n. n\<lparr>n_settings := Some (settings_merge (default_to no_settings (n_settings n)) s)\<rparr>) ns)"
    by (intro claims_update_first) simp_all
  with assms(1) show ?thesis by (simp add: putSettings_def)
qed

lemma editSettings_device:
  assumes "keeps_stored True n s"
  shows "s_nodeId (editSettings n) = opt_field s_nodeId s" "s_endpointId (editSettings n) = opt_field s_endpointId s"
  using assms by (auto simp: keeps_stored_def all_of_def editSettings_def Let_def split: option.split)

lemma node_edited_owned:
  assumes ok: "owned_once sv" and alike: "reloads_alike True cv sv" and n: "n \<in> set (cv_nodes cv)" "c_id n \<in> server_nodes sv"
    and st: "edit_state (c_id n, editSettings n, hasDevice_of n) (sensors_offered sv) m"
    and save: "editModal_save (c_id n) (editSettings n) (hasDevice_of n) m = (m', Some q)"
  shows "owned_once (serve q sv)"
proof -
  let ?s = "editSettings n" and ?h = "hasDevice_of n" and ?i = "c_id n"
  obtain sn where sn: "sn \<in> set (sv_nodes sv)" "n_id sn = ?i" using n(2) by (auto simp: server_nodes_def)
  have ids: "distinct (map n_id (sv_nodes sv))" using ok by (simp add: owned_once_def store_ok_def)
  have keeps: "s_nodeId ?s = opt_field s_nodeId (n_settings k) \<and> s_endpointId ?s = opt_field s_endpointId (n_settings k)"
    if "k \<in> set (sv_nodes sv)" "n_id k = ?i" for k
    using editSettings_device [of n "n_settings k"] alike n(1) that unfolding reloads_alike_def by auto
  have q: "q = PutSettings ?i (nextSettings ?s ?h m)" using save by (simp add: editModal_save_def split: if_splits)
  have serve: "owned_once (serve q sv)" if "claims_at ?i c (sv_nodes sv) (putSettings ?i (nextSettings ?s ?h m) (sv_nodes sv))"
    "\<And>p. c = Some p \<Longrightarrow> free_for p ?i (sv_nodes sv)" for c
    using owned_once_claim [OF ok, of "serve q sv" ?i c] store_ok_serve [of sv q] ok that by (simp add: owned_once_def q serve_def)
  show ?thesis
  proof (cases "?h \<and> editModal_selected m \<noteq> None")
    case True
    then obtain d where d: "?h" "editModal_selected m = Some d" by auto
    then have nx: "s_nodeId (nextSettings ?s ?h m) = Some (so_nodeId d)" "s_endpointId (nextSettings ?s ?h m) = Some (so_endpointId d)"
      by (simp_all add: nextSettings_def)
    have "free_for (so_address d) ?i (sv_nodes sv)" if "map_option so_address (currentSensor ?s ?h) = Some (so_address d)"
    proof -
      have "s_nodeId ?s = Some (so_nodeId d)" "s_endpointId ?s = Some (so_endpointId d)"
        using that by (auto simp: currentSensor_def split: option.splits if_splits)
      then have "ep_of sn = Some (so_address d)" using keeps [OF sn] by (simp add: ep_of_Some)
      then show ?thesis using stored_free [OF ok sn(1)] sn(2) by simp
    qed
    then have "free_for (so_address d) ?i (sv_nodes sv)"
      using edit_dialog.choice_free [OF st, where c = "so_address d" and i = ?i] d(2) by simp
    moreover have "settings_ep (nextSettings ?s ?h m) = Some (so_address d)" using nx by (simp add: settings_ep_def)
    ultimately show ?thesis
      using serve [OF claims_put_settings [of "nextSettings ?s ?h m" ?i "sv_nodes sv"]] nx by simp
  next
    case False
    then have "nextSettings ?s ?h m = ?s\<lparr>s_label := Some (trim (em_name m))\<rparr>"
      by (auto simp: nextSettings_def split: bool.split)
    then have "claims_at ?i None (sv_nodes sv) (putSettings ?i (nextSettings ?s ?h m) (sv_nodes sv))"
      using sn by (intro claims_put_same) (auto simp: has_node_def dest: keeps)
    then show ?thesis using serve by blast
  qed
qed

lemma role_initial_stored:
  assumes "roleDevice i b1 b2 (home_nodes sv) None = Some d"
  shows "\<exists>n\<in>set (sv_nodes sv). n_id n = i \<and> ep_of n = Some (address d)"
proof -
  obtain n where n: "find (\<lambda>n. hn_id n = i) (home_nodes sv) = Some n"
    and d: "opt_field s_nodeId (hn_settings n) = Some (sd_nodeId d)" "opt_field s_endpointId (hn_settings n) = Some (sd_endpointId d)"
    using assms unfolding roleDevice_def by (cases "find (\<lambda>n. hn_id n = i) (home_nodes sv)") (auto split: option.splits if_splits)
  obtain k where "k \<in> set (sv_nodes sv)" "n = home_node_of k" "hn_id n = i" using find_SomeD [OF n] by (elim conjE) (simp only: set_map, blast)
  with d show ?thesis by (intro bexI [of _ k]) (auto simp: home_node_of_def ep_of_Some)
qed

lemma role_choice_free:
  assumes "owned_once sv" and "role_run (r, roleDevice i b1 b2 (home_nodes sv) None) (offeredEndpoints ty sv) p" and "rp_selected p = Some d"
  shows "free_for (address d) i (sv_nodes sv)"
proof (rule role_dialog.choice_free [OF assms(2)])
  show "map_option address (rp_selected p) = Some (address d)" using assms(3) by simp
next
  assume "map_option address (snd (r, roleDevice i b1 b2 (home_nodes sv) None)) = Some (address d)"
  then obtain e where "roleDevice i b1 b2 (home_nodes sv) None = Some e" "address e = address d" by auto
  then show "free_for (address d) i (sv_nodes sv)" using role_initial_stored stored_free [OF assms(1)] by metis
qed

lemma claims_grid: "claims_at ''grid_meter'' (Some (a, b)) (sv_nodes sv) (sv_nodes (serve (PutRole ''grid'' a b l) sv))"
  using claims_upsert [of "''grid_meter''" "device_settings l ''device'' a b"]
  by (simp add: serve_def putGrid_def Let_def case_prod_beta)

lemma claims_tariff: "claims_at ''tariff'' (Some (a, b)) (sv_nodes sv) (sv_nodes (serve (PutRole ''tariff'' a b l) sv))"
  by (auto simp: serve_def putTariff_def Let_def case_prod_beta intro: claims_mono [OF claims_subset claims_snoc])

lemma role_assigned_owned:
  assumes ok: "owned_once sv"
    and r: "(r, initial) \<in> {(Pickers.GridSensorModal, hm_gridSensor (reload sv initial_home)), (Pickers.TariffModal, hm_tariff (reload sv initial_home))}"
    and run: "role_run (r, initial) (offeredEndpoints (rl_deviceType r) sv) p" and save: "rolePicker_save (rl_role r) p = (p', Some q)"
  shows "owned_once (serve q sv)"
proof -
  obtain d where d: "rp_selected p = Some d" "q = PutRole (rl_role r) (sd_nodeId d) (sd_endpointId d) (sd_label d)"
    using save by (auto simp: rolePicker_save_def split: option.splits)
  have srv: "store_ok (serve q sv)" using ok store_ok_serve by (simp add: owned_once_def)
  from r consider "r = Pickers.GridSensorModal" "initial = hm_gridSensor (reload sv initial_home)"
    | "r = Pickers.TariffModal" "initial = hm_tariff (reload sv initial_home)" by blast
  then show ?thesis
  proof cases
    case 1
    then have "free_for (address d) ''grid_meter'' (sv_nodes sv)" using role_choice_free [OF ok _ d(1)] run by simp
    moreover have "rl_role r = ''grid''" using 1 by (simp add: Pickers.GridSensorModal_def)
    ultimately show ?thesis using owned_once_claim [OF ok srv] claims_grid d(2) by (metis option.inject)
  next
    case 2
    then have "free_for (address d) ''tariff'' (sv_nodes sv)" using role_choice_free [OF ok _ d(1)] run by simp
    moreover have "rl_role r = ''tariff''" using 2 by (simp add: Pickers.TariffModal_def)
    ultimately show ?thesis using owned_once_claim [OF ok srv] claims_tariff d(2) by (metis option.inject)
  qed
qed

text \<open>A slot that shows a load shows a node of the store.\<close>

lemma placed_subset:
  "set (somes (fst (foldl (placeStep S) st N))) \<union> set (snd (foldl (placeStep S) st N))
     \<subseteq> set (somes (fst st)) \<union> set (snd st) \<union> set (somes (map (slotOf S) N))"
proof (induction N arbitrary: st)
  case (Cons n N)
  have "set (somes (fst (placeStep S st n))) \<union> set (snd (placeStep S st n))
      \<subseteq> set (somes (fst st)) \<union> set (snd st) \<union> {a. Some a = slotOf S n}"
    by (auto simp: placeStep_def set_somes dest!: set_update_subset_insert [THEN subsetD] split: option.split)
  then show ?case using Cons.IH [of "placeStep S st n"] by (auto simp: set_somes)
qed simp

lemma fill_subset: "set (somes (foldl fillStep xs os)) \<subseteq> set (somes xs) \<union> set os"
proof (induction os arbitrary: xs)
  case (Cons x os)
  have "set (somes (fillStep xs x)) \<subseteq> insert x (set (somes xs))"
    by (auto simp: fillStep_def set_somes dest!: set_update_subset_insert [THEN subsetD] split: option.splits if_splits)
  then show ?case using Cons.IH [of "fillStep xs x"] by auto
qed simp

lemma slot_stored:
  assumes "k < length (applianceSlots (home_nodes sv) E)" and "applianceSlots (home_nodes sv) E ! k = Some a"
  shows "\<exists>n\<in>set (sv_nodes sv). n_id n = as_graphId a \<and> ep_of n = Some (address (as_device a))"
proof -
  let ?st = "foldl (placeStep (supplyIds E)) (replicate APPLIANCE_SLOTS None, []) (home_nodes sv)"
  have "a \<in> set (somes (applianceSlots (home_nodes sv) E))" using assms by (metis mem_Collect_eq nth_mem set_somes)
  then have "a \<in> set (somes (fst ?st)) \<union> set (snd ?st)"
    using fill_subset [of "fst ?st" "sort_key (\<lambda>o'. order (as_graphId o')) (snd ?st)"]
    by (auto simp: applianceSlots_def case_prod_beta)
  moreover have "set (somes (fst (replicate APPLIANCE_SLOTS None, []))) = {}" by (simp add: set_somes)
  ultimately have "a \<in> set (somes (map (slotOf (supplyIds E)) (home_nodes sv)))"
    using placed_subset [of "supplyIds E" "(replicate APPLIANCE_SLOTS None, [])" "home_nodes sv"] by auto
  then obtain n where n: "n \<in> set (sv_nodes sv)" "slotOf (supplyIds E) (home_node_of n) = Some a" by (auto simp: set_somes)
  then show ?thesis
    by (intro bexI [of _ n]) (auto simp: slotOf_def home_node_of_def ep_of_Some split: option.splits if_splits)
qed

lemma appliance_saved_owned:
  assumes ok: "owned_once sv" and p: "p = editProps slot (reload sv initial_home)"
    and run: "appliance_run p (sensors_offered sv) m" and save: "applianceModal_save fails p m = (res, reqs)"
  shows "owned_once (serveAll (filter (\<lambda>r. fails r = None) reqs) sv)"
proof (cases "ap_selected m")
  case None
  then show ?thesis using ok save by (simp add: applianceModal_save_def)
next
  case (Some d)
  let ?i = "ep_topologyNodeId p" and ?s = "applianceSettings p d m"
  have free: "free_for (address d) ?i (sv_nodes sv)"
  proof (rule appliance_dialog.choice_free [OF run])
    show "map_option address (ap_selected m) = Some (address d)" using Some by simp
  next
    assume "map_option address (ep_initialSelected p) = Some (address d)"
    then obtain a where a: "slot < length (applianceSlots (home_nodes sv) (sv_edges sv))"
      "applianceSlots (home_nodes sv) (sv_edges sv) ! slot = Some a" "address (as_device a) = address d" "?i = as_graphId a"
      unfolding p editProps_def by (auto simp: Let_def split: option.splits if_splits)
    then show "free_for (address d) ?i (sv_nodes sv)" using slot_stored [OF a(1,2)] stored_free [OF ok] by metis
  qed
  have "settings_ep ?s = Some (address d)" by (simp add: settings_ep_def applianceSettings_def)
  then have put: "owned_once (serve (PutNode ?i x y (Some ?s)) sv)" for x y
    using owned_once_claim [OF ok, of "serve (PutNode ?i x y (Some ?s)) sv" ?i "settings_ep ?s"]
      store_ok_serve [of sv "PutNode ?i x y (Some ?s)"] ok free claims_put_node [of ?i ?s "sv_nodes sv" x y]
    by (simp add: owned_once_def serve_def)
  have edge: "owned_once sv' \<Longrightarrow> owned_once (serve (PostEdge e) sv')" for sv' e
    by (rule owned_once_nothing) simp_all
  have "reqs = snd (run_requests fails (applianceModal_requests p m))"
    using save Some by (auto simp: applianceModal_save_def split: prod.splits option.splits)
  then show ?thesis using ok put edge Some
    by (auto simp: applianceModal_requests_def split: option.splits)
qed

section \<open>One endpoint, one node\<close>

lemma picker_step_owned: "picker_step sv sv' \<Longrightarrow> owned_once sv \<Longrightarrow> owned_once sv'"
proof (induction rule: picker_step.induct)
  case (inverter_assigned sv p p' a b label eps cs)
  obtain d where d: "rp_selected p = Some d" "address d = (a, b)"
    using inverter_assigned.hyps(2) by (auto simp: rolePicker_save_def split: option.splits)
  have "free_for (a, b) ''solar_inverter'' (sv_nodes sv)"
    using role_choice_free [OF inverter_assigned.prems _ d(1)] inverter_assigned.hyps(1) d(2) by simp
  then have "distinct (inUse (sv_nodes (serve (PutRole ''solar'' a b label) sv)))"
    using putSolar_owned_once inverter_assigned by (simp add: owned_once_def store_ok_def serve_def)
  then show ?case using inverter_assigned.prems store_ok_serve by (simp add: owned_once_def)
qed (simp_all add: load_added_owned node_edited_owned role_assigned_owned appliance_saved_owned owned_once_nothing)

text \<open>
  C6.  A metered endpoint belongs to at most one node of the graph, whatever is assigned in
  whichever order on the canvas and on the Home page: adding a load, editing one, assigning the
  grid sensor, the tariff or an inverter whose parts are free, saving an appliance (also when a
  request fails on the way) and removing what is there; each dialog is used in any way on the
  list of endpoints the server gave it, and the store does not change while it is open.
\<close>

theorem one_endpoint_one_node:
  assumes "picker_step\<^sup>*\<^sup>* sv sv'" and "store_ok sv" and "distinct (inUse (sv_nodes sv))"
  shows "store_ok sv' \<and> distinct (inUse (sv_nodes sv'))"
proof -
  from assms(1) have "owned_once sv'"
    by (induction rule: rtranclp_induct) (use assms(2,3) in \<open>simp_all add: owned_once_def picker_step_owned [unfolded owned_once_def]\<close>)
  then show ?thesis by (simp add: owned_once_def)
qed

text \<open>An example: the first sensor offered on the seeded store becomes a load.\<close>

lemmas seed_defs = seed_def seed_devices_def seed_nodes_def ep_config_def config_def device_settings_def no_settings_def

lemma seed_inUse: "inUse (sv_nodes seed) = [(30001, 1), (20001, 1), (20002, 1), (20003, 1), (40001, 1)]"
  by (simp add: seed_defs ep_of_def)

lemma seed_offers: "\<exists>es. sensors_offered seed = \<lparr>en_nodeId = 10000, en_endpointId = 13481, en_label = ''Solax Inverter'',
    en_deviceName = ''Hybrid Inverter''\<rparr> # es"
  unfolding offeredEndpoints_def seed_inUse by (simp add: seed_defs ELECTRICAL_SENSOR_DEVICE_TYPE_ID_def or_str_def)

lemma put_node_used: "settings_ep s = Some p \<Longrightarrow> p \<in> set (inUse (putNode i x y (Some s) ns))"
proof -
  assume p: "settings_ep s = Some p"
  have "p \<in> set (inUse (update_first (\<lambda>n. n_id n = i) (\<lambda>n. n\<lparr>n_settings := Some s, n_x := x, n_y := y\<rparr>) ns))" if "has_node i ns"
    using that p by (induction ns) (auto simp: has_node_def inUse_iff)
  moreover have "p \<in> set (inUse (ns @ [config i x y s]))" using p by (auto simp: inUse_iff)
  ultimately show ?thesis by (simp add: putNode_def)
qed

definition example_dialog :: add_modal where
  "example_dialog = addModal_select (en_key (hd (sensors_offered seed)))
     (addModal_loaded (Some (sensors_offered seed)) addModal_open)"

lemma example_dialog_run: "add_run (sensors_offered seed) example_dialog"
proof -
  have "add_run (sensors_offered seed) (addModal_loaded (Some (sensors_offered seed)) addModal_open)"
    by (rule add_run.loaded [OF add_run.opened, of "Some (sensors_offered seed)"])
      (simp_all add: addModal_open_def addModal_on_def)
  then show ?thesis
    by (rule add_run.acted [of _ _ "AddPick (en_key (hd (sensors_offered seed)))"])
      (simp_all add: addModal_on_def example_dialog_def addModal_loaded_def)
qed

lemma example_dialog_save: "\<exists>l. addModal_save example_dialog = Some l \<and> al_nodeId l = 10000 \<and> al_endpointId l = 13481"
proof -
  obtain e es where e: "sensors_offered seed = e # es" "en_nodeId e = 10000" "en_endpointId e = 13481" using seed_offers by auto
  have "so_key (toSensor e) = en_key e" by (simp add: so_key_def en_key_def)
  then have "addModal_selected example_dialog = Some (toSensor e)"
    by (simp add: example_dialog_def e(1) addModal_selected_def addModal_select_def addModal_loaded_def addModal_open_def Let_def)
  with e(2,3) show ?thesis by (simp add: addModal_save_def)
qed

theorem one_endpoint_one_node_witness:
  "\<exists>sv'. picker_step\<^sup>*\<^sup>* seed sv' \<and> (10000, 13481) \<in> set (inUse (sv_nodes sv')) \<and> distinct (inUse (sv_nodes sv'))"
proof -
  obtain l where l: "addModal_save example_dialog = Some l" "al_nodeId l = 10000" "al_endpointId l = 13481"
    using example_dialog_save by blast
  let ?cv = "initial_canvas\<lparr>cv_pendingLoadPos := Some (3, 4)\<rparr>"
  let ?sv = "serveAll (requests (snd (handleAddLoad id l ?cv))) seed"
  have run: "picker_step\<^sup>*\<^sup>* seed ?sv" using picker_step.load_added [OF example_dialog_run l(1)] by blast
  have "(10000, 13481) \<in> set (inUse (sv_nodes ?sv))"
    using l(2,3) by (simp add: handleAddLoad_def insertNode_def Let_def serve_def put_node_used settings_ep_def)
  moreover have "distinct (inUse (sv_nodes ?sv))" using one_endpoint_one_node [OF run seed_store_ok] by (simp add: seed_inUse)
  ultimately show ?thesis using run by blast
qed

text \<open>
  The parts of an inverter are not looked up: a PV string that is used as a load becomes a second
  node of the same endpoint when its inverter, which is still offered, is assigned.
\<close>

definition string_as_load :: server where
  "string_as_load = serve (PutNode ''node_20'' 0 0 (Some (device_settings ''Kettle'' ''device'' 10000 13482))) seed"

theorem mock_inverter_claims_again:
  "distinct (inUse (sv_nodes string_as_load))
   \<and> (\<exists>e\<in>set (offeredEndpoints SOLAR_POWER_DT string_as_load). ident e = (10000, 13481))
   \<and> \<not> distinct (inUse (sv_nodes (serve (PutRole ''solar'' 10000 13481 ''Solax Inverter'') string_as_load)))"
proof -
  have nodes: "sv_nodes string_as_load = sv_nodes seed @ [config ''node_20'' 0 0 (device_settings ''Kettle'' ''device'' 10000 13482)]"
    and devs: "sv_devices string_as_load = seed_devices"
    by (simp_all add: string_as_load_def serve_def putNode_def has_node_def seed_def seed_nodes_def config_def)
  have used: "inUse (sv_nodes string_as_load) = [(30001, 1), (20001, 1), (20002, 1), (20003, 1), (40001, 1), (10000, 13482)]"
    by (simp add: nodes seed_defs ep_of_def)
  have parts: "solarParts 10000 13481 seed_devices = (dv_endpoints (hd seed_devices), [13482, 13483, 13484])"
    by (simp add: solarParts_def seed_devices_def ep_config_def)
  have up: "inUse (upsertNode i x y (device_settings l ty a b) ns) = inUse ns @ [(a, b)]" if "\<not> has_node i ns" for i x y l ty a b ns
    using that by (induction ns) (auto simp: upsertNode_def has_node_def split: option.split)
  have up_ids: "has_node j (upsertNode i x y s ns) \<longleftrightarrow> j = i \<or> has_node j ns" for i j x y s ns
  proof -
    have "has_node j ms \<longleftrightarrow> j \<in> n_id ` set ms" for ms by (auto simp: has_node_def)
    then show ?thesis using ids_insert [OF upsertNode_ids, of i x y s ns] by simp
  qed
  have new: "\<not> has_node ''solar_inverter'' (sv_nodes string_as_load)" "\<not> has_node (''battery_'' @ t) (sv_nodes string_as_load)"
    "\<not> has_node (''pv_string_'' @ t) (sv_nodes string_as_load)" for t
    by (auto simp: nodes seed_def seed_nodes_def config_def has_node_def)
  have "inUse (sv_nodes (putSolar 10000 13481 ''Solax Inverter'' string_as_load))
      = inUse (sv_nodes string_as_load) @ [(10000, 13481), (10000, 13482), (10000, 13483), (10000, 13484)]"
    unfolding putSolar_def devs parts
    by (simp add: Let_def case_prod_beta seed_devices_def ep_config_def POWER_SOURCE_DT_def ELECTRICAL_SENSOR_DT_def up up_ids new [simplified])
  moreover have "\<exists>e\<in>set (offeredEndpoints SOLAR_POWER_DT string_as_load). ident e = (10000, 13481)"
    unfolding offeredEndpoints_def used devs by (simp add: seed_devices_def ep_config_def SOLAR_POWER_DT_def)
  ultimately show ?thesis by (simp add: used serve_def)
qed

end
