(* ===== verification/Spec2Isabelle.thy ===== *)
theory Spec2Isabelle
  imports Session CanvasProps FlowProps HomeProps HomeSlots PickerProps DevicesProps FetchQueue WebSocketHook
    PowerChartProps PowerHistoryProps PowerPageProps ForecastProps NodeViewsProps SchedulePageProps AppliancesPageProps
    Maintenance MockEnergyProps MockRecords MockLive HomeSession TopologyPage ViewSync EditDialog AppShell
    PickerDialogs PickerSession
begin

text \<open>
  Home Energy Manager, the web application (\<open>firmware/html_app/src\<close>).

  The application is a React client of an energy manager that runs on a microcontroller.  The
  device serves a graph of nodes (meters, consumer units, loads, inverters, batteries) and edges
  (wires between handles) over HTTP, and pushes attribute reports over a WebSocket.  The pages show
  and edit the graph (\<open>Topology.tsx\<close>, \<open>Home.tsx\<close>), commission devices (\<open>Devices.tsx\<close>,
  \<open>CommissioningWindow.tsx\<close>) and draw power, energy, prices, forecasts and schedules
  (\<open>Power.tsx\<close>, \<open>Forecast.tsx\<close>, \<open>Schedule.tsx\<close>, \<open>Appliances.tsx\<close>); \<open>mocks/handlers.ts\<close> is
  the server the client is developed against.  This development translates the code of these
  files into definitions and proves what makes them correct.


  How a page is modelled.  The state of a component (its \<open>useState\<close> and \<open>useRef\<close> cells) is a
  record; every handler and effect is a function from the old state to the new state, together with
  the requests it sends; the answer of a request is an argument of a second function, the
  continuation of the promise.  The type \<open>answer\<close> distinguishes a request that failed from an answer
  with a status, and \<open>checked\<close>, \<open>textChecked\<close> and \<open>promiseAll\<close> are the idioms by which the code
  turns answers into values or error texts.  What a component draws is a function of its state that
  returns the texts, positions, enabled buttons and conditions of the code; style sheets and
  icons are left out, but for the colours that carry state.  Interleavings of user, server, timers and sockets are inductive step
  relations (\<open>canvas_step\<close>, \<open>queue_step\<close>, \<open>ws_step\<close>, \<open>appliances_step\<close>, \<open>reset_step\<close>, \<open>slot_run\<close>,
  \<open>hover_run\<close>, \<open>edit_run\<close>, \<open>add_run\<close>, \<open>grid_run\<close>, \<open>role_run\<close>, \<open>appliance_run\<close>, \<open>picker_step\<close>,
  \<open>session\<close>), with properties of all their reachable states.


  Theories, in the order of the code's layers.

  \<^item> \<open>Prelude\<close>: JavaScript strings and numbers (\<open>String\<close>, \<open>parseInt\<close>, \<open>toFixed\<close>, \<open>Math.round\<close>,
  \<open>padStart\<close>, \<open>||\<close>, \<open>??\<close>) and list facts.  \<open>Ids\<close>: ids and keys built from numbers; the locale
  \<open>numeral_codec\<close> states what they need of a number format, and the decimal format discharges it.
  \<open>Graph\<close>: saved nodes and edges, requests and answers.

  \<^item> \<open>Metering\<close> and \<open>Flows\<close> (with \<open>FlowFacts\<close>, \<open>FlowProps\<close>): reading attributes, and
  \<open>withDerivedFlows\<close> of \<open>Topology.tsx\<close>, which computes what the meters do not measure: the totals of
  sub consumer units, the remainder on a shared handle, the Unallocated feed.  The lemmas relate
  the memoised recursion to a plain specification and show that every board balances.

  \<^item> \<open>Canvas\<close>, \<open>CanvasFacts\<close>, \<open>CanvasProps\<close>: the state of the topology page and all its handlers;
  the invariant \<open>canvas_ok\<close>, exact deletions, batches against single reports.  \<open>CanvasLoad\<close>,
  \<open>LoadProps\<close>: opening the page on a saved graph.  \<open>NodeViews\<close>, \<open>NodeViewsProps\<close>: what nodes and
  edges (\<open>PowerFlowEdge.tsx\<close>) draw.

  \<^item> \<open>MockServer\<close>, \<open>StoreSync\<close>, \<open>ServerProps\<close>: the store behind the page.  The locale \<open>graph_store\<close>
  is the contract of a store (what each request changes); in it every handler is proved to leave
  canvas and store in agreement, and the mock server, merging or replacing settings, is an
  interpretation.  \<open>Session\<close> composes
  loading, handlers and server; its theorem stands below.  A save of the edit dialog is a step of
  the session with its request, and so are the moves of nodes by React Flow and the clicks that
  open and close dialogs.

  \<^item> \<open>TopologyPage\<close>: the frame of the topology page, that is, the component of each node type, the
  dialogs and menus that are open, toasts, status dot and initial zoom; the keyboard listener.
  \<open>ViewSync\<close>: the relation between what a node shows and its stored settings, kept by every step of
  a session, so that reloading the page shows the same.  \<open>EditDialog\<close>: the events of the edit dialog
  in any order.

  \<^item> \<open>MockEnergy\<close>, \<open>MockEnergyProps\<close>, \<open>MockRecords\<close>, \<open>MockLive\<close>: the data the mock server
  makes up, with the 32-bit hash behind its daily energies, its power records, forecasts and learned
  profiles, and the frames it pushes; lemmas show that the pages read them back (the usage history
  adds up, the daily chart has no gap, the dishwasher alternates between running and standby).

  \<^item> \<open>Home\<close>, \<open>HomeProps\<close>, \<open>HomeSlots\<close>: the layout of loads over slots, free ids and circuits, the
  chains of deleting requests, the cards and their confirmation.  \<open>Pickers\<close>, \<open>PickerProps\<close>: the
  dialogs (\<open>AddLoadModal\<close>, \<open>EditNodeModal\<close>, \<open>GridModal\<close>, the endpoint pickers and the appliance
  dialog of \<open>Home.tsx\<close>).  \<open>HomeSession\<close>: the Home page against the store, that is, a saved or
  removed appliance or input after reloading, and a save repeated after a failure.
  \<open>PickerDialogs\<close>: the events of these dialogs and all their runs.  \<open>PickerSession\<close>: who owns a
  metered endpoint.  The locale \<open>endpoint_dialog\<close> states that a dialog chooses what the server offered
  or what it was opened with; the four dialogs are interpretations, and from it follows that no
  endpoint gets a second node, in any order of assignments from the canvas and the Home page, on a
  store that does not change while a dialog is open.  The one exception, the parts of an inverter,
  is shown by an example.  Devices dropped on the canvas (\<open>onDrop\<close>) carry their own payload and are
  not part of this session.

  \<^item> \<open>DevicesPage\<close>, \<open>DevicesProps\<close>: endpoint tree, renaming, commissioning.
  \<open>AppShell\<close>: the routes and links of \<open>App.tsx\<close>, and the way from an opened commissioning window to
  the page that shows it.

  \<^item> \<open>FetchQueue\<close>: the promise chain of \<open>fetchQueue.ts\<close> as a list of calls; the locale
  \<open>serial_queue\<close> is what pages rely on.  \<open>WebSocketHook\<close>: \<open>useWebSocket.ts\<close> with its sockets and timers.

  \<^item> \<open>PowerChart\<close>, \<open>PowerHistory\<close>, \<open>PowerPage\<close> (each with its \<open>Props\<close>): the daily chart, the usage
  history and the page around them in \<open>Power.tsx\<close>.  \<open>Tariff\<close>, \<open>Forecast\<close>, \<open>ForecastProps\<close>:
  \<open>tariff.ts\<close> and \<open>Forecast.tsx\<close>.  \<open>SchedulePage\<close> and \<open>AppliancesPage\<close> (with \<open>Props\<close>), and
  \<open>Maintenance\<close> for \<open>Settings.tsx\<close> and \<open>Test.tsx\<close>.


  Parameters.  Code that is not in the repository is an argument: \<open>addEdge\<close> and the edge changes of
  the canvas library, the router (which matches segment by segment: \<open>router_spec\<close>; at most one route
  fits any path, so its choice does not matter), the path length of an edge, the local calendar
  (\<open>midnight\<close>, \<open>hourOf\<close>, \<open>shift\<close>), the collation and currency formats of the locale, and the parser
  of socket frames.  Each property with such an assumption has an example that satisfies it.
  \<open>library_spec\<close> says of \<open>addEdge\<close> that it leaves the edges alone when one of them joins the same
  handles already, whatever its id, and appends the new edge otherwise, and of the edge changes that
  they remove the edges they are told to.  The canvas invariant needs less of them
  (\<open>adds_at_most\<close>, \<open>adds_none\<close>).  React Flow also acts by itself: it moves and selects nodes
  (\<open>placed_as\<close>), and on Backspace it removes the selected nodes (\<open>flow_removes\<close>, after the edges at
  them, which reach \<open>onEdgesChange\<close>).  The page's own key handler may run before or after that.  Run
  after, it finds nothing selected and deletes nothing on the server (\<open>flow_removal_is_not_saved\<close>),
  so a session carries the set of nodes \<open>lost\<close> in this way.


  The server.  The graph is served by the model of the development server, with its settings either
  merged, as that server does, or replaced, as the firmware does (\<open>serve_as\<close>).  Canvas and store
  are compared for both.  The session starts from a graph whose edges are stored under the ids made of
  their wires, as all edges are that the pages and the server create: a wire stored under another id and
  drawn again is stored twice (\<open>redrawn_wire_is_stored_twice\<close>).


  Bounds and idealisations.  Numbers are exact rationals: rounding errors of doubles are not
  modelled, and NaN only where the code produces it (\<open>js_abs\<close>, the stored zoom).  State updates take
  effect at once and in order, as React guarantees for the functional updates the code uses.  A
  timer fires at its due time, before anything later.  The recursions over the graph terminate
  without fuel (\<open>totalFor\<close> by its visiting set); only the endpoint tree of \<open>Devices.tsx\<close>, which the
  code does not guard against cyclic parts lists, carries fuel, and \<open>every_endpoint_is_drawn\<close> shows
  that any fuel above the depth of an acyclic device is enough.  The tick loops of the charts
  terminate because their step is positive.  Device and endpoint numbers are unbounded naturals; above
  2 to the power 53 the numbers of JavaScript would lose digits.


  Not modelled.  The firmware (C and C++) is behind the HTTP interface (but for the replacing of settings).  Of the mock server, the
  operations of the test page and the battery ledger answer constants and are left out; random
  numbers, the clock, sines and exponentials are parameters.  \<open>main.tsx\<close>, \<open>DnDContext.tsx\<close> and
  \<open>mocks/browser.ts\<close> only mount components and call libraries.  \<open>mockServiceWorker.js\<close> is
  generated by its package and \<open>html_compiled_app\<close> by the build.
\<close>

section \<open>Canvas and server over a whole session\<close>

text \<open>
  C1.  Over a whole session of the topology page, from opening it on a stored graph through any
  sequence of calls of its handlers, whose requests the server applies in order, and of removals
  that React Flow makes by itself on Backspace: the stored wiring is the wiring on the canvas
  (without the feed of the Unallocated node, which the page makes itself), the stored nodes are
  those on the canvas together with the lost ones, which React Flow removed by itself and no
  handler has deleted, all ids are unique on both sides, no edge dangles, and the next generated
  id is free in the store. The stored graph has unique ids, edges between stored nodes, the
  consumer unit, and each edge under the id made of its wire; requests about existing nodes name
  nodes that are shown; a connection joins nodes with non-empty ids, is not the Unallocated
  feed, and its id is not that of a different wire. addEdge of the library appends a connection,
  or changes nothing if the same handles are joined already. The server may merge settings it is
  sent or replace them.
\<close>

theorem session_keeps_canvas_and_server_in_agreement:
  assumes "session addEdge base merging cv sv lost" and "library_spec addEdge base"
  shows "server_nodes sv = node_ids cv \<union> lost \<and> server_edges sv = savedEdges cv
    \<and> distinct (map c_id (cv_nodes cv)) \<and> no_dangling cv
    \<and> distinct (map e_id (cv_edges cv)) \<and> canonical_ids cv
    \<and> distinct (map n_id (sv_nodes sv)) \<and> distinct (map se_id (sv_edges sv))
    \<and> node_name (Suc (cv_nodeIdCounter cv)) \<notin> server_nodes sv"
proof -
  have inv: "session_inv cv sv lost" by (rule session_keeps_inv [OF assms])
  with session_fresh [OF inv] show ?thesis
    by (simp add: session_inv_def canvas_ok_def edges_ok_def edge_ids_ok_def store_ok_def agrees_but_def)
qed

theorem session_keeps_canvas_and_server_in_agreement_witness:
  "node_ids (fst extended_seed)
     = server_nodes (serveAs False (requests (snd extended_seed)) (serveAs False (requests (snd opened_seed)) seed))"
  using session_keeps_canvas_and_server_in_agreement [OF example_session flow_library] by simp

end
